(* ===== verification/Dsched_Prelude.thy ===== *)
theory Dsched_Prelude
  imports Main "HOL-Library.Word"
begin

text \<open>
  Shared vocabulary of the development: the collections of simplification
  rules the component proofs use, the result type of the handlers (a fault of
  the C program or a value), word widths, and generic lemmas on lists, options
  and priority insertion that several components share.
\<close>

named_theorems handler_defs "definitions of the event handlers"
named_theorems world_simps "simplification of reads after writes of the object store"
named_theorems res_intros "rules for results that are not faults"

type_synonym u8 = "8 word"
type_synonym u16 = "16 word"
type_synonym u32 = "32 word"
type_synonym u64 = "64 word"

text \<open>The conversion \<open>(int) x\<close> of a 64-bit value: its low 32 bits as a signed number.\<close>

definition int_of_u64 :: "u64 \<Rightarrow> int" where
  "int_of_u64 x = sint (ucast x :: u32)"

text \<open>
  What the C program does when it leaves the defined behaviour of the
  language: it follows a null pointer, calls a null function pointer, reads
  the end marker of a list as if it were an item, reads a union through a
  member that was not written, uses memory it has freed, reads past the end of
  an array, uses an object before it is set up, or fails an assertion.
\<close>

datatype fault = NullDeref | NullCall | SentinelDeref | UnionMismatch | UseAfterFree
  | OutOfBounds | Uninitialised | AssertFailed

type_synonym 'a res = "fault + 'a"

definition res_bind :: "'a res \<Rightarrow> ('a \<Rightarrow> 'b res) \<Rightarrow> 'b res" where
  "res_bind m f = (case m of Inl e \<Rightarrow> Inl e | Inr x \<Rightarrow> f x)"

lemma res_bind_Inr [simp]: "res_bind (Inr x) f = f x"
  by (simp add: res_bind_def)

lemma res_bind_Inl [simp]: "res_bind (Inl e) f = Inl e"
  by (simp add: res_bind_def)

lemma res_bind_eq_Inr [simp]:
  "res_bind m f = Inr y \<longleftrightarrow> (\<exists>x. m = Inr x \<and> f x = Inr y)"
  by (cases m) simp_all

lemma res_bind_cong [fundef_cong]:
  "m = m' \<Longrightarrow> (\<And>x. m' = Inr x \<Longrightarrow> f x = f' x) \<Longrightarrow> res_bind m f = res_bind m' f'"
  by (cases m') simp_all

lemma res_bind_assoc:
  "res_bind (res_bind m f) g = res_bind m (\<lambda>x. res_bind (f x) g)"
  by (cases m) simp_all

text \<open>
  A pointer that may be null is an option; following it is a fault when it is
  null.
\<close>

type_synonym ptr = nat

definition deref :: "'a option \<Rightarrow> 'a res" where
  "deref p = (case p of None \<Rightarrow> Inl NullDeref | Some a \<Rightarrow> Inr a)"

lemma deref_simps [simp]:
  "deref None = Inl NullDeref" "deref (Some a) = Inr a"
  by (simp_all add: deref_def)

lemma deref_eq_Inr [simp]: "deref p = Inr a \<longleftrightarrow> p = Some a"
  by (cases p) simp_all

text \<open>A loop over a list whose body may fault.\<close>

fun res_fold :: "('a \<Rightarrow> 's \<Rightarrow> 's res) \<Rightarrow> 'a list \<Rightarrow> 's \<Rightarrow> 's res" where
  "res_fold f [] s = Inr s"
| "res_fold f (x # xs) s = res_bind (f x s) (res_fold f xs)"

lemma res_fold_invariant:
  assumes "\<And>x s s'. x \<in> set xs \<Longrightarrow> P s \<Longrightarrow> f x s = Inr s' \<Longrightarrow> P s'" and "P s" and "res_fold f xs s = Inr s'"
  shows "P s'"
  using assms by (induction xs arbitrary: s) auto

subsection \<open>Finding the first element with a property\<close>

text \<open>
  \<open>List.find\<close> is the shape of the search loops that return the first match.
\<close>

lemma find_append:
  "List.find P (xs @ ys) = (case List.find P xs of None \<Rightarrow> List.find P ys | Some x \<Rightarrow> Some x)"
  by (induction xs) simp_all

subsection \<open>Insertion by decreasing priority\<close>

text \<open>
  The insertion loop of the framework selections: before the first element
  whose priority is smaller, at the end when there is none.
\<close>

fun insert_pri :: "('a \<Rightarrow> int) \<Rightarrow> 'a \<Rightarrow> 'a list \<Rightarrow> 'a list" where
  "insert_pri pri x [] = [x]"
| "insert_pri pri x (y # ys) =
     (if pri x > pri y then x # y # ys else y # insert_pri pri x ys)"

lemma set_insert_pri [simp]: "set (insert_pri pri x ys) = insert x (set ys)"
  by (induction ys) auto

lemma length_insert_pri [simp]: "length (insert_pri pri x ys) = Suc (length ys)"
  by (induction ys) auto

lemma insert_pri_sorted:
  "sorted_wrt (\<lambda>a b. pri a \<ge> pri b) ys \<Longrightarrow>
   sorted_wrt (\<lambda>a b. pri a \<ge> pri b) (insert_pri pri x ys)"
  by (induction ys) fastforce+

text \<open>Among equal priorities the order of insertion is kept.\<close>

lemma insert_pri_filter:
  "sorted_wrt (\<lambda>a b. pri a \<ge> pri b) ys \<Longrightarrow>
   filter (\<lambda>a. pri a = k) (insert_pri pri x ys) =
   filter (\<lambda>a. pri a = k) ys @ (if pri x = k then [x] else [])"
proof (induction ys)
  case Nil
  then show ?case by simp
next
  case (Cons y ys)
  show ?case
  proof (cases "pri x > pri y")
    case True
    with Cons.prems have "pri x = k \<Longrightarrow> filter (\<lambda>a. pri a = k) (y # ys) = []"
      by (auto simp: filter_empty_conv)
    with True show ?thesis by (cases "pri x = k") simp_all
  next
    case False
    with Cons show ?thesis by auto
  qed
qed

end
