(* ===== verification/Byte_Order.thy ===== *)
theory Byte_Order
  imports Dsched_Prelude
begin

text \<open>
  Byte order conversions of \<open>include/dsched_types.h\<close> and the string hash macros
  of \<open>include/dsched_hash_string.h\<close>. The unions of the source overlay a word
  with its bytes in memory; the layout is explicit here: \<open>be\<close> says whether the
  platform is big endian (\<open>WORDS_BIGENDIAN\<close>), \<open>have_bswap\<close> whether
  \<open>HAVE_UNIX_BYTESWAP\<close> is defined.
\<close>

unbundle bit_operations_syntax

subsection \<open>Words in memory\<close>

definition byte_at :: "nat \<Rightarrow> 'a::len word \<Rightarrow> u8" where
  "byte_at i v = ucast (drop_bit (8 * i) v)"

fun le_word :: "u8 list \<Rightarrow> 'a::len word" where
  "le_word [] = 0"
| "le_word (b # bs) = ucast b OR push_bit 8 (le_word bs)"

definition mem_bytes :: "bool \<Rightarrow> nat \<Rightarrow> 'a::len word \<Rightarrow> u8 list" where
  "mem_bytes be n v =
     (let le = map (\<lambda>i. byte_at i v) [0..<n] in if be then rev le else le)"

definition mem_word :: "bool \<Rightarrow> u8 list \<Rightarrow> 'a::len word" where
  "mem_word be bs = le_word (if be then rev bs else bs)"

subsection \<open>Byte swaps\<close>

definition dsched_swap_bytes2 :: "bool \<Rightarrow> u16 \<Rightarrow> u16" where
  "dsched_swap_bytes2 be val =
     (let w = mem_bytes be 2 val
      in mem_word be [w ! 1, w ! 0])"

definition dsched_swap_bytes4 :: "bool \<Rightarrow> u32 \<Rightarrow> u32" where
  "dsched_swap_bytes4 be val =
     (let w = mem_bytes be 4 val
      in mem_word be [w ! 3, w ! 2, w ! 1, w ! 0])"

definition dsched_swap_bytes8 :: "bool \<Rightarrow> u64 \<Rightarrow> u64" where
  "dsched_swap_bytes8 be val =
     (let w = mem_bytes be 8 val
      in mem_word be [w ! 7, w ! 6, w ! 5, w ! 4, w ! 3, w ! 2, w ! 1, w ! 0])"

text \<open>
  \<open>htonl\<close> is the C library's when \<open>HAVE_UNIX_BYTESWAP\<close> is defined: the
  identity on a big endian platform, the byte swap on a little endian one.
  Without it \<open>dsched_config_bottom.h\<close> supplies the identity.
\<close>

definition htonl :: "bool \<Rightarrow> bool \<Rightarrow> u32 \<Rightarrow> u32" where
  "htonl have_bswap be hostvar =
     (if have_bswap \<and> \<not> be then mem_word be (rev (mem_bytes be 4 hostvar)) else hostvar)"

definition ntohl :: "bool \<Rightarrow> bool \<Rightarrow> u32 \<Rightarrow> u32" where
  "ntohl have_bswap be netvar =
     (if have_bswap \<and> \<not> be then mem_word be (rev (mem_bytes be 4 netvar)) else netvar)"

text \<open>The members \<open>l[0]\<close> and \<open>l[1]\<close> of the union over a 64 bit word.\<close>

definition union_l :: "bool \<Rightarrow> nat \<Rightarrow> u64 \<Rightarrow> u32" where
  "union_l be i w = mem_word be (take 4 (drop (4 * i) (mem_bytes be 8 w)))"

definition union_ll :: "bool \<Rightarrow> u32 \<Rightarrow> u32 \<Rightarrow> u64" where
  "union_ll be l0 l1 = mem_word be (mem_bytes be 4 l0 @ mem_bytes be 4 l1)"

definition dsched_hton64 :: "bool \<Rightarrow> bool \<Rightarrow> u64 \<Rightarrow> u64" where
  "dsched_hton64 have_bswap be val =
     (if have_bswap then
        (if htonl have_bswap be 1 = 1 then val
         else union_ll be (htonl have_bswap be (union_l be 1 val))
                          (htonl have_bswap be (union_l be 0 val)))
      else val)"

definition dsched_ntoh64 :: "bool \<Rightarrow> bool \<Rightarrow> u64 \<Rightarrow> u64" where
  "dsched_ntoh64 have_bswap be val =
     (if have_bswap then
        (if htonl have_bswap be 1 = 1 then val
         else union_ll be (ntohl have_bswap be (union_l be 1 val))
                          (ntohl have_bswap be (union_l be 0 val)))
      else val)"

subsection \<open>Lemmas\<close>

lemma bit_byte_at: "bit (byte_at i (v::'a::len word)) n \<longleftrightarrow> n < 8 \<and> bit v (8 * i + n)"
  by (auto simp: byte_at_def bit_simps dest: bit_imp_le_length)

lemma bit_le_word:
  "bit (le_word bs :: 'a::len word) n \<longleftrightarrow>
     n < LENGTH('a) \<and> n div 8 < length bs \<and> bit (bs ! (n div 8)) (n mod 8)"
proof (induction bs arbitrary: n)
  case Nil
  then show ?case by simp
next
  case (Cons b bs)
  show ?case
  proof (cases "n < 8")
    case True
    then show ?thesis by (auto simp: bit_simps)
  next
    case False
    then obtain m where m: "n = m + 8" by (metis le_add_diff_inverse2 not_less)
    have "\<not> bit b n" using False by (auto dest: bit_imp_le_length)
    then show ?thesis using Cons.IH [of m] by (auto simp: m bit_simps div_add_self2)
  qed
qed

lemma le_word_bytes:
  assumes "LENGTH('a) \<le> 8 * n"
  shows "le_word (map (\<lambda>i. byte_at i v) [0..<n]) = (v :: 'a::len word)"
proof (rule bit_word_eqI)
  fix k
  assume k: "k < LENGTH('a)"
  with assms have "k div 8 < n" by (simp add: less_mult_imp_div_less mult.commute)
  with k show "bit (le_word (map (\<lambda>i. byte_at i v) [0..<n]) :: 'a word) k = bit v k"
    by (simp add: bit_le_word bit_byte_at)
qed

lemma byte_at_le_word:
  assumes "i < length bs" "8 * length bs \<le> LENGTH('a)"
  shows "byte_at i (le_word bs :: 'a::len word) = bs ! i"
proof (rule bit_word_eqI)
  fix k
  assume k: "k < LENGTH(8)"
  then have "8 * i + k < 8 * Suc i" by simp
  also have "\<dots> \<le> LENGTH('a)" using assms by (meson Suc_leI le_trans mult_le_mono2)
  finally show "bit (byte_at i (le_word bs :: 'a word)) k = bit (bs ! i) k"
    using k assms by (simp add: bit_byte_at bit_le_word)
qed

lemma map_byte_at_le_word:
  "8 * length bs \<le> LENGTH('a) \<Longrightarrow> n = length bs \<Longrightarrow>
   map (\<lambda>i. byte_at i (le_word bs :: 'a::len word)) [0..<n] = bs"
  by (rule nth_equalityI) (simp_all add: byte_at_le_word)

lemma length_mem_bytes [simp]: "length (mem_bytes be n v) = n"
  by (simp add: mem_bytes_def Let_def)

lemma mem_word_bytes [simp]:
  "LENGTH('a) \<le> 8 * n \<Longrightarrow> mem_word be (mem_bytes be n v) = (v :: 'a::len word)"
  by (simp add: mem_word_def mem_bytes_def Let_def le_word_bytes)

lemma mem_bytes_word [simp]:
  "8 * length bs \<le> LENGTH('a) \<Longrightarrow> n = length bs \<Longrightarrow>
   mem_bytes be n (mem_word be bs :: 'a::len word) = bs"
  by (auto simp: mem_word_def mem_bytes_def Let_def map_byte_at_le_word)

text \<open>Each swap reads the bytes in the reverse order, whatever the layout.\<close>

lemma rev_mem_bytes_layout: "mem_word be (rev (mem_bytes be n v)) = mem_word False (rev (mem_bytes False n v))"
  by (simp add: mem_word_def mem_bytes_def Let_def)

lemma swap_bytes_rev:
  "dsched_swap_bytes2 be v2 = mem_word be (rev (mem_bytes be 2 v2))"
  "dsched_swap_bytes4 be v4 = mem_word be (rev (mem_bytes be 4 v4))"
  "dsched_swap_bytes8 be v8 = mem_word be (rev (mem_bytes be 8 v8))"
  unfolding dsched_swap_bytes2_def dsched_swap_bytes4_def dsched_swap_bytes8_def
  by (auto intro!: arg_cong [where f = "mem_word be"] nth_equalityI
      simp: Let_def rev_nth less_Suc_eq numeral_eq_Suc nth_Cons split: nat.splits)

lemma rev_mem_twice:
  "LENGTH('a) = 8 * n \<Longrightarrow>
   mem_word be (rev (mem_bytes be n (mem_word be (rev (mem_bytes be n v)) :: 'a word))) = (v :: 'a::len word)"
  by simp

lemma htonl_little: "htonl True False 1 \<noteq> 1"
proof -
  have "[0..<4] = [0, 1, 2, 3]" by (simp add: upt_rec)
  then show ?thesis
    by (simp add: htonl_def mem_word_def mem_bytes_def byte_at_def Let_def)
qed

lemma htonl_identity [simp]:
  "htonl False be x = x" "htonl have_bswap True x = x"
  "ntohl False be x = x" "ntohl have_bswap True x = x"
  by (simp_all add: htonl_def ntohl_def)

lemma ntohl_eq_htonl: "ntohl = htonl"
  by (simp add: fun_eq_iff ntohl_def htonl_def)

lemma union_swap:
  "union_ll False (htonl True False (union_l False (Suc 0) v)) (htonl True False (union_l False 0 v)) =
   mem_word False (rev (mem_bytes False 8 v))"
proof -
  let ?bs = "mem_bytes False 8 v"
  have "?bs = take 4 ?bs @ drop 4 ?bs" by simp
  then have "rev ?bs = rev (drop 4 ?bs) @ rev (take 4 ?bs)" by (metis rev_append)
  then show ?thesis by (simp add: union_ll_def union_l_def htonl_def)
qed

lemma hton64_cases:
  "dsched_hton64 have_bswap be v =
     (if have_bswap \<and> \<not> be then mem_word False (rev (mem_bytes False 8 v)) else v)"
  using htonl_little by (auto simp: dsched_hton64_def union_swap)

lemma ntoh64_eq_hton64: "dsched_ntoh64 = dsched_hton64"
  by (simp add: fun_eq_iff dsched_ntoh64_def dsched_hton64_def ntohl_eq_htonl)

subsection \<open>String hashes\<close>

text \<open>
  The loop of both macros: every character before the terminating null is
  added, as a \<open>char\<close> promoted to \<open>int\<close> and converted to \<open>uint32_t\<close>
  (\<open>signed_char\<close> says whether the platform's \<open>char\<close> is signed), then mixed.
\<close>

definition char_u32 :: "bool \<Rightarrow> char \<Rightarrow> u32" where
  "char_u32 signed_char c =
     (let b = (of_char c :: u8) in if signed_char then scast b else ucast b)"

definition hash_step :: "bool \<Rightarrow> u32 \<Rightarrow> char \<Rightarrow> u32" where
  "hash_step signed_char h c =
     (let h1 = h + char_u32 signed_char c;
          h2 = h1 + push_bit 10 h1
      in h2 XOR drop_bit 6 h2)"

fun hash_strlen_loop :: "bool \<Rightarrow> string \<Rightarrow> u32 \<Rightarrow> u32 \<Rightarrow> u32 \<times> u32" where
  "hash_strlen_loop sg [] h len = (h, len)"
| "hash_strlen_loop sg (c # cs) h len =
     (if c = CHR 0x00 then (h, len) else hash_strlen_loop sg cs (hash_step sg h c) (len + 1))"

fun hash_str_loop :: "bool \<Rightarrow> string \<Rightarrow> u32 \<Rightarrow> u32" where
  "hash_str_loop sg [] h = h"
| "hash_str_loop sg (c # cs) h =
     (if c = CHR 0x00 then h else hash_str_loop sg cs (hash_step sg h c))"

definition hash_final :: "u32 \<Rightarrow> u32" where
  "hash_final h =
     (let h1 = h + push_bit 3 h;
          h2 = h1 XOR drop_bit 11 h1
      in h2 + push_bit 15 h2)"

definition DSCHED_HASH_STRLEN :: "bool \<Rightarrow> string \<Rightarrow> u32 \<times> u32" where
  "DSCHED_HASH_STRLEN sg str =
     (let (h, len) = hash_strlen_loop sg str 0 0 in (hash_final h, len))"

definition DSCHED_HASH_STR :: "bool \<Rightarrow> string \<Rightarrow> u32" where
  "DSCHED_HASH_STR sg str = hash_final (hash_str_loop sg str 0)"

lemma hash_strlen_loop_eq:
  "hash_strlen_loop sg str h len =
     (hash_str_loop sg str h, len + of_nat (length (takeWhile (\<lambda>c. c \<noteq> CHR 0x00) str)))"
  by (induction str arbitrary: h len) (simp_all add: add.assoc)

subsection \<open>Properties\<close>

text \<open>
  The three byte swaps give the same result on every memory layout and
  undo themselves.
\<close>

theorem swap_bytes_correct:
  "dsched_swap_bytes2 be v2 = dsched_swap_bytes2 be' v2 \<and>
   dsched_swap_bytes4 be v4 = dsched_swap_bytes4 be' v4 \<and>
   dsched_swap_bytes8 be v8 = dsched_swap_bytes8 be' v8 \<and>
   dsched_swap_bytes2 be (dsched_swap_bytes2 be v2) = v2 \<and>
   dsched_swap_bytes4 be (dsched_swap_bytes4 be v4) = v4 \<and>
   dsched_swap_bytes8 be (dsched_swap_bytes8 be v8) = v8"
proof (intro conjI)
  show "dsched_swap_bytes2 be v2 = dsched_swap_bytes2 be' v2"
    "dsched_swap_bytes4 be v4 = dsched_swap_bytes4 be' v4"
    "dsched_swap_bytes8 be v8 = dsched_swap_bytes8 be' v8"
    using rev_mem_bytes_layout unfolding swap_bytes_rev by metis+
qed (simp_all add: swap_bytes_rev rev_mem_twice)


text \<open>
  \<open>DSCHED_HASH_STRLEN\<close> computes the hash of \<open>DSCHED_HASH_STR\<close> together
  with the length of the string before its null, modulo the width of the
  length, and both depend only on those characters.
\<close>

theorem hash_strlen_correct:
  "DSCHED_HASH_STRLEN sg str = (DSCHED_HASH_STR sg str, of_nat (length (takeWhile (\<lambda>c. c \<noteq> CHR 0x00) str))) \<and>
   DSCHED_HASH_STR sg str = DSCHED_HASH_STR sg (takeWhile (\<lambda>c. c \<noteq> CHR 0x00) str)"
proof
  show "DSCHED_HASH_STRLEN sg str = (DSCHED_HASH_STR sg str, of_nat (length (takeWhile (\<lambda>c. c \<noteq> CHR 0x00) str)))"
    by (simp add: DSCHED_HASH_STRLEN_def DSCHED_HASH_STR_def hash_strlen_loop_eq)
  have "hash_str_loop sg str h = hash_str_loop sg (takeWhile (\<lambda>c. c \<noteq> CHR 0x00) str) h" for h
    by (induction str arbitrary: h) simp_all
  then show "DSCHED_HASH_STR sg str = DSCHED_HASH_STR sg (takeWhile (\<lambda>c. c \<noteq> CHR 0x00) str)"
    by (simp add: DSCHED_HASH_STR_def)
qed

end
