(* ===== verification/Pmix_Types.thy ===== *)
theory Pmix_Types
  imports Dsched_Prelude
begin

text \<open>
  What the program uses of the PMIx library, which is not part of the
  repository. Data that crosses the interface (status codes, attribute keys,
  values, containers) has a type here; the library's functions are the fields
  of the record \<open>pmix_api\<close>, an argument of every definition that calls them,
  and what the program relies on is stated by the locales of this theory.
\<close>

subsection \<open>Status codes and attribute keys\<close>

text \<open>
  The codes the sources name; \<open>PMIX_OTHER n\<close> stands for any further code of
  the library.
\<close>

datatype pmix_status =
    PMIX_SUCCESS | PMIX_ERROR | PMIX_ERR_BAD_PARAM | PMIX_ERR_NOT_SUPPORTED
  | PMIX_ERR_NOT_AVAILABLE | PMIX_ERR_NOT_FOUND | PMIX_ERR_TYPE_MISMATCH
  | PMIX_ERR_OUT_OF_RESOURCE | PMIX_OPERATION_IN_PROGRESS | PMIX_OPERATION_SUCCEEDED
  | PMIX_QUERY_PARTIAL_SUCCESS | PMIX_ERR_FATAL | PMIX_ERR_EXISTS | PMIX_ERR_SILENT
  | PMIX_ERR_LOST_CONNECTION | PMIX_ERR_JOB_TERMINATED
  | PMIX_OTHER nat

text \<open>
  Attribute keys are string constants of the library; \<open>PMIX_CHECK_KEY\<close> compares
  them. A key is named by its macro, any other key is \<open>OtherKey\<close>.
\<close>

datatype pmix_key =
    PMIX_ALLOC_REQ_ID | PMIX_ALLOC_ID | PMIX_SESSION_ID | PMIX_ALLOC_NUM_NODES
  | PMIX_ALLOC_NODE_LIST | PMIX_ALLOC_EXCLUDE | PMIX_ALLOC_NUM_CPUS
  | PMIX_ALLOC_NUM_CPU_LIST | PMIX_ALLOC_CPU_LIST | PMIX_ALLOC_MEM_SIZE
  | PMIX_ALLOC_TIME | PMIX_ALLOC_QUEUE | PMIX_ALLOC_PREEMPTIBLE | PMIX_ALLOC_LEND
  | PMIX_ALLOC_IMAGE | PMIX_ALLOC_WAIT_ALL_NODES | PMIX_ALLOC_SHARE
  | PMIX_ALLOC_NOSHELL | PMIX_ALLOC_DEPENDENCY | PMIX_ALLOC_BEGIN
  | PMIX_ALLOC_NOT_WAITING
  | PMIX_EVENT_SILENT_TERMINATION | PMIX_VERSION_INFO | PMIX_USERID | PMIX_GRPID
  | PMIX_NSPACE | PMIX_RANK | PMIX_HOSTNAME | PMIX_CMD_LINE | PMIX_LAUNCHER
  | PMIX_SERVER_SYS_CONTROLLER | PMIX_PROC_PID | PMIX_NODEID
  | PMIX_HWLOC_XML_V1 | PMIX_HWLOC_XML_V2 | PMIX_QUERY_ALLOCATION
  | PMIX_HOSTNAME_ALIASES | PMIX_TOPOLOGY_INDEX | PMIX_NODE_INFO
  | PMIX_SERVER_SCHEDULER | PMIX_TOOL_NSPACE | PMIX_TOOL_RANK | PMIX_HOSTNAME_KEEP_FQDN
  | PMIX_EXTERNAL_AUX_EVENT_BASE | PMIX_SERVER_TMPDIR | PMIX_TCP_REPORT_URI
  | PMIX_BIND_PROGRESS_THREAD | PMIX_BIND_REQUIRED | PMIX_SERVER_REMOTE_CONNECTIONS
  | PMIX_CONNECT_TO_SYS_CONTROLLER | PMIX_TOOL_CONNECT_OPTIONAL
  | OtherKey string

subsection \<open>Values\<close>

text \<open>
  A \<open>pmix_value_t\<close> as a directive carries it: which member of its union was
  written. A string member may be null.
\<close>

datatype pmix_val =
    VString "string option" | VBool bool | VNumber int | VRank u32 | VUndef

record pmix_info =
  i_key :: pmix_key
  i_val :: pmix_val

text \<open>
  \<open>value.data.string\<close> where the code copies the characters: the member must
  have been written and must not be null.
\<close>

fun data_string :: "pmix_val \<Rightarrow> string res" where
  "data_string (VString (Some s)) = Inr s"
| "data_string (VString None) = Inl NullDeref"
| "data_string _ = Inl UnionMismatch"

fun data_rank :: "pmix_val \<Rightarrow> u32 res" where
  "data_rank (VRank r) = Inr r"
| "data_rank _ = Inl UnionMismatch"

record pmix_proc =
  p_nspace :: string
  p_rank :: u32

subsection \<open>Containers\<close>

text \<open>
  A \<open>pmix_list_t\<close> is a list of its items in order. Asking for the item after
  the last one, or for the first item of an empty list, gives the null pointer
  or the list's end marker, which is not an item.
\<close>

datatype 'a list_ref = LNull | LEnd | LItem 'a

text \<open>
  A \<open>pmix_pointer_array_t\<close> is its slots; \<open>pmix_pointer_array_get_item\<close> gives
  null for an index that is not a slot.
\<close>

type_synonym parray = "ptr option list"

definition pa_get :: "parray \<Rightarrow> int \<Rightarrow> ptr option" where
  "pa_get a i = (if 0 \<le> i \<and> i < int (length a) then a ! nat i else None)"

definition pa_items :: "parray \<Rightarrow> ptr list" where
  "pa_items a = map the (filter (\<lambda>x. x \<noteq> None) a)"

subsection \<open>The functions of the library\<close>

text \<open>
  \<open>PMIx_Value_get_number\<close> writes its result through a pointer: the fields take
  the value the destination had and give the status and the value it has
  afterwards. A C \<open>float\<close> is its 32 bits. \<open>pa_add\<close> gives the array and the
  index the item got, \<open>pa_set\<close> the array. \<open>list_first\<close> is
  \<open>pmix_list_get_first\<close>.
\<close>

record pmix_api =
  get_u32 :: "pmix_val \<Rightarrow> u32 \<Rightarrow> pmix_status \<times> u32"
  get_u64 :: "pmix_val \<Rightarrow> u64 \<Rightarrow> pmix_status \<times> u64"
  get_float :: "pmix_val \<Rightarrow> u32 \<Rightarrow> pmix_status \<times> u32"
  get_pid :: "pmix_val \<Rightarrow> u32 \<Rightarrow> pmix_status \<times> u32"
  val_true :: "pmix_val \<Rightarrow> bool"
  pa_add :: "parray \<Rightarrow> ptr \<Rightarrow> parray \<times> int"
  pa_set :: "parray \<Rightarrow> int \<Rightarrow> ptr option \<Rightarrow> parray"
  list_first :: "ptr list \<Rightarrow> ptr list_ref"
  load_nspace :: "string \<Rightarrow> string"


subsection \<open>Pointer arrays\<close>

text \<open>The items of an array depend on its slots only, not on trailing empty ones.\<close>

lemma pa_items_upto:
  "length a \<le> n \<Longrightarrow>
   pa_items a = concat (map (\<lambda>j. case pa_get a (int j) of None \<Rightarrow> [] | Some p \<Rightarrow> [p]) [0..<n])"
proof (induction a arbitrary: n)
  case Nil
  have "concat (map (\<lambda>j. case pa_get [] (int j) of None \<Rightarrow> [] | Some p \<Rightarrow> [p]) [0..<n]) = []"
    by (simp add: pa_get_def)
  then show ?case by (simp add: pa_items_def)
next
  case (Cons x a)
  then obtain m where n: "n = Suc m" by (cases n) auto
  have "pa_get (x # a) (int (Suc j)) = pa_get a (int j)" for j
    by (simp add: pa_get_def nat_add_distrib)
  moreover have "[0..<Suc m] = 0 # map Suc [0..<m]"
    by (simp only: map_Suc_upt upt_conv_Cons [of 0 "Suc m"] zero_less_Suc)
  moreover have "pa_get (x # a) 0 = x"
    by (simp add: pa_get_def)
  ultimately show ?case
    using Cons.IH [of m] Cons.prems by (cases x) (simp_all add: n pa_items_def comp_def)
qed

lemma pa_items_cong: "(\<And>j. pa_get a j = pa_get b j) \<Longrightarrow> pa_items a = pa_items b"
  using pa_items_upto [of a "max (length a) (length b)"]
    pa_items_upto [of b "max (length a) (length b)"] by simp

lemma pa_items_snoc: "pa_items (a @ [Some p]) = pa_items a @ [p]"
  by (simp add: pa_items_def)

lemma pa_items_Nil [simp]: "pa_items [] = []"
  by (simp add: pa_items_def)

lemma pa_get_in_items: "pa_get a i = Some p \<Longrightarrow> p \<in> set (pa_items a)"
proof -
  assume "pa_get a i = Some p"
  then have "nat i < length a" "a ! nat i = Some p" by (auto simp: pa_get_def split: if_splits)
  then have "Some p \<in> set a" by (metis nth_mem)
  then have "Some p \<in> set (filter (\<lambda>x. x \<noteq> None) a)" by simp
  then have "the (Some p) \<in> set (pa_items a)" unfolding pa_items_def set_map by (rule imageI)
  then show ?thesis by simp
qed

lemma in_items_pa_get: "p \<in> set (pa_items a) \<Longrightarrow> \<exists>i. pa_get a i = Some p"
proof -
  assume "p \<in> set (pa_items a)"
  then obtain k where "k < length a" "a ! k = Some p"
    by (auto simp: pa_items_def in_set_conv_nth)
  then show ?thesis by (intro exI [of _ "int k"]) (simp add: pa_get_def)
qed

lemma in_items_iff: "p \<in> set (pa_items a) \<longleftrightarrow> (\<exists>i. pa_get a i = Some p)"
  using pa_get_in_items in_items_pa_get by blast

text \<open>An array whose occupied slots come before its free ones.\<close>

definition packed :: "parray \<Rightarrow> bool" where
  "packed a \<longleftrightarrow> (\<forall>j k. 0 \<le> j \<and> j < k \<and> pa_get a k \<noteq> None \<longrightarrow> pa_get a j \<noteq> None)"

lemma packed_Nil [simp]: "packed []"
  by (simp add: packed_def pa_get_def)

text \<open>
  What the program relies on of \<open>pmix_pointer_array_add\<close> and
  \<open>pmix_pointer_array_set_item\<close>: an item goes into the lowest free slot, whose
  index is the result, or nowhere when the result is negative; setting an item
  changes that slot and no other, and does nothing for a negative index.
\<close>

locale pointer_array =
  fixes add :: "parray \<Rightarrow> ptr \<Rightarrow> parray \<times> int"
    and set_item :: "parray \<Rightarrow> int \<Rightarrow> ptr option \<Rightarrow> parray"
  assumes add_slot: "add a p = (a', i) \<Longrightarrow> 0 \<le> i \<Longrightarrow> pa_get a i = None \<and> pa_get a' i = Some p"
    and add_other: "add a p = (a', i) \<Longrightarrow> j \<noteq> i \<Longrightarrow> pa_get a' j = pa_get a j"
    and add_lowest: "add a p = (a', i) \<Longrightarrow> 0 \<le> j \<Longrightarrow> j < i \<Longrightarrow> pa_get a j \<noteq> None"
    and add_failed: "add a p = (a', i) \<Longrightarrow> i < 0 \<Longrightarrow> a' = a"
    and set_slot: "0 \<le> i \<Longrightarrow> pa_get (set_item a i v) j = (if j = i then v else pa_get a j)"
    and set_negative: "i < 0 \<Longrightarrow> set_item a i v = a"
begin

lemma packed_add:
  assumes "packed a" "add a p = (a', i)"
  shows "packed a'"
proof (cases "0 \<le> i")
  case True
  then show ?thesis
    unfolding packed_def
    using assms add_slot add_other add_lowest by (metis packed_def option.distinct(1))
next
  case False
  then show ?thesis using assms add_failed by (metis not_le)
qed

lemma items_add:
  assumes "packed a" "add a p = (a', i)" "0 \<le> i"
  shows "pa_items a' = pa_items a @ [p]"
proof -
  define b where "b = map (\<lambda>j. pa_get a (int j)) [0..<nat i]"
  have free: "pa_get a j = None" if "i \<le> j" for j
    using that assms add_slot [OF assms(2,3)] unfolding packed_def by (metis order_le_less)
  have b: "pa_get b j = pa_get a j" for j
    using free [of j] assms(3) by (auto simp: b_def pa_get_def)
  have "pa_get (b @ [Some p]) j = pa_get a' j" for j
  proof (cases "j = i")
    case True
    with assms add_slot show ?thesis by (simp add: b_def pa_get_def nth_append)
  next
    case False
    have "pa_get (b @ [Some p]) j = pa_get b j"
      using False assms(3) by (auto simp: b_def pa_get_def nth_append)
    with False add_other [OF assms(2)] b show ?thesis by simp
  qed
  then have "pa_items a' = pa_items (b @ [Some p])" by (intro pa_items_cong) simp
  also have "\<dots> = pa_items a @ [p]"
    using pa_items_cong [OF b] by (simp add: pa_items_snoc)
  finally show ?thesis .
qed

end

subsection \<open>Objects\<close>

text \<open>
  Objects carry a reference count: \<open>PMIX_NEW\<close> gives its first value,
  \<open>PMIX_RETAIN\<close> and \<open>PMIX_RELEASE\<close> change it, and a release says whether the
  destructor has to run and the storage is given back.
\<close>

record obj_api =
  obj_new :: int
  obj_retain :: "int \<Rightarrow> int"
  obj_release :: "int \<Rightarrow> int \<times> bool"

locale ref_count =
  fixes new :: int and retain :: "int \<Rightarrow> int" and release :: "int \<Rightarrow> int \<times> bool"
  assumes new_one: "new = 1"
    and retain_up: "retain n = n + 1"
    and release_down: "release n = (n - 1, n = 1)"


subsection \<open>A reference implementation\<close>

text \<open>
  The laws hold of arrays that grow on demand: the interpretations below show
  that the hypotheses of the properties can be met, and the witnesses use them.
\<close>

fun first_free :: "parray \<Rightarrow> nat" where
  "first_free [] = 0"
| "first_free (None # a) = 0"
| "first_free (Some p # a) = Suc (first_free a)"

definition ref_set :: "parray \<Rightarrow> int \<Rightarrow> ptr option \<Rightarrow> parray" where
  "ref_set a i v =
     (if i < 0 then a
      else if i < int (length a) then a[nat i := v]
      else a @ replicate (nat i - length a) None @ [v])"

definition ref_add :: "parray \<Rightarrow> ptr \<Rightarrow> parray \<times> int" where
  "ref_add a p = (ref_set a (int (first_free a)) (Some p), int (first_free a))"

lemma first_free_get: "pa_get a (int (first_free a)) = None"
  by (induction a rule: first_free.induct) (auto simp: pa_get_def nat_add_distrib)

lemma first_free_lowest: "0 \<le> j \<Longrightarrow> j < int (first_free a) \<Longrightarrow> pa_get a j \<noteq> None"
proof (induction a arbitrary: j rule: first_free.induct)
  case (3 p a)
  show ?case
  proof (cases "j = 0")
    case False
    then have "pa_get (Some p # a) j = pa_get a (j - 1)"
      using \<open>0 \<le> j\<close> by (auto simp: pa_get_def nth_Cons' nat_diff_distrib)
    with 3 False show ?thesis by simp
  qed (simp add: pa_get_def)
qed simp_all

lemma ref_set_get: "0 \<le> i \<Longrightarrow> pa_get (ref_set a i v) j = (if j = i then v else pa_get a j)"
proof -
  assume i: "0 \<le> i"
  show ?thesis
  proof (cases "i < int (length a)")
    case True
    with i show ?thesis by (simp add: ref_set_def pa_get_def nth_list_update nat_eq_iff)
  next
    case False
    let ?k = "nat i - length a"
    have "(a @ replicate ?k None @ [v]) ! nat j = (if j = i then v else None)"
      if "int (length a) \<le> j" "j \<le> i"
    proof (cases "j = i")
      case False
      with that have "nat j - length a < ?k" "\<not> nat j < length a" by linarith+
      with False show ?thesis by (simp add: nth_append)
    next
      case True
      with that have "\<not> nat i < length a" by linarith
      with True show ?thesis by (simp add: nth_append)
    qed
    moreover have "(a @ replicate ?k None @ [v]) ! nat j = a ! nat j" if "0 \<le> j" "j < int (length a)"
      using that by (simp add: nth_append nat_less_iff)
    ultimately show ?thesis
      using i False by (cases "j = i") (auto simp: ref_set_def pa_get_def not_less)
  qed
qed

interpretation ref_array: pointer_array ref_add ref_set
  by unfold_locales
    (auto simp: ref_add_def ref_set_get first_free_get first_free_lowest, simp add: ref_set_def)

interpretation ref_obj: ref_count 1 "\<lambda>n. n + 1" "\<lambda>n. (n - 1, n = 1)"
  by unfold_locales simp_all

end
