(* ===== verification/Dsched_Constants.thy ===== *)
theory Dsched_Constants
  imports Dsched_Prelude
begin

text \<open>
  The error codes of \<open>include/dsched_constants.h\<close>: the two groups of the
  enumeration as tables from name to value, the codes the other components
  return as constants, and \<open>dsched_strerror\<close> of \<open>util/dsched_error.c\<close>.
\<close>

definition DSCHED_ERR_BASE :: int where
  "DSCHED_ERR_BASE = 0"

definition DSCHED_ERR_SPLIT :: int where
  "DSCHED_ERR_SPLIT = 100"

definition inherited_codes :: "(string \<times> int) list" where
  "inherited_codes =
    [(''DSCHED_SUCCESS'', DSCHED_ERR_BASE),
     (''DSCHED_ERROR'', DSCHED_ERR_BASE - 1),
     (''DSCHED_ERR_OUT_OF_RESOURCE'', DSCHED_ERR_BASE - 2),
     (''DSCHED_ERR_TEMP_OUT_OF_RESOURCE'', DSCHED_ERR_BASE - 3),
     (''DSCHED_ERR_RESOURCE_BUSY'', DSCHED_ERR_BASE - 4),
     (''DSCHED_ERR_BAD_PARAM'', DSCHED_ERR_BASE - 5),
     (''DSCHED_ERR_FATAL'', DSCHED_ERR_BASE - 6),
     (''DSCHED_ERR_NOT_IMPLEMENTED'', DSCHED_ERR_BASE - 7),
     (''DSCHED_ERR_NOT_SUPPORTED'', DSCHED_ERR_BASE - 8),
     (''DSCHED_ERR_INTERRUPTED'', DSCHED_ERR_BASE - 9),
     (''DSCHED_ERR_WOULD_BLOCK'', DSCHED_ERR_BASE - 10),
     (''DSCHED_ERR_IN_ERRNO'', DSCHED_ERR_BASE - 11),
     (''DSCHED_ERR_UNREACH'', DSCHED_ERR_BASE - 12),
     (''DSCHED_ERR_NOT_FOUND'', DSCHED_ERR_BASE - 13),
     (''DSCHED_EXISTS'', DSCHED_ERR_BASE - 14),
     (''DSCHED_ERR_TIMEOUT'', DSCHED_ERR_BASE - 15),
     (''DSCHED_ERR_NOT_AVAILABLE'', DSCHED_ERR_BASE - 16),
     (''DSCHED_ERR_PERM'', DSCHED_ERR_BASE - 17),
     (''DSCHED_ERR_VALUE_OUT_OF_BOUNDS'', DSCHED_ERR_BASE - 18),
     (''DSCHED_ERR_FILE_READ_FAILURE'', DSCHED_ERR_BASE - 19),
     (''DSCHED_ERR_FILE_WRITE_FAILURE'', DSCHED_ERR_BASE - 20),
     (''DSCHED_ERR_FILE_OPEN_FAILURE'', DSCHED_ERR_BASE - 21),
     (''DSCHED_ERR_PACK_MISMATCH'', DSCHED_ERR_BASE - 22),
     (''DSCHED_ERR_PACK_FAILURE'', DSCHED_ERR_BASE - 23),
     (''DSCHED_ERR_UNPACK_FAILURE'', DSCHED_ERR_BASE - 24),
     (''DSCHED_ERR_UNPACK_INADEQUATE_SPACE'', DSCHED_ERR_BASE - 25),
     (''DSCHED_ERR_UNPACK_READ_PAST_END_OF_BUFFER'', DSCHED_ERR_BASE - 26),
     (''DSCHED_ERR_TYPE_MISMATCH'', DSCHED_ERR_BASE - 27),
     (''DSCHED_ERR_OPERATION_UNSUPPORTED'', DSCHED_ERR_BASE - 28),
     (''DSCHED_ERR_UNKNOWN_DATA_TYPE'', DSCHED_ERR_BASE - 29),
     (''DSCHED_ERR_BUFFER'', DSCHED_ERR_BASE - 30),
     (''DSCHED_ERR_DATA_TYPE_REDEF'', DSCHED_ERR_BASE - 31),
     (''DSCHED_ERR_DATA_OVERWRITE_ATTEMPT'', DSCHED_ERR_BASE - 32),
     (''DSCHED_ERR_MODULE_NOT_FOUND'', DSCHED_ERR_BASE - 33),
     (''DSCHED_ERR_TOPO_SLOT_LIST_NOT_SUPPORTED'', DSCHED_ERR_BASE - 34),
     (''DSCHED_ERR_TOPO_SOCKET_NOT_SUPPORTED'', DSCHED_ERR_BASE - 35),
     (''DSCHED_ERR_TOPO_CORE_NOT_SUPPORTED'', DSCHED_ERR_BASE - 36),
     (''DSCHED_ERR_NOT_ENOUGH_SOCKETS'', DSCHED_ERR_BASE - 37),
     (''DSCHED_ERR_NOT_ENOUGH_CORES'', DSCHED_ERR_BASE - 38),
     (''DSCHED_ERR_INVALID_PHYS_CPU'', DSCHED_ERR_BASE - 39),
     (''DSCHED_ERR_MULTIPLE_AFFINITIES'', DSCHED_ERR_BASE - 40),
     (''DSCHED_ERR_SLOT_LIST_RANGE'', DSCHED_ERR_BASE - 41),
     (''DSCHED_ERR_NETWORK_NOT_PARSEABLE'', DSCHED_ERR_BASE - 42),
     (''DSCHED_ERR_SILENT'', DSCHED_ERR_BASE - 43),
     (''DSCHED_ERR_NOT_INITIALIZED'', DSCHED_ERR_BASE - 44),
     (''DSCHED_ERR_NOT_BOUND'', DSCHED_ERR_BASE - 45),
     (''DSCHED_ERR_TAKE_NEXT_OPTION'', DSCHED_ERR_BASE - 46),
     (''DSCHED_ERR_PROC_ENTRY_NOT_FOUND'', DSCHED_ERR_BASE - 47),
     (''DSCHED_ERR_DATA_VALUE_NOT_FOUND'', DSCHED_ERR_BASE - 48),
     (''DSCHED_ERR_CONNECTION_FAILED'', DSCHED_ERR_BASE - 49),
     (''DSCHED_ERR_AUTHENTICATION_FAILED'', DSCHED_ERR_BASE - 50),
     (''DSCHED_ERR_COMM_FAILURE'', DSCHED_ERR_BASE - 51),
     (''DSCHED_ERR_SERVER_NOT_AVAIL'', DSCHED_ERR_BASE - 52),
     (''DSCHED_ERR_IN_PROCESS'', DSCHED_ERR_BASE - 53),
     (''DSCHED_OPERATION_SUCCEEDED'', DSCHED_ERR_BASE - 72)]"

definition specific_codes :: "(string \<times> int) list" where
  "specific_codes =
    [(''DSCHED_ERR_RECV_LESS_THAN_POSTED'', DSCHED_ERR_SPLIT - 1),
     (''DSCHED_ERR_RECV_MORE_THAN_POSTED'', DSCHED_ERR_SPLIT - 2),
     (''DSCHED_ERR_NO_MATCH_YET'', DSCHED_ERR_SPLIT - 3),
     (''DSCHED_ERR_REQUEST'', DSCHED_ERR_SPLIT - 4),
     (''DSCHED_ERR_NO_CONNECTION_ALLOWED'', DSCHED_ERR_SPLIT - 5),
     (''DSCHED_ERR_CONNECTION_REFUSED'', DSCHED_ERR_SPLIT - 6),
     (''DSCHED_ERR_COMPARE_FAILURE'', DSCHED_ERR_SPLIT - 9),
     (''DSCHED_ERR_COPY_FAILURE'', DSCHED_ERR_SPLIT - 10),
     (''DSCHED_ERR_PROC_STATE_MISSING'', DSCHED_ERR_SPLIT - 11),
     (''DSCHED_ERR_PROC_EXIT_STATUS_MISSING'', DSCHED_ERR_SPLIT - 12),
     (''DSCHED_ERR_INDETERMINATE_STATE_INFO'', DSCHED_ERR_SPLIT - 13),
     (''DSCHED_ERR_NODE_FULLY_USED'', DSCHED_ERR_SPLIT - 14),
     (''DSCHED_ERR_INVALID_NUM_PROCS'', DSCHED_ERR_SPLIT - 15),
     (''DSCHED_ERR_ADDRESSEE_UNKNOWN'', DSCHED_ERR_SPLIT - 16),
     (''DSCHED_ERR_SYS_LIMITS_PIPES'', DSCHED_ERR_SPLIT - 17),
     (''DSCHED_ERR_PIPE_SETUP_FAILURE'', DSCHED_ERR_SPLIT - 18),
     (''DSCHED_ERR_SYS_LIMITS_CHILDREN'', DSCHED_ERR_SPLIT - 19),
     (''DSCHED_ERR_FAILED_GET_TERM_ATTRS'', DSCHED_ERR_SPLIT - 20),
     (''DSCHED_ERR_WDIR_NOT_FOUND'', DSCHED_ERR_SPLIT - 21),
     (''DSCHED_ERR_EXE_NOT_FOUND'', DSCHED_ERR_SPLIT - 22),
     (''DSCHED_ERR_PIPE_READ_FAILURE'', DSCHED_ERR_SPLIT - 23),
     (''DSCHED_ERR_EXE_NOT_ACCESSIBLE'', DSCHED_ERR_SPLIT - 24),
     (''DSCHED_ERR_FAILED_TO_START'', DSCHED_ERR_SPLIT - 25),
     (''DSCHED_ERR_FILE_NOT_EXECUTABLE'', DSCHED_ERR_SPLIT - 26),
     (''DSCHED_ERR_HNP_COULD_NOT_START'', DSCHED_ERR_SPLIT - 27),
     (''DSCHED_ERR_SYS_LIMITS_SOCKETS'', DSCHED_ERR_SPLIT - 28),
     (''DSCHED_ERR_SOCKET_NOT_AVAILABLE'', DSCHED_ERR_SPLIT - 29),
     (''DSCHED_ERR_SYSTEM_WILL_BOOTSTRAP'', DSCHED_ERR_SPLIT - 30),
     (''DSCHED_ERR_RESTART_LIMIT_EXCEEDED'', DSCHED_ERR_SPLIT - 31),
     (''DSCHED_ERR_INVALID_NODE_RANK'', DSCHED_ERR_SPLIT - 32),
     (''DSCHED_ERR_INVALID_LOCAL_RANK'', DSCHED_ERR_SPLIT - 33),
     (''DSCHED_ERR_UNRECOVERABLE'', DSCHED_ERR_SPLIT - 34),
     (''DSCHED_ERR_MEM_LIMIT_EXCEEDED'', DSCHED_ERR_SPLIT - 35),
     (''DSCHED_ERR_HEARTBEAT_LOST'', DSCHED_ERR_SPLIT - 36),
     (''DSCHED_ERR_PROC_STALLED'', DSCHED_ERR_SPLIT - 37),
     (''DSCHED_ERR_NO_APP_SPECIFIED'', DSCHED_ERR_SPLIT - 38),
     (''DSCHED_ERR_NO_EXE_SPECIFIED'', DSCHED_ERR_SPLIT - 39),
     (''DSCHED_ERR_COMM_DISABLED'', DSCHED_ERR_SPLIT - 40),
     (''DSCHED_ERR_FAILED_TO_MAP'', DSCHED_ERR_SPLIT - 41),
     (''DSCHED_ERR_SENSOR_LIMIT_EXCEEDED'', DSCHED_ERR_SPLIT - 42),
     (''DSCHED_ERR_ALLOCATION_PENDING'', DSCHED_ERR_SPLIT - 43),
     (''DSCHED_ERR_NO_PATH_TO_TARGET'', DSCHED_ERR_SPLIT - 44),
     (''DSCHED_ERR_OP_IN_PROGRESS'', DSCHED_ERR_SPLIT - 45),
     (''DSCHED_ERR_OPEN_CONDUIT_FAIL'', DSCHED_ERR_SPLIT - 46),
     (''DSCHED_ERR_DUPLICATE_MSG'', DSCHED_ERR_SPLIT - 47),
     (''DSCHED_ERR_OUT_OF_ORDER_MSG'', DSCHED_ERR_SPLIT - 48),
     (''DSCHED_ERR_FORCE_SELECT'', DSCHED_ERR_SPLIT - 49),
     (''DSCHED_ERR_JOB_CANCELLED'', DSCHED_ERR_SPLIT - 50),
     (''DSCHED_ERR_CONDUIT_SEND_FAIL'', DSCHED_ERR_SPLIT - 51),
     (''DSCHED_ERR_NOMEM'', DSCHED_ERR_SPLIT - 52)]"

definition DSCHED_SUCCESS :: int where
  "DSCHED_SUCCESS = DSCHED_ERR_BASE"

definition DSCHED_ERROR :: int where
  "DSCHED_ERROR = DSCHED_ERR_BASE - 1"

definition DSCHED_ERR_OUT_OF_RESOURCE :: int where
  "DSCHED_ERR_OUT_OF_RESOURCE = DSCHED_ERR_BASE - 2"

definition DSCHED_ERR_RESOURCE_BUSY :: int where
  "DSCHED_ERR_RESOURCE_BUSY = DSCHED_ERR_BASE - 4"

definition DSCHED_ERR_FATAL :: int where
  "DSCHED_ERR_FATAL = DSCHED_ERR_BASE - 6"

definition DSCHED_ERR_NOT_SUPPORTED :: int where
  "DSCHED_ERR_NOT_SUPPORTED = DSCHED_ERR_BASE - 8"

definition DSCHED_ERR_IN_ERRNO :: int where
  "DSCHED_ERR_IN_ERRNO = DSCHED_ERR_BASE - 11"

definition DSCHED_ERR_NOT_FOUND :: int where
  "DSCHED_ERR_NOT_FOUND = DSCHED_ERR_BASE - 13"

definition DSCHED_ERR_TYPE_MISMATCH :: int where
  "DSCHED_ERR_TYPE_MISMATCH = DSCHED_ERR_BASE - 27"

definition DSCHED_ERR_SILENT :: int where
  "DSCHED_ERR_SILENT = DSCHED_ERR_BASE - 43"

definition DSCHED_ERR_NOMEM :: int where
  "DSCHED_ERR_NOMEM = DSCHED_ERR_SPLIT - 52"

lemmas dsched_code_defs =
  DSCHED_ERR_BASE_def DSCHED_ERR_SPLIT_def
  DSCHED_SUCCESS_def
  DSCHED_ERROR_def
  DSCHED_ERR_OUT_OF_RESOURCE_def
  DSCHED_ERR_RESOURCE_BUSY_def
  DSCHED_ERR_FATAL_def
  DSCHED_ERR_NOT_SUPPORTED_def
  DSCHED_ERR_IN_ERRNO_def
  DSCHED_ERR_NOT_FOUND_def
  DSCHED_ERR_TYPE_MISMATCH_def
  DSCHED_ERR_SILENT_def
  DSCHED_ERR_NOMEM_def

definition dsched_strerror :: "int \<Rightarrow> string" where
  "dsched_strerror errnum = (if DSCHED_SUCCESS = errnum then ''SUCCESS'' else ''ERROR'')"

lemma dsched_codes_distinct [simp]:
  "DSCHED_ERROR \<noteq> DSCHED_SUCCESS" "DSCHED_ERR_NOT_FOUND \<noteq> DSCHED_SUCCESS"
  "DSCHED_ERR_RESOURCE_BUSY \<noteq> DSCHED_SUCCESS" "DSCHED_ERR_NOT_SUPPORTED \<noteq> DSCHED_SUCCESS"
  "DSCHED_ERR_TYPE_MISMATCH \<noteq> DSCHED_SUCCESS" "DSCHED_ERR_OUT_OF_RESOURCE \<noteq> DSCHED_SUCCESS"
  "DSCHED_ERR_SILENT \<noteq> DSCHED_SUCCESS" "DSCHED_ERR_NOMEM \<noteq> DSCHED_SUCCESS"
  "DSCHED_ERR_IN_ERRNO \<noteq> DSCHED_SUCCESS" "DSCHED_ERR_FATAL \<noteq> DSCHED_SUCCESS"
  by (simp_all add: dsched_code_defs)

lemma decreasing_distinct:
  assumes "successively (\<lambda>a b. b < a) (xs :: int list)"
  shows "distinct xs"
proof -
  have "sorted_wrt (\<lambda>a b. b < a) xs"
    using assms by (simp add: successively_conv_sorted_wrt transp_def)
  then show ?thesis by (induction xs) auto
qed

lemma inherited_decreasing: "successively (\<lambda>a b. b < a) (map snd inherited_codes)"
  unfolding inherited_codes_def DSCHED_ERR_BASE_def by simp

lemma specific_decreasing: "successively (\<lambda>a b. b < a) (map snd specific_codes)"
  unfolding specific_codes_def DSCHED_ERR_SPLIT_def by simp

lemma inherited_nonpos: "list_all (\<lambda>c. snd c \<le> 0 \<and> (snd c = 0 \<longrightarrow> fst c = ''DSCHED_SUCCESS'')) inherited_codes"
  unfolding inherited_codes_def DSCHED_ERR_BASE_def by simp

lemma specific_pos: "list_all (\<lambda>c. 0 < snd c) specific_codes"
  unfolding specific_codes_def DSCHED_ERR_SPLIT_def by simp



end
