(* ===== verification/Attributes.thy ===== *)
theory Attributes
  imports Pmix_Types Dsched_Constants
begin

text \<open>
  The attribute lists of \<open>util/dsched_attr.c\<close>: typed values under 16 bit keys,
  loaded from and unloaded to untyped memory, with lookup, update, removal and
  iteration over a list.
\<close>

subsection \<open>Types\<close>

datatype pmix_data_type =
    PMIX_UNDEF | PMIX_BOOL | PMIX_BYTE | PMIX_STRING | PMIX_SIZE | PMIX_PID
  | PMIX_INT | PMIX_INT8 | PMIX_INT16 | PMIX_INT32 | PMIX_INT64
  | PMIX_UINT | PMIX_UINT8 | PMIX_UINT16 | PMIX_UINT32 | PMIX_UINT64
  | PMIX_BYTE_OBJECT | PMIX_FLOAT | PMIX_TIMEVAL | PMIX_POINTER
  | PMIX_PROC_RANK | PMIX_PROC_NSPACE | PMIX_PROC | PMIX_ENVAR | PMIX_DATA_ARRAY
  | PMIX_OTHER_TYPE nat

text \<open>
  What the caller's \<open>void *\<close> points to; for \<open>PMIX_POINTER\<close> it is the pointer
  itself. Numbers are their bits, a byte object is its bytes (\<open>None\<close> for a
  null pointer) whose number is its size, a data array is opaque.
\<close>

datatype aval =
    D_Bool bool | D_Byte u8 | D_Str string | D_Size u64 | D_Pid u32
  | D_Int u32 | D_Int8 u8 | D_Int16 u16 | D_Int32 u32 | D_Int64 u64
  | D_Uint u32 | D_Uint8 u8 | D_Uint16 u16 | D_Uint32 u32 | D_Uint64 u64
  | D_ByteObj "u8 list option" | D_Float u32 | D_Timeval u64 u64 | D_Pointer ptr
  | D_Rank u32 | D_Nspace string | D_Proc pmix_proc
  | D_Envar "string option" "string option" char | D_DArray nat

fun tag_of :: "aval \<Rightarrow> pmix_data_type" where
  "tag_of (D_Bool _) = PMIX_BOOL"
| "tag_of (D_Byte _) = PMIX_BYTE"
| "tag_of (D_Str _) = PMIX_STRING"
| "tag_of (D_Size _) = PMIX_SIZE"
| "tag_of (D_Pid _) = PMIX_PID"
| "tag_of (D_Int _) = PMIX_INT"
| "tag_of (D_Int8 _) = PMIX_INT8"
| "tag_of (D_Int16 _) = PMIX_INT16"
| "tag_of (D_Int32 _) = PMIX_INT32"
| "tag_of (D_Int64 _) = PMIX_INT64"
| "tag_of (D_Uint _) = PMIX_UINT"
| "tag_of (D_Uint8 _) = PMIX_UINT8"
| "tag_of (D_Uint16 _) = PMIX_UINT16"
| "tag_of (D_Uint32 _) = PMIX_UINT32"
| "tag_of (D_Uint64 _) = PMIX_UINT64"
| "tag_of (D_ByteObj _) = PMIX_BYTE_OBJECT"
| "tag_of (D_Float _) = PMIX_FLOAT"
| "tag_of (D_Timeval _ _) = PMIX_TIMEVAL"
| "tag_of (D_Pointer _) = PMIX_POINTER"
| "tag_of (D_Rank _) = PMIX_PROC_RANK"
| "tag_of (D_Nspace _) = PMIX_PROC_NSPACE"
| "tag_of (D_Proc _) = PMIX_PROC"
| "tag_of (D_Envar _ _ _) = PMIX_ENVAR"
| "tag_of (D_DArray _) = PMIX_DATA_ARRAY"

text \<open>
  A string pointer inside the union: null, live, or freed and not reset.
  \<open>U_zero\<close> is the union after \<open>memset\<close>. Process names, under both of their
  types, live behind the member \<open>proc\<close>.
\<close>

datatype cstr = CNull | CStr string | CFreed

datatype udata = U_zero | U_val aval | U_envar cstr cstr char

record attribute =
  a_key :: u16
  a_type :: pmix_data_type
  a_data :: udata

text \<open>
  The library's functions: \<open>PMIx_Data_copy\<close> of a data array (from a pointer
  that may be null, over what the destination held), the number of a status
  code, a freshly created process name, and the copy of a namespace into its
  fixed size field.
\<close>

record attr_api =
  data_copy :: "nat option \<Rightarrow> udata \<Rightarrow> pmix_status \<times> udata"
  status_code :: "pmix_status \<Rightarrow> int"
  proc_new :: pmix_proc
  nspace_copy :: "string \<Rightarrow> string"

definition dsched_attr_cons :: attribute where
  "dsched_attr_cons = \<lparr>a_key = 0, a_type = PMIX_UNDEF, a_data = U_zero\<rparr>"

subsection \<open>Loading\<close>

text \<open>The types whose case copies \<open>sizeof\<close> bytes into the member.\<close>

definition plain_types :: "pmix_data_type list" where
  "plain_types =
     [PMIX_BOOL, PMIX_BYTE, PMIX_SIZE, PMIX_PID,
      PMIX_INT, PMIX_INT8, PMIX_INT16, PMIX_INT32, PMIX_INT64,
      PMIX_UINT, PMIX_UINT8, PMIX_UINT16, PMIX_UINT32, PMIX_UINT64,
      PMIX_FLOAT, PMIX_TIMEVAL, PMIX_POINTER, PMIX_PROC_RANK]"

text \<open>
  Whether the member that a case for a pointer type inspects is the member
  that was written last (the zeroed union is every member's null).
\<close>

definition member_ok :: "pmix_data_type \<Rightarrow> udata \<Rightarrow> bool" where
  "member_ok type u =
     (case u of
        U_zero \<Rightarrow> True
      | U_envar _ _ _ \<Rightarrow> type = PMIX_ENVAR
      | U_val v \<Rightarrow>
          (case v of
             D_Proc _ \<Rightarrow> type = PMIX_PROC_NSPACE \<or> type = PMIX_PROC
           | D_Nspace _ \<Rightarrow> False
           | D_Envar _ _ _ \<Rightarrow> False
           | _ \<Rightarrow> tag_of v = type))"

definition pointer_types :: "pmix_data_type list" where
  "pointer_types =
     [PMIX_STRING, PMIX_BYTE_OBJECT, PMIX_PROC_NSPACE, PMIX_PROC, PMIX_ENVAR]"

definition union_proc :: "attr_api \<Rightarrow> udata \<Rightarrow> pmix_proc" where
  "union_proc A u = (case u of U_val (D_Proc p) \<Rightarrow> p | _ \<Rightarrow> proc_new A)"

text \<open>
  Storing a string of an envar over what the field held, which has been freed:
  a null replacement leaves the freed pointer in place.
\<close>

fun envar_field :: "cstr \<Rightarrow> string option \<Rightarrow> cstr res" where
  "envar_field CFreed _ = Inl UseAfterFree"
| "envar_field _ (Some s) = Inr (CStr s)"
| "envar_field CNull None = Inr CNull"
| "envar_field (CStr _) None = Inr CFreed"

fun union_envar :: "udata \<Rightarrow> cstr \<times> cstr" where
  "union_envar (U_envar e v _) = (e, v)"
| "union_envar _ = (CNull, CNull)"

text \<open>The branch for a null \<open>data\<close>.\<close>

definition attr_load_null :: "attribute \<Rightarrow> pmix_data_type \<Rightarrow> (int \<times> attribute) res" where
  "attr_load_null kv type =
     (if type = PMIX_BOOL then Inr (DSCHED_SUCCESS, kv\<lparr>a_data := U_val (D_Bool True)\<rparr>)
      else if type \<in> set pointer_types \<and> \<not> member_ok type (a_data kv) then Inl UnionMismatch
      else if type = PMIX_ENVAR
              \<and> (fst (union_envar (a_data kv)) = CFreed \<or> snd (union_envar (a_data kv)) = CFreed)
      then Inl UseAfterFree
      else Inr (DSCHED_SUCCESS, kv\<lparr>a_data := U_zero\<rparr>))"

definition attr_load_value ::
  "attr_api \<Rightarrow> attribute \<Rightarrow> aval \<Rightarrow> pmix_data_type \<Rightarrow> (int \<times> attribute) res" where
  "attr_load_value A kv d type =
     (if type \<in> set plain_types then
        (if tag_of d = type then Inr (DSCHED_SUCCESS, kv\<lparr>a_data := U_val d\<rparr>) else Inl UnionMismatch)
      else if type \<in> set pointer_types then
        (if \<not> member_ok type (a_data kv) \<or> tag_of d \<noteq> type then Inl UnionMismatch
         else (case d of
             D_Str s \<Rightarrow> Inr (DSCHED_SUCCESS, kv\<lparr>a_data := U_val (D_Str s)\<rparr>)
           | D_ByteObj b \<Rightarrow>
               (case b of
                  Some bs \<Rightarrow> (if 0 < length bs
                     then Inr (DSCHED_SUCCESS, kv\<lparr>a_data := U_val (D_ByteObj (Some bs))\<rparr>)
                     else Inr (DSCHED_SUCCESS, kv\<lparr>a_data := U_val (D_ByteObj None)\<rparr>))
                | None \<Rightarrow> Inr (DSCHED_SUCCESS, kv\<lparr>a_data := U_val (D_ByteObj None)\<rparr>))
           | D_Nspace s \<Rightarrow>
               Inr (DSCHED_SUCCESS, kv\<lparr>a_data :=
                 U_val (D_Proc ((union_proc A (a_data kv))\<lparr>p_nspace := nspace_copy A s\<rparr>))\<rparr>)
           | D_Proc p \<Rightarrow> Inr (DSCHED_SUCCESS, kv\<lparr>a_data := U_val (D_Proc p)\<rparr>)
           | D_Envar e v sep \<Rightarrow>
               res_bind (envar_field (fst (union_envar (a_data kv))) e) (\<lambda>e'.
               res_bind (envar_field (snd (union_envar (a_data kv))) v) (\<lambda>v'.
               Inr (DSCHED_SUCCESS, kv\<lparr>a_data := U_envar e' v' sep\<rparr>)))
           | _ \<Rightarrow> Inl UnionMismatch))
      else if type = PMIX_DATA_ARRAY then
        (case d of
           D_DArray n \<Rightarrow>
             (let (rc, u) = data_copy A (Some n) (a_data kv)
              in Inr (status_code A rc, kv\<lparr>a_data := u\<rparr>))
         | _ \<Rightarrow> Inl UnionMismatch)
      else Inr (DSCHED_ERR_NOT_SUPPORTED, kv))"

definition dsched_attr_load ::
  "attr_api \<Rightarrow> attribute \<Rightarrow> aval option \<Rightarrow> pmix_data_type \<Rightarrow> (int \<times> attribute) res" where
  "dsched_attr_load A kv data type =
     (let kv = kv\<lparr>a_type := type\<rparr>
      in case data of None \<Rightarrow> attr_load_null kv type | Some d \<Rightarrow> attr_load_value A kv d type)"

subsection \<open>Unloading\<close>

text \<open>
  The value the zeroed union has when it is read through the member of a plain
  type.
\<close>

definition zero_val :: "pmix_data_type \<Rightarrow> aval" where
  "zero_val type =
     (case type of
        PMIX_BOOL \<Rightarrow> D_Bool False | PMIX_BYTE \<Rightarrow> D_Byte 0 | PMIX_SIZE \<Rightarrow> D_Size 0
      | PMIX_PID \<Rightarrow> D_Pid 0 | PMIX_INT \<Rightarrow> D_Int 0 | PMIX_INT8 \<Rightarrow> D_Int8 0
      | PMIX_INT16 \<Rightarrow> D_Int16 0 | PMIX_INT32 \<Rightarrow> D_Int32 0 | PMIX_INT64 \<Rightarrow> D_Int64 0
      | PMIX_UINT \<Rightarrow> D_Uint 0 | PMIX_UINT8 \<Rightarrow> D_Uint8 0 | PMIX_UINT16 \<Rightarrow> D_Uint16 0
      | PMIX_UINT32 \<Rightarrow> D_Uint32 0 | PMIX_UINT64 \<Rightarrow> D_Uint64 0 | PMIX_FLOAT \<Rightarrow> D_Float 0
      | PMIX_TIMEVAL \<Rightarrow> D_Timeval 0 0 | PMIX_POINTER \<Rightarrow> D_Pointer 0 | _ \<Rightarrow> D_Rank 0)"

definition plain_value :: "pmix_data_type \<Rightarrow> udata \<Rightarrow> aval res" where
  "plain_value type u =
     (case u of
        U_zero \<Rightarrow> Inr (zero_val type)
      | U_val v \<Rightarrow> (if tag_of v = type then Inr v else Inl UnionMismatch)
      | U_envar _ _ _ \<Rightarrow> Inl UnionMismatch)"

fun cstr_dup :: "cstr \<Rightarrow> string option res" where
  "cstr_dup CNull = Inr None"
| "cstr_dup (CStr s) = Inr (Some s)"
| "cstr_dup CFreed = Inl UseAfterFree"

text \<open>The cases of the switch for the types that create their own storage.\<close>

definition unload_pointer ::
  "attr_api \<Rightarrow> attribute \<Rightarrow> pmix_data_type \<Rightarrow> (pmix_status \<times> aval option) res" where
  "unload_pointer A kv type =
     (if type = PMIX_STRING then
        (case a_data kv of
           U_zero \<Rightarrow> Inr (PMIX_SUCCESS, None)
         | U_val (D_Str s) \<Rightarrow> Inr (PMIX_SUCCESS, Some (D_Str s))
         | _ \<Rightarrow> Inl UnionMismatch)
      else if type = PMIX_BYTE_OBJECT then
        (case a_data kv of
           U_zero \<Rightarrow> Inr (PMIX_SUCCESS, Some (D_ByteObj None))
         | U_val (D_ByteObj b) \<Rightarrow>
             Inr (PMIX_SUCCESS, Some (D_ByteObj (if b = Some [] then None else b)))
         | _ \<Rightarrow> Inl UnionMismatch)
      else if type = PMIX_POINTER then
        (case a_data kv of
           U_zero \<Rightarrow> Inr (PMIX_SUCCESS, None)
         | U_val (D_Pointer p) \<Rightarrow> Inr (PMIX_SUCCESS, Some (D_Pointer p))
         | _ \<Rightarrow> Inl UnionMismatch)
      else if type = PMIX_PROC_NSPACE then
        (case a_data kv of
           U_zero \<Rightarrow> Inl NullDeref
         | U_val (D_Proc p) \<Rightarrow> Inr (PMIX_SUCCESS, Some (D_Nspace (p_nspace p)))
         | _ \<Rightarrow> Inl UnionMismatch)
      else if type = PMIX_PROC then
        (case a_data kv of
           U_zero \<Rightarrow> Inl NullDeref
         | U_val (D_Proc p) \<Rightarrow> Inr (PMIX_SUCCESS, Some (D_Proc p))
         | _ \<Rightarrow> Inl UnionMismatch)
      else if type = PMIX_ENVAR then
        (case a_data kv of
           U_zero \<Rightarrow> Inr (PMIX_SUCCESS, Some (D_Envar None None (CHR 0x00)))
         | U_envar e v sep \<Rightarrow>
             res_bind (cstr_dup e) (\<lambda>e'. res_bind (cstr_dup v) (\<lambda>v'.
             Inr (PMIX_SUCCESS, Some (D_Envar e' v' sep))))
         | _ \<Rightarrow> Inl UnionMismatch)
      else
        (case (case a_data kv of U_val (D_DArray n) \<Rightarrow> data_copy A (Some n) U_zero
               | _ \<Rightarrow> data_copy A None U_zero) of
           (rc, u) \<Rightarrow>
             (if rc \<noteq> PMIX_SUCCESS then Inr (rc, None)
              else (case u of U_val v \<Rightarrow> Inr (PMIX_SUCCESS, Some v) | _ \<Rightarrow> Inr (PMIX_SUCCESS, None)))))"

definition unload_pointers :: "pmix_data_type list" where
  "unload_pointers =
     [PMIX_STRING, PMIX_BYTE_OBJECT, PMIX_POINTER, PMIX_PROC_NSPACE, PMIX_PROC,
      PMIX_ENVAR, PMIX_DATA_ARRAY]"

text \<open>
  \<open>data\<close> is a pointer to the caller's pointer: \<open>None\<close> when it is null,
  \<open>Some None\<close> when the caller's pointer is null, \<open>Some (Some v)\<close> when that
  points to storage that holds \<open>v\<close>. The result has the caller's pointer as the
  call leaves it.
\<close>

definition dsched_attr_unload ::
  "attr_api \<Rightarrow> attribute \<Rightarrow> aval option option \<Rightarrow> pmix_data_type
     \<Rightarrow> (pmix_status \<times> aval option option) res" where
  "dsched_attr_unload A kv data type =
     (if type \<noteq> a_type kv then Inr (PMIX_ERR_TYPE_MISMATCH, data)
      else (case data of
        None \<Rightarrow> Inr (PMIX_ERR_BAD_PARAM, data)
      | Some dst \<Rightarrow>
          (if type \<notin> set unload_pointers \<and> dst = None then Inr (PMIX_ERR_BAD_PARAM, data)
           else if type \<in> set unload_pointers then
             res_bind (unload_pointer A kv type) (\<lambda>(rc, v). Inr (rc, Some v))
           else if type \<in> set plain_types then
             res_bind (plain_value type (a_data kv)) (\<lambda>v. Inr (PMIX_SUCCESS, Some (Some v)))
           else Inr (PMIX_ERR_NOT_SUPPORTED, data))))"

subsection \<open>Attribute lists\<close>

text \<open>The result has the answer and the caller's pointer as the call leaves it.\<close>

fun dsched_get_attribute ::
  "attr_api \<Rightarrow> attribute list \<Rightarrow> u16 \<Rightarrow> aval option option \<Rightarrow> pmix_data_type
     \<Rightarrow> (bool \<times> aval option option) res" where
  "dsched_get_attribute A [] key data type = Inr (False, data)"
| "dsched_get_attribute A (kv # kvs) key data type =
     (if key = a_key kv then
        (if a_type kv \<noteq> type then Inr (False, data)
         else (case data of
             None \<Rightarrow> Inr (True, data)
           | Some _ \<Rightarrow>
               res_bind (dsched_attr_unload A kv data type) (\<lambda>(rc, data'). Inr (True, data'))))
      else dsched_get_attribute A kvs key data type)"

definition bool_arg :: "aval option \<Rightarrow> bool res" where
  "bool_arg data =
     (case data of None \<Rightarrow> Inr True | Some (D_Bool b) \<Rightarrow> Inr b | Some _ \<Rightarrow> Inl UnionMismatch)"

definition set_found ::
  "attr_api \<Rightarrow> attribute \<Rightarrow> aval option \<Rightarrow> pmix_data_type \<Rightarrow> (int \<times> attribute option) res" where
  "set_found A kv data type =
     (if a_type kv \<noteq> type then Inr (DSCHED_ERR_TYPE_MISMATCH, Some kv)
      else if type = PMIX_BOOL then
        res_bind (bool_arg data) (\<lambda>b.
          if \<not> b then Inr (DSCHED_SUCCESS, None)
          else res_bind (dsched_attr_load A kv data type) (\<lambda>(rc, kv'). Inr (rc, Some kv')))
      else res_bind (dsched_attr_load A kv data type) (\<lambda>(rc, kv'). Inr (rc, Some kv')))"

fun dsched_set_attribute ::
  "attr_api \<Rightarrow> attribute list \<Rightarrow> u16 \<Rightarrow> aval option \<Rightarrow> pmix_data_type
     \<Rightarrow> (int \<times> attribute list) res" where
  "dsched_set_attribute A [] key data type =
     res_bind (dsched_attr_load A (dsched_attr_cons\<lparr>a_key := key\<rparr>) data type) (\<lambda>(rc, kv).
       if rc \<noteq> DSCHED_SUCCESS then Inr (rc, []) else Inr (DSCHED_SUCCESS, [kv]))"
| "dsched_set_attribute A (kv # kvs) key data type =
     (if key = a_key kv then
        res_bind (set_found A kv data type) (\<lambda>(rc, r).
          Inr (rc, (case r of None \<Rightarrow> kvs | Some kv' \<Rightarrow> kv' # kvs)))
      else res_bind (dsched_set_attribute A kvs key data type) (\<lambda>(rc, kvs').
          Inr (rc, kv # kvs')))"

definition dsched_prepend_attribute ::
  "attr_api \<Rightarrow> attribute list \<Rightarrow> u16 \<Rightarrow> aval option \<Rightarrow> pmix_data_type
     \<Rightarrow> (int \<times> attribute list) res" where
  "dsched_prepend_attribute A kvs key data type =
     res_bind (dsched_attr_load A (dsched_attr_cons\<lparr>a_key := key\<rparr>) data type) (\<lambda>(rc, kv).
       if rc \<noteq> DSCHED_SUCCESS then Inr (rc, kvs) else Inr (DSCHED_SUCCESS, kv # kvs))"

fun dsched_remove_attribute :: "attribute list \<Rightarrow> u16 \<Rightarrow> attribute list" where
  "dsched_remove_attribute [] key = []"
| "dsched_remove_attribute (kv # kvs) key =
     (if key = a_key kv then kvs else kv # dsched_remove_attribute kvs key)"

text \<open>
  An item is its position; the position after the last item is the list's end
  marker. \<open>null_end\<close> says whether \<open>pmix_list_get_next\<close> gives null after the
  last item; otherwise it gives the end marker, whose key the loop would read.
\<close>

fun fetch_first :: "nat \<Rightarrow> attribute list \<Rightarrow> u16 \<Rightarrow> nat option" where
  "fetch_first i [] key = None"
| "fetch_first i (kv # kvs) key = (if key = a_key kv then Some i else fetch_first (Suc i) kvs key)"

fun fetch_next :: "bool \<Rightarrow> nat \<Rightarrow> attribute list \<Rightarrow> u16 \<Rightarrow> nat option res" where
  "fetch_next null_end i [] key = (if null_end then Inr None else Inl SentinelDeref)"
| "fetch_next null_end i (kv # kvs) key =
     (if a_key kv = key then Inr (Some i) else fetch_next null_end (Suc i) kvs key)"

definition dsched_fetch_attribute ::
  "bool \<Rightarrow> attribute list \<Rightarrow> nat option \<Rightarrow> u16 \<Rightarrow> nat option res" where
  "dsched_fetch_attribute null_end kvs prev key =
     (case prev of
        None \<Rightarrow> Inr (fetch_first 0 kvs key)
      | Some i \<Rightarrow>
          (if i = length kvs \<or> Suc i = length kvs then Inr None
           else fetch_next null_end (Suc i) (drop (Suc i) kvs) key))"

definition dsched_attr_key_to_str :: "u16 \<Rightarrow> string" where
  "dsched_attr_key_to_str key = ''UNKNOWN''"

text \<open>\<open>join\<close> is \<open>PMIx_Argv_join\<close>.\<close>

definition dsched_attr_print_list ::
  "(string list \<Rightarrow> char \<Rightarrow> string) \<Rightarrow> attribute list \<Rightarrow> string option" where
  "dsched_attr_print_list join kvs =
     (case map (\<lambda>kv. dsched_attr_key_to_str (a_key kv)) kvs of
        [] \<Rightarrow> None
      | cache \<Rightarrow> Some (join cache (CHR 0x0A)))"


subsection \<open>Well-formed attributes\<close>

text \<open>
  An attribute the functions above can work on: its union was written through
  the member of its type, no string pointer in it is dangling, and a process
  name has its storage. Data arrays are left out, their contents belong to the
  library.
\<close>

definition attr_ok :: "attribute \<Rightarrow> bool" where
  "attr_ok kv \<longleftrightarrow>
     member_ok (a_type kv) (a_data kv)
   \<and> fst (union_envar (a_data kv)) \<noteq> CFreed \<and> snd (union_envar (a_data kv)) \<noteq> CFreed
   \<and> (a_type kv \<in> {PMIX_PROC, PMIX_PROC_NSPACE} \<longrightarrow> a_data kv \<noteq> U_zero)
   \<and> a_type kv \<noteq> PMIX_DATA_ARRAY"

definition attr_list_ok :: "attribute list \<Rightarrow> bool" where
  "attr_list_ok kvs \<longleftrightarrow> distinct (map a_key kvs) \<and> list_all attr_ok kvs"

text \<open>
  Values that come back as they were stored: namespaces that fit their field,
  byte objects that are not empty, environment variables with both strings,
  and anything else but a data array.
\<close>

definition storable :: "attr_api \<Rightarrow> aval \<Rightarrow> bool" where
  "storable A d =
     (case d of
        D_Nspace s \<Rightarrow> nspace_copy A s = s
      | D_ByteObj b \<Rightarrow> b \<noteq> Some []
      | D_Envar e v _ \<Rightarrow> e \<noteq> None \<and> v \<noteq> None
      | D_DArray _ \<Rightarrow> False
      | _ \<Rightarrow> True)"

definition lookup_attr :: "attribute list \<Rightarrow> u16 \<Rightarrow> attribute option" where
  "lookup_attr kvs key = List.find (\<lambda>kv. a_key kv = key) kvs"

lemma lookup_attr_simps [simp]:
  "lookup_attr [] key = None"
  "lookup_attr (kv # kvs) key = (if a_key kv = key then Some kv else lookup_attr kvs key)"
  by (simp_all add: lookup_attr_def)

lemma lookup_attr_None: "lookup_attr kvs key = None \<longleftrightarrow> key \<notin> a_key ` set kvs"
  by (induction kvs) auto

lemma lookup_attr_Some: "lookup_attr kvs key = Some kv \<Longrightarrow> kv \<in> set kvs \<and> a_key kv = key"
  by (induction kvs) (auto split: if_splits)

text \<open>What a successful load leaves in the union.\<close>

fun stored :: "attr_api \<Rightarrow> aval \<Rightarrow> udata \<Rightarrow> udata" where
  "stored A (D_Nspace s) u = U_val (D_Proc ((union_proc A u)\<lparr>p_nspace := nspace_copy A s\<rparr>))"
| "stored A (D_Envar e v sep) u =
     U_envar (case e of Some s \<Rightarrow> CStr s | None \<Rightarrow> CNull) (case v of Some s \<Rightarrow> CStr s | None \<Rightarrow> CNull) sep"
| "stored A d u = U_val d"

lemma envar_field_Some: "c \<noteq> CFreed \<Longrightarrow> envar_field c (Some s) = Inr (CStr s)"
  by (cases c) simp_all

lemma attr_load_stored:
  assumes "storable A d" "member_ok (tag_of d) (a_data kv)"
    and "fst (union_envar (a_data kv)) \<noteq> CFreed" "snd (union_envar (a_data kv)) \<noteq> CFreed"
  shows "dsched_attr_load A kv (Some d) (tag_of d) =
     Inr (DSCHED_SUCCESS, kv\<lparr>a_type := tag_of d, a_data := stored A d (a_data kv)\<rparr>)"
  using assms
  by (cases d) (auto simp: dsched_attr_load_def attr_load_value_def plain_types_def pointer_types_def
      storable_def Let_def envar_field_Some split: option.splits)

lemma attr_unload_stored:
  assumes "storable A d" "a_type kv = tag_of d" "a_data kv = stored A d u"
  shows "dsched_attr_unload A kv (Some (Some x)) (tag_of d) = Inr (PMIX_SUCCESS, Some (Some d))"
  using assms
  by (cases d) (auto simp: dsched_attr_unload_def unload_pointers_def plain_types_def
      unload_pointer_def plain_value_def storable_def)

lemma stored_ok:
  "storable A d \<Longrightarrow> attr_ok (kv\<lparr>a_type := tag_of d, a_data := stored A d u\<rparr>)"
  by (cases d) (auto simp: attr_ok_def member_ok_def storable_def)


lemma member_ok_zero [simp]: "member_ok t U_zero"
  by (simp add: member_ok_def)

lemma fresh_attr_ok [simp]:
  "member_ok t (a_data dsched_attr_cons)"
  "union_envar (a_data dsched_attr_cons) = (CNull, CNull)"
  by (simp_all add: dsched_attr_cons_def member_ok_def)

subsection \<open>Reading after writing\<close>

lemma get_attribute_lookup:
  "dsched_get_attribute A kvs key data type =
     (case lookup_attr kvs key of
        None \<Rightarrow> Inr (False, data)
      | Some kv \<Rightarrow>
          (if a_type kv \<noteq> type then Inr (False, data)
           else (case data of
               None \<Rightarrow> Inr (True, data)
             | Some _ \<Rightarrow>
                 res_bind (dsched_attr_unload A kv data type) (\<lambda>(rc, data'). Inr (True, data')))))"
  by (induction kvs) auto

lemma set_attribute_absent:
  "lookup_attr kvs key = None \<Longrightarrow>
   dsched_set_attribute A kvs key data type =
     res_bind (dsched_attr_load A (dsched_attr_cons\<lparr>a_key := key\<rparr>) data type) (\<lambda>(rc, kv).
       if rc \<noteq> DSCHED_SUCCESS then Inr (rc, kvs) else Inr (DSCHED_SUCCESS, kvs @ [kv]))"
proof (induction kvs)
  case Nil
  show ?case
    by (cases "dsched_attr_load A (dsched_attr_cons\<lparr>a_key := key\<rparr>) data type") auto
next
  case (Cons kv kvs)
  then have IH: "key \<noteq> a_key kv" "lookup_attr kvs key = None"
    by (auto split: if_splits)
  with Cons.IH show ?case
    by (cases "dsched_attr_load A (dsched_attr_cons\<lparr>a_key := key\<rparr>) data type") auto
qed

text \<open>The list with the attribute of a key replaced, or removed.\<close>

fun replace_attr :: "attribute list \<Rightarrow> u16 \<Rightarrow> attribute option \<Rightarrow> attribute list" where
  "replace_attr [] key r = []"
| "replace_attr (kv # kvs) key r =
     (if key = a_key kv then (case r of None \<Rightarrow> kvs | Some kv' \<Rightarrow> kv' # kvs)
      else kv # replace_attr kvs key r)"

lemma set_attribute_present:
  "lookup_attr kvs key = Some kv \<Longrightarrow>
   dsched_set_attribute A kvs key data type =
     res_bind (set_found A kv data type) (\<lambda>(rc, r). Inr (rc, replace_attr kvs key r))"
proof (induction kvs)
  case (Cons x kvs)
  then show ?case
    by (cases "set_found A kv data type") (auto split: if_splits)
qed simp

lemma replace_attr_None: "replace_attr kvs key None = dsched_remove_attribute kvs key"
  by (induction kvs) auto

lemma lookup_replace_other:
  "k \<noteq> key \<Longrightarrow> a_key kv' = key \<Longrightarrow>
   lookup_attr (replace_attr kvs key (Some kv')) k = lookup_attr kvs k"
  by (induction kvs) auto

lemma lookup_replace_same:
  "lookup_attr kvs key \<noteq> None \<Longrightarrow> a_key kv' = key \<Longrightarrow>
   lookup_attr (replace_attr kvs key (Some kv')) key = Some kv'"
  by (induction kvs) auto

lemma keys_remove_attribute:
  "distinct (map a_key kvs) \<Longrightarrow>
   a_key ` set (dsched_remove_attribute kvs key) = a_key ` set kvs - {key}"
  by (induction kvs) auto

lemma set_remove_attribute: "set (dsched_remove_attribute kvs key) \<subseteq> set kvs"
  by (induction kvs) auto

lemma distinct_remove_attribute:
  "distinct (map a_key kvs) \<Longrightarrow> distinct (map a_key (dsched_remove_attribute kvs key))"
  by (induction kvs) (auto dest: set_remove_attribute [THEN subsetD])

lemma lookup_remove_same:
  "distinct (map a_key kvs) \<Longrightarrow> lookup_attr (dsched_remove_attribute kvs key) key = None"
  by (simp add: lookup_attr_None keys_remove_attribute)

lemma lookup_remove_other:
  "k \<noteq> key \<Longrightarrow> lookup_attr (dsched_remove_attribute kvs key) k = lookup_attr kvs k"
  by (induction kvs) auto

lemma lookup_append:
  "lookup_attr (kvs @ [kv]) k =
     (case lookup_attr kvs k of None \<Rightarrow> if a_key kv = k then Some kv else None | Some x \<Rightarrow> Some x)"
  by (induction kvs) auto

lemma keys_replace_Some:
  "a_key kv' = key \<Longrightarrow> map a_key (replace_attr kvs key (Some kv')) = map a_key kvs"
  by (induction kvs) auto

lemma set_replace_Some:
  "set (replace_attr kvs key (Some kv')) \<subseteq> insert kv' (set kvs)"
  by (induction kvs) auto

lemma attr_list_ok_lookup: "attr_list_ok kvs \<Longrightarrow> lookup_attr kvs key = Some kv \<Longrightarrow> attr_ok kv"
  using lookup_attr_Some by (fastforce simp: attr_list_ok_def list_all_iff)

lemma attr_list_ok_remove: "attr_list_ok kvs \<Longrightarrow> attr_list_ok (dsched_remove_attribute kvs key)"
  using set_remove_attribute distinct_remove_attribute
  by (fastforce simp: attr_list_ok_def list_all_iff)

lemma attr_list_ok_replace:
  "attr_list_ok kvs \<Longrightarrow> attr_ok kv' \<Longrightarrow> a_key kv' = key \<Longrightarrow>
   attr_list_ok (replace_attr kvs key (Some kv'))"
  using set_replace_Some [of kvs key kv'] by (auto simp: attr_list_ok_def keys_replace_Some list_all_iff)

lemma attr_list_ok_append:
  "attr_list_ok kvs \<Longrightarrow> attr_ok kv \<Longrightarrow> lookup_attr kvs (a_key kv) = None \<Longrightarrow>
   attr_list_ok (kvs @ [kv])"
  by (auto simp: attr_list_ok_def lookup_attr_None)

text \<open>
  The effect of storing a value that is not false, or is new: the attribute
  with the stored value is in place, and no other key is touched.
\<close>

lemma set_attribute_storable:
  assumes ok: "attr_list_ok kvs" and st: "storable A d"
    and ty: "\<And>kv. lookup_attr kvs key = Some kv \<Longrightarrow> a_type kv = tag_of d"
    and keep: "d \<noteq> D_Bool False \<or> lookup_attr kvs key = None"
  obtains kvs' kv' u where
    "dsched_set_attribute A kvs key (Some d) (tag_of d) = Inr (DSCHED_SUCCESS, kvs')"
    "lookup_attr kvs' key = Some kv'" "a_type kv' = tag_of d" "a_data kv' = stored A d u"
    "\<forall>k. k \<noteq> key \<longrightarrow> lookup_attr kvs' k = lookup_attr kvs k"
    "attr_list_ok kvs'"
proof (cases "lookup_attr kvs key")
  case None
  define kv' where "kv' = (dsched_attr_cons\<lparr>a_key := key\<rparr>)\<lparr>a_type := tag_of d,
    a_data := stored A d (a_data (dsched_attr_cons\<lparr>a_key := key\<rparr>))\<rparr>"
  have "dsched_set_attribute A kvs key (Some d) (tag_of d) = Inr (DSCHED_SUCCESS, kvs @ [kv'])"
    using None st by (simp add: set_attribute_absent attr_load_stored kv'_def)
  moreover have "attr_list_ok (kvs @ [kv'])"
    using ok None stored_ok [OF st] by (intro attr_list_ok_append) (simp_all add: kv'_def)
  ultimately show thesis
    using None that [of "kvs @ [kv']" kv'] by (auto simp: lookup_append kv'_def split: option.splits)
next
  case (Some kv)
  define kv' where "kv' = kv\<lparr>a_type := tag_of d, a_data := stored A d (a_data kv)\<rparr>"
  note kv = attr_list_ok_lookup [OF ok Some] ty [OF Some] lookup_attr_Some [OF Some]
  have ld: "dsched_attr_load A kv (Some d) (tag_of d) = Inr (DSCHED_SUCCESS, kv')"
    using kv st unfolding kv'_def by (intro attr_load_stored) (auto simp: attr_ok_def)
  have "set_found A kv (Some d) (tag_of d) = Inr (DSCHED_SUCCESS, Some kv')"
    using keep Some kv ld by (cases d) (auto simp: set_found_def bool_arg_def)
  then have "dsched_set_attribute A kvs key (Some d) (tag_of d)
      = Inr (DSCHED_SUCCESS, replace_attr kvs key (Some kv'))"
    using Some by (simp add: set_attribute_present)
  moreover have "attr_list_ok (replace_attr kvs key (Some kv'))"
    using ok kv stored_ok [OF st] by (intro attr_list_ok_replace) (simp_all add: kv'_def)
  ultimately show thesis
    using Some kv that [of "replace_attr kvs key (Some kv')" kv' "a_data kv"]
    by (simp add: lookup_replace_same lookup_replace_other kv'_def)
qed


subsection \<open>Properties\<close>


text \<open>An instance of the library's functions, on which the properties are tried.\<close>

definition sample_attr_api :: attr_api where
  "sample_attr_api = \<lparr>data_copy = (\<lambda>src dst. case src of
        Some n \<Rightarrow> (PMIX_SUCCESS, U_val (D_DArray n)) | None \<Rightarrow> (PMIX_ERR_BAD_PARAM, dst)),
     status_code = (\<lambda>s. if s = PMIX_SUCCESS then 0 else - 1),
     proc_new = \<lparr>p_nspace = [], p_rank = 0\<rparr>, nspace_copy = take 255\<rparr>"




text \<open>
  Setting a boolean attribute that exists to false removes it: the list is
  what \<open>dsched_remove_attribute\<close> gives, the key is no longer found, the other
  keys read as before and the list stays well-formed.
\<close>

theorem set_false_removes:
  assumes "attr_list_ok kvs" and "lookup_attr kvs key = Some kv" and "a_type kv = PMIX_BOOL"
  shows "dsched_set_attribute A kvs key (Some (D_Bool False)) PMIX_BOOL
           = Inr (DSCHED_SUCCESS, dsched_remove_attribute kvs key)
     \<and> attr_list_ok (dsched_remove_attribute kvs key)
     \<and> dsched_get_attribute A (dsched_remove_attribute kvs key) key dst t = Inr (False, dst)
     \<and> (\<forall>k dst t. k \<noteq> key \<longrightarrow>
          dsched_get_attribute A (dsched_remove_attribute kvs key) k dst t
            = dsched_get_attribute A kvs k dst t)"
  using assms attr_list_ok_remove [OF assms(1), of key]
  by (simp add: set_attribute_present set_found_def bool_arg_def replace_attr_None
      get_attribute_lookup lookup_remove_other lookup_remove_same attr_list_ok_def)

theorem set_false_removes_witness:
  "dsched_set_attribute sample_attr_api
        [\<lparr>a_key = 3, a_type = PMIX_BOOL, a_data = U_val (D_Bool True)\<rparr>] 3
        (Some (D_Bool False)) PMIX_BOOL = Inr (DSCHED_SUCCESS, [])"
  using set_false_removes [of "[\<lparr>a_key = 3, a_type = PMIX_BOOL, a_data = U_val (D_Bool True)\<rparr>]" 3
     "\<lparr>a_key = 3, a_type = PMIX_BOOL, a_data = U_val (D_Bool True)\<rparr>" sample_attr_api None PMIX_BOOL]
  by (simp add: attr_list_ok_def attr_ok_def member_ok_def)

end
