(* ===== verification/Globals.thy ===== *)
theory Globals
  imports Attributes
begin

text \<open>
  The program's global state and its node objects
  (\<open>include/dsched_globals.h\<close>, \<open>include/dsched_globals.c\<close>): the struct
  \<open>dsched_globals\<close> with its static initialisation, nodes, and the functions
  that decide whether a name or another node denotes a node.
\<close>

subsection \<open>Data\<close>

type_synonym dsched_node_flags_t = u16

record dsched_node =
  n_index :: int
  n_name :: "string option"
  n_rawname :: "string option"
  n_aliases :: "string list option"
  n_nodeid :: u32
  n_slots :: int
  n_slots_available :: int
  n_slots_inuse :: int
  n_slots_max :: int
  n_topology :: "ptr option"
  n_flags :: dsched_node_flags_t
  n_attributes :: "attribute list"

record dsched_topology =
  tp_index :: int
  tp_topo :: "nat option"
  tp_sig :: "string option"

text \<open>
  Event bases are named by the thread that runs them: the library's handle is
  not looked into.
\<close>

record dsched_globals =
  g_myid :: pmix_proc
  g_pid :: u32
  g_evbase :: "nat option"
  g_evactive :: bool
  g_initialized :: bool
  g_version_string :: "string option"
  g_basename :: "string option"
  g_hostname :: "string option"
  g_aliases :: "string list option"
  g_nodes :: parray
  g_sessions :: parray
  g_topologies :: parray
  g_requests :: parray
  g_avail_nnodes :: int
  g_avail_nslots :: int
  g_param_files :: "string option"
  g_override_param_file :: "string option"
  g_suppress_override_warning :: bool
  g_clean_output :: int
  g_tmpdir :: "string option"
  g_prohibited_session_dirs :: "string option"
  g_exit_status :: int
  g_debug :: bool
  g_verbosity :: int
  g_output :: int
  g_pmix_output :: int
  g_report_uri :: "string option"
  g_tools :: "ptr list"
  g_syscontroller :: pmix_proc
  g_controller_connected :: bool
  g_parent_fd :: int
  g_server_initialized :: bool
  g_progress_thread_cpus :: "string option"
  g_bind_progress_thread_reqd :: bool
  g_keep_fqdn_hostnames :: bool
  g_strip_prefixes :: "string option"

text \<open>
  The static initialisation; \<open>proc_init\<close> is \<open>PMIX_PROC_STATIC_INIT\<close>, and the
  arrays and lists are empty.
\<close>

definition dsched_globals_init :: "pmix_proc \<Rightarrow> dsched_globals" where
  "dsched_globals_init proc_init =
     \<lparr>g_myid = proc_init, g_pid = 0, g_evbase = None, g_evactive = False,
      g_initialized = False, g_version_string = None, g_basename = None,
      g_hostname = None, g_aliases = None, g_nodes = [], g_sessions = [],
      g_topologies = [], g_requests = [], g_avail_nnodes = 0, g_avail_nslots = 0,
      g_param_files = None, g_override_param_file = None,
      g_suppress_override_warning = False, g_clean_output = - 1, g_tmpdir = None,
      g_prohibited_session_dirs = None, g_exit_status = 0, g_debug = False,
      g_verbosity = - 1, g_output = - 1, g_pmix_output = - 1, g_report_uri = None,
      g_tools = [], g_syscontroller = proc_init, g_controller_connected = False,
      g_parent_fd = - 1, g_server_initialized = False, g_progress_thread_cpus = None,
      g_bind_progress_thread_reqd = False, g_keep_fqdn_hostnames = False,
      g_strip_prefixes = None\<rparr>"

definition DSCHED_UPDATE_EXIT_STATUS :: "int \<Rightarrow> dsched_globals \<Rightarrow> dsched_globals" where
  "DSCHED_UPDATE_EXIT_STATUS r g = (if 0 = g_exit_status g then g\<lparr>g_exit_status := r\<rparr> else g)"

definition UINT32_MAX :: u32 where
  "UINT32_MAX = - 1"

definition dsched_node_construct :: dsched_node where
  "dsched_node_construct =
     \<lparr>n_index = - 1, n_name = None, n_rawname = None, n_aliases = None,
      n_nodeid = UINT32_MAX, n_slots = 0, n_slots_available = 0, n_slots_inuse = 0,
      n_slots_max = 0, n_topology = None, n_flags = 0, n_attributes = []\<rparr>"

definition dsched_node_destruct :: "dsched_node \<Rightarrow> dsched_node" where
  "dsched_node_destruct node =
     node\<lparr>n_name := None, n_rawname := None, n_aliases := None, n_attributes := []\<rparr>"

subsection \<open>Matching nodes\<close>

definition dsched_check_host_is_local :: "dsched_globals \<Rightarrow> string \<Rightarrow> bool res" where
  "dsched_check_host_is_local g name =
     res_bind (deref (g_hostname g)) (\<lambda>hostname.
       if name = hostname \<or> name = ''localhost'' \<or> name = ''127.0.0.1'' then Inr True
       else (case g_aliases g of
           None \<Rightarrow> Inr False
         | Some aliases \<Rightarrow> Inr (List.member aliases name)))"

text \<open>
  Whether one node is the one asked for by name: \<open>nm\<close> is the name after the
  local host has been replaced by its host name, \<open>name\<close> the name as given.
\<close>

definition node_has_name :: "dsched_node \<Rightarrow> string \<Rightarrow> string \<Rightarrow> bool res" where
  "node_has_name n nm name =
     res_bind (deref (n_name n)) (\<lambda>s.
       if s = nm then Inr True
       else (case n_aliases n of None \<Rightarrow> Inr False | Some as \<Rightarrow> Inr (List.member as name)))"

text \<open>The loop over a given list of nodes; \<open>names\<close> has \<open>nm\<close> and \<open>name\<close>.\<close>

fun node_match_list ::
  "(ptr \<rightharpoonup> dsched_node) \<Rightarrow> (string \<times> string) option \<Rightarrow> u32 \<Rightarrow> ptr list \<Rightarrow> ptr option res" where
  "node_match_list st names nodeid [] = Inr None"
| "node_match_list st names nodeid (p # ps) =
     res_bind (deref (st p)) (\<lambda>n.
       if UINT32_MAX \<noteq> nodeid \<and> n_nodeid n = nodeid then Inr (Some p)
       else (case names of
           None \<Rightarrow> node_match_list st names nodeid ps
         | Some (nm, name) \<Rightarrow>
             res_bind (node_has_name n nm name) (\<lambda>b.
               if b then Inr (Some p) else node_match_list st names nodeid ps)))"

text \<open>The loop over the node pool, which skips empty slots.\<close>

fun node_match_pool ::
  "(ptr \<rightharpoonup> dsched_node) \<Rightarrow> string \<times> string \<Rightarrow> ptr option list \<Rightarrow> ptr option res" where
  "node_match_pool st names [] = Inr None"
| "node_match_pool st names (None # ps) = node_match_pool st names ps"
| "node_match_pool st names (Some p # ps) =
     res_bind (deref (st p)) (\<lambda>n.
       res_bind (node_has_name n (fst names) (snd names)) (\<lambda>b.
         if b then Inr (Some p) else node_match_pool st names ps))"

definition match_names :: "dsched_globals \<Rightarrow> string option \<Rightarrow> (string \<times> string) option res" where
  "match_names g name =
     (case name of
        None \<Rightarrow> Inr None
      | Some s \<Rightarrow>
          res_bind (dsched_check_host_is_local g s) (\<lambda>b.
            if b then res_bind (deref (g_hostname g)) (\<lambda>h. Inr (Some (h, s)))
            else Inr (Some (s, s))))"

text \<open>
  \<open>nodes\<close> is the list to search, the node pool when it is null. In the pool
  the node id is an index, converted to a signed \<open>int\<close>.
\<close>

definition dsched_node_match ::
  "dsched_globals \<Rightarrow> (ptr \<rightharpoonup> dsched_node) \<Rightarrow> ptr list option \<Rightarrow> string option \<Rightarrow> u32
     \<Rightarrow> ptr option res" where
  "dsched_node_match g st nodes name nodeid =
     res_bind (match_names g name) (\<lambda>names.
       case nodes of
         Some ps \<Rightarrow> node_match_list st names nodeid ps
       | None \<Rightarrow>
           (case (if UINT32_MAX \<noteq> nodeid then pa_get (g_nodes g) (sint nodeid) else None) of
              Some p \<Rightarrow> Inr (Some p)
            | None \<Rightarrow>
                (case names of
                   None \<Rightarrow> Inr None
                 | Some ns \<Rightarrow> node_match_pool st ns (g_nodes g))))"

text \<open>The two nested loops over the aliases of two nodes.\<close>

fun alias_loop2 :: "string \<Rightarrow> string \<Rightarrow> string list \<Rightarrow> bool" where
  "alias_loop2 name1 a1 [] = False"
| "alias_loop2 name1 a1 (a2 # as2) =
     (if a2 = name1 then True else if a1 = a2 then True else alias_loop2 name1 a1 as2)"

fun alias_loop1 :: "string \<Rightarrow> string \<Rightarrow> string list option \<Rightarrow> string list \<Rightarrow> bool" where
  "alias_loop1 name1 name2 as2 [] = False"
| "alias_loop1 name1 name2 as2 (a1 # as1) =
     (if a1 = name2 then True
      else if (case as2 of None \<Rightarrow> False | Some bs \<Rightarrow> alias_loop2 name1 a1 bs) then True
      else alias_loop1 name1 name2 as2 as1)"

definition dsched_nptr_match :: "dsched_node \<Rightarrow> dsched_node \<Rightarrow> bool res" where
  "dsched_nptr_match n1 n2 =
     res_bind (deref (n_name n1)) (\<lambda>name1.
     res_bind (deref (n_name n2)) (\<lambda>name2.
       if name1 = name2 then Inr True
       else (case n_aliases n1 of
           None \<Rightarrow> Inr False
         | Some as1 \<Rightarrow> Inr (alias_loop1 name1 name2 (n_aliases n2) as1))))"

definition DSCHED_NODE_NON_USABLE :: dsched_node_flags_t where
  "DSCHED_NODE_NON_USABLE = 0x0001"

text \<open>\<open>join\<close> is \<open>PMIx_Argv_join\<close>.\<close>

definition dsched_print_node_flags ::
  "(string list \<Rightarrow> char \<Rightarrow> string) \<Rightarrow> dsched_node \<Rightarrow> string res" where
  "dsched_print_node_flags join p =
     res_bind (deref (n_name p)) (\<lambda>name.
       Inr (join ([name, '': '']
         @ (if and (n_flags p) DSCHED_NODE_NON_USABLE \<noteq> 0 then [''NONUSABLE''] else [])) (CHR ''|'')))"


subsection \<open>Properties\<close>

text \<open>Whether a name denotes the local host, and the name it is searched by.\<close>

definition is_local :: "dsched_globals \<Rightarrow> string \<Rightarrow> string \<Rightarrow> bool" where
  "is_local g h s \<longleftrightarrow>
     s \<in> {h, ''localhost'', ''127.0.0.1''} \<or> (\<exists>as. g_aliases g = Some as \<and> s \<in> set as)"

text \<open>The node that is asked for by a node id or by a name.\<close>

definition node_denoted ::
  "dsched_globals \<Rightarrow> string \<Rightarrow> string option \<Rightarrow> u32 \<Rightarrow> dsched_node \<Rightarrow> bool" where
  "node_denoted g h name nodeid n \<longleftrightarrow>
     nodeid \<noteq> UINT32_MAX \<and> n_nodeid n = nodeid
   \<or> (\<exists>s. name = Some s
         \<and> (n_name n = Some (if is_local g h s then h else s)
            \<or> (\<exists>as. n_aliases n = Some as \<and> s \<in> set as)))"

lemma check_host_is_local_iff:
  "g_hostname g = Some h \<Longrightarrow> dsched_check_host_is_local g s = Inr (is_local g h s)"
  by (auto simp: dsched_check_host_is_local_def is_local_def List.member_iff split: option.splits)

lemma match_names_spec:
  "g_hostname g = Some h \<Longrightarrow>
   match_names g name = Inr (map_option (\<lambda>s. (if is_local g h s then h else s, s)) name)"
  by (cases name) (simp_all add: match_names_def check_host_is_local_iff)

lemma node_has_name_spec:
  "n_name n = Some s \<Longrightarrow>
   node_has_name n nm name = Inr (s = nm \<or> (\<exists>as. n_aliases n = Some as \<and> name \<in> set as))"
  by (auto simp: node_has_name_def List.member_iff split: option.splits)

lemma node_has_name_denoted:
  "n_name n = Some x \<Longrightarrow>
   node_has_name n (if is_local g h s then h else s) s
     = Inr (node_denoted g h (Some s) UINT32_MAX n)"
  by (auto simp: node_has_name_spec node_denoted_def)

lemma node_denoted_split:
  "node_denoted g h None nodeid n \<longleftrightarrow> nodeid \<noteq> UINT32_MAX \<and> n_nodeid n = nodeid"
  "node_denoted g h (Some s) nodeid n \<longleftrightarrow>
     nodeid \<noteq> UINT32_MAX \<and> n_nodeid n = nodeid \<or> node_denoted g h (Some s) UINT32_MAX n"
  by (auto simp: node_denoted_def)

definition named_nodes :: "(ptr \<rightharpoonup> dsched_node) \<Rightarrow> ptr list \<Rightarrow> bool" where
  "named_nodes st ps \<longleftrightarrow> list_all (\<lambda>p. \<exists>n. st p = Some n \<and> n_name n \<noteq> None) ps"

lemma named_nodes_simps [simp]:
  "named_nodes st []"
  "named_nodes st (p # ps) \<longleftrightarrow> (\<exists>n s. st p = Some n \<and> n_name n = Some s) \<and> named_nodes st ps"
  by (auto simp: named_nodes_def)

lemma node_match_list_spec:
  "named_nodes st ps \<Longrightarrow>
   node_match_list st (map_option (\<lambda>s. (if is_local g h s then h else s, s)) name) nodeid ps
     = Inr (List.find (\<lambda>p. node_denoted g h name nodeid (the (st p))) ps)"
proof (induction ps)
  case (Cons p ps)
  then obtain n s where "st p = Some n" "n_name n = Some s" "named_nodes st ps" by auto
  with Cons.IH show ?case
    by (cases name; cases "node_denoted g h name nodeid n")
      (auto simp: node_denoted_split [where nodeid = nodeid] node_has_name_denoted)
qed simp

lemma node_match_pool_spec:
  "named_nodes st (pa_items a) \<Longrightarrow>
   node_match_pool st (if is_local g h s then h else s, s) a
     = Inr (List.find (\<lambda>p. node_denoted g h (Some s) UINT32_MAX (the (st p))) (pa_items a))"
proof (induction a)
  case (Cons x a)
  then show ?case
  proof (cases x)
    case (Some p)
    with Cons.prems obtain n nm where "st p = Some n" "n_name n = Some nm" "named_nodes st (pa_items a)"
      by (auto simp: pa_items_def)
    with Cons.IH Some show ?thesis
      by (simp add: pa_items_def node_has_name_denoted)
  qed (simp add: pa_items_def)
qed (simp add: pa_items_def)

text \<open>
  C22. Searching a list of nodes returns its first node that has the node id
  asked for, the name asked for (the host name when the name denotes the local
  host) or the name among its aliases, and null exactly when it has none.
\<close>

theorem node_match_list_correct:
  assumes "g_hostname g = Some h" and "named_nodes st ps"
  shows "dsched_node_match g st (Some ps) name nodeid
     = Inr (List.find (\<lambda>p. node_denoted g h name nodeid (the (st p))) ps)"
  using assms by (simp add: dsched_node_match_def match_names_spec node_match_list_spec)

definition sample_globals :: dsched_globals where
  "sample_globals = (dsched_globals_init \<lparr>p_nspace = [], p_rank = 0\<rparr>)
     \<lparr>g_hostname := Some ''head'', g_nodes := [None, Some 1, Some 2]\<rparr>"

definition sample_nodes :: "ptr \<rightharpoonup> dsched_node" where
  "sample_nodes =
     [1 \<mapsto> dsched_node_construct\<lparr>n_name := Some ''head'', n_nodeid := 7\<rparr>,
      2 \<mapsto> dsched_node_construct\<lparr>n_name := Some ''n1'', n_aliases := Some [''n1.site'']\<rparr>]"

theorem node_match_list_correct_witness:
  "dsched_node_match sample_globals sample_nodes (Some [1, 2]) (Some ''n1.site'') UINT32_MAX
     = Inr (Some 2)"
  using node_match_list_correct [of sample_globals "''head''" sample_nodes "[1, 2]"
      "Some ''n1.site''" UINT32_MAX]
  by (simp add: sample_globals_def sample_nodes_def dsched_globals_init_def
      dsched_node_construct_def node_denoted_def is_local_def)

text \<open>
  Searching the node pool: a node id that is not \<open>UINT32_MAX\<close> and is the
  index of an occupied slot gives that slot; otherwise the first node of the
  pool that the name denotes, and null when there is no name.
\<close>

theorem node_match_pool_correct:
  assumes "g_hostname g = Some h" and "named_nodes st (pa_items (g_nodes g))"
  shows "dsched_node_match g st None name nodeid
     = Inr (case (if UINT32_MAX \<noteq> nodeid then pa_get (g_nodes g) (sint nodeid) else None) of
         Some p \<Rightarrow> Some p
       | None \<Rightarrow> (case name of
           None \<Rightarrow> None
         | Some s \<Rightarrow> List.find (\<lambda>p. node_denoted g h (Some s) UINT32_MAX (the (st p)))
                        (pa_items (g_nodes g))))"
  using assms
  by (auto simp: dsched_node_match_def match_names_spec node_match_pool_spec split: option.split)

theorem node_match_pool_correct_witness:
  "dsched_node_match sample_globals sample_nodes None (Some ''localhost'') UINT32_MAX
     = Inr (Some 1)"
  using node_match_pool_correct [of sample_globals "''head''" sample_nodes "Some ''localhost''"
      UINT32_MAX]
  by (simp add: sample_globals_def sample_nodes_def dsched_globals_init_def pa_items_def
      dsched_node_construct_def node_denoted_def is_local_def)

lemma alias_loop2_iff: "alias_loop2 name1 a1 as2 \<longleftrightarrow> name1 \<in> set as2 \<or> a1 \<in> set as2"
  by (induction as2) auto

lemma alias_loop1_iff:
  "alias_loop1 name1 name2 as2 as1 \<longleftrightarrow>
     name2 \<in> set as1
   \<or> (\<exists>bs. as2 = Some bs \<and> as1 \<noteq> [] \<and> (name1 \<in> set bs \<or> set as1 \<inter> set bs \<noteq> {}))"
  by (induction as1) (auto simp: alias_loop2_iff split: option.splits)

text \<open>
  C23. Two named nodes match when their names agree or when the first node has
  aliases and the name of one is an alias of the other or they share an alias;
  a node without aliases never matches through the aliases of the second one,
  so that the relation is not symmetric.
\<close>

theorem nptr_match_iff:
  assumes "n_name n1 = Some name1" and "n_name n2 = Some name2"
  shows "dsched_nptr_match n1 n2 = Inr (name1 = name2
     \<or> (\<exists>as. n_aliases n1 = Some as \<and> as \<noteq> []
           \<and> (name2 \<in> set as
              \<or> (\<exists>bs. n_aliases n2 = Some bs \<and> (name1 \<in> set bs \<or> set as \<inter> set bs \<noteq> {})))))"
  using assms by (auto simp: dsched_nptr_match_def alias_loop1_iff split: option.splits)

theorem nptr_match_iff_witness:
  "dsched_nptr_match (dsched_node_construct\<lparr>n_name := Some ''n1''\<rparr>)
      (dsched_node_construct\<lparr>n_name := Some ''n1.site'', n_aliases := Some [''n1'']\<rparr>) = Inr False
   \<and> dsched_nptr_match (dsched_node_construct\<lparr>n_name := Some ''n1.site'', n_aliases := Some [''n1'']\<rparr>)
      (dsched_node_construct\<lparr>n_name := Some ''n1''\<rparr>) = Inr True"
  using nptr_match_iff [of "dsched_node_construct\<lparr>n_name := Some ''n1''\<rparr>" "''n1''"
      "dsched_node_construct\<lparr>n_name := Some ''n1.site'', n_aliases := Some [''n1'']\<rparr>" "''n1.site''"]
    nptr_match_iff [of "dsched_node_construct\<lparr>n_name := Some ''n1.site'', n_aliases := Some [''n1'']\<rparr>"
      "''n1.site''" "dsched_node_construct\<lparr>n_name := Some ''n1''\<rparr>" "''n1''"]
  by (simp add: dsched_node_construct_def)

end
