(* ===== verification/Mca_Select.thy ===== *)
theory Mca_Select
  imports Pmix_Types "HOL-Library.Multiset"
begin

text \<open>
  Selection and dispatch of plug-in modules: the four frameworks \<open>dsched\<close>,
  \<open>dmeta\<close>, \<open>dlog\<close> and \<open>dmetric\<close> (\<open>mca/*/base/*_base_select.c\<close> and
  \<open>*_base_frame.c\<close>) each keep a list of active modules by decreasing
  priority, filled once by a select function and emptied on close.
\<close>

subsection \<open>Data\<close>

text \<open>
  A component answers the query with a status and writes a module and a
  priority through pointers; the caller's variables keep what an earlier
  component left there. Modules and components are named; \<open>'s\<close> is the state
  their functions work on.
\<close>

record component =
  c_name :: string
  c_query :: "(string option \<times> int \<Rightarrow> pmix_status \<times> (string option \<times> int)) option"

record active_module =
  am_pri :: int
  am_module :: string
  am_component :: string

record framework =
  fw_actives :: "active_module list"
  fw_initialized :: bool
  fw_selected :: bool

record frameworks =
  sched_fw :: framework
  meta_fw :: framework
  log_fw :: framework
  metric_fw :: framework

definition fw_static :: framework where
  "fw_static = \<lparr>fw_actives = [], fw_initialized = False, fw_selected = False\<rparr>"

text \<open>
  The module functions by module name (a function pointer may be null), and
  the library's opening and closing of a framework's components.
\<close>

record 's fw_env =
  fe_components :: "component list"
  fe_init :: "string \<Rightarrow> ('s \<Rightarrow> pmix_status \<times> 's) option"
  fe_finalize :: "string \<Rightarrow> ('s \<Rightarrow> 's) option"
  fe_open :: "'s \<Rightarrow> pmix_status \<times> 's"
  fe_close :: "'s \<Rightarrow> pmix_status \<times> 's"

subsection \<open>Selection\<close>

definition run_init :: "'s fw_env \<Rightarrow> string \<Rightarrow> 's \<Rightarrow> bool \<times> 's" where
  "run_init E m s =
     (case fe_init E m of
        None \<Rightarrow> (True, s)
      | Some f \<Rightarrow> (let (rc, s') = f s in (rc = PMIX_SUCCESS, s')))"

text \<open>The loop over the components, with the variables \<open>module\<close> and \<open>priority\<close>.\<close>

fun select_loop ::
  "'s fw_env \<Rightarrow> component list \<Rightarrow> string option \<times> int \<Rightarrow> active_module list \<Rightarrow> 's
     \<Rightarrow> active_module list \<times> 's" where
  "select_loop E [] vars acts s = (acts, s)"
| "select_loop E (c # cs) vars acts s =
     (case c_query c of
        None \<Rightarrow> select_loop E cs vars acts s
      | Some query \<Rightarrow>
          (let (rc, vars') = query vars
           in if rc \<noteq> PMIX_SUCCESS then select_loop E cs vars' acts s
              else (case fst vars' of
                  None \<Rightarrow> select_loop E cs vars' acts s
                | Some m \<Rightarrow>
                    (let (ok, s') = run_init E m s
                     in if ok
                        then select_loop E cs vars'
                               (insert_pri am_pri
                                  \<lparr>am_pri = snd vars', am_module = m, am_component = c_name c\<rparr> acts) s'
                        else select_loop E cs vars' acts s'))))"

definition base_select ::
  "'s fw_env \<Rightarrow> int \<Rightarrow> framework \<Rightarrow> 's \<Rightarrow> pmix_status \<times> framework \<times> 's" where
  "base_select E priority fw s =
     (if fw_selected fw then (PMIX_SUCCESS, fw, s)
      else (let (acts, s') = select_loop E (fe_components E) (None, priority) (fw_actives fw) s
            in (PMIX_SUCCESS, fw\<lparr>fw_selected := True, fw_actives := acts\<rparr>, s')))"

text \<open>
  The four select functions are the same text on their own globals;
  \<open>priority\<close> is what the uninitialised variable holds.
\<close>

definition dsched_dsched_base_select ::
  "'s fw_env \<Rightarrow> int \<Rightarrow> frameworks \<Rightarrow> 's \<Rightarrow> pmix_status \<times> frameworks \<times> 's" where
  "dsched_dsched_base_select E priority F s =
     (let (rc, fw, s') = base_select E priority (sched_fw F) s in (rc, F\<lparr>sched_fw := fw\<rparr>, s'))"

definition dsched_dmeta_base_select ::
  "'s fw_env \<Rightarrow> int \<Rightarrow> frameworks \<Rightarrow> 's \<Rightarrow> pmix_status \<times> frameworks \<times> 's" where
  "dsched_dmeta_base_select E priority F s =
     (let (rc, fw, s') = base_select E priority (meta_fw F) s in (rc, F\<lparr>meta_fw := fw\<rparr>, s'))"

definition dsched_dlog_base_select ::
  "'s fw_env \<Rightarrow> int \<Rightarrow> frameworks \<Rightarrow> 's \<Rightarrow> pmix_status \<times> frameworks \<times> 's" where
  "dsched_dlog_base_select E priority F s =
     (let (rc, fw, s') = base_select E priority (log_fw F) s in (rc, F\<lparr>log_fw := fw\<rparr>, s'))"

definition dsched_dmetric_base_select ::
  "'s fw_env \<Rightarrow> int \<Rightarrow> frameworks \<Rightarrow> 's \<Rightarrow> pmix_status \<times> frameworks \<times> 's" where
  "dsched_dmetric_base_select E priority F s =
     (let (rc, fw, s') = base_select E priority (metric_fw F) s in (rc, F\<lparr>metric_fw := fw\<rparr>, s'))"

subsection \<open>Opening, closing and dispatch\<close>

fun finalize_all :: "'s fw_env \<Rightarrow> active_module list \<Rightarrow> 's \<Rightarrow> 's" where
  "finalize_all E [] s = s"
| "finalize_all E (a # as) s =
     finalize_all E as (case fe_finalize E (am_module a) of None \<Rightarrow> s | Some f \<Rightarrow> f s)"

definition base_close :: "'s fw_env \<Rightarrow> framework \<Rightarrow> 's \<Rightarrow> pmix_status \<times> framework \<times> 's" where
  "base_close E fw s =
     (if \<not> fw_initialized fw then (PMIX_SUCCESS, fw, s)
      else (let (rc, s') = fe_close E (finalize_all E (fw_actives fw) s)
            in (rc, fw\<lparr>fw_actives := [], fw_initialized := False\<rparr>, s')))"

definition base_open :: "'s fw_env \<Rightarrow> framework \<Rightarrow> 's \<Rightarrow> pmix_status \<times> framework \<times> 's" where
  "base_open E fw s =
     (let (rc, s') = fe_open E s in (rc, fw\<lparr>fw_actives := [], fw_initialized := True\<rparr>, s'))"

definition dsched_dsched_base_close where
  "dsched_dsched_base_close E F s =
     (let (rc, fw, s') = base_close E (sched_fw F) s in (rc, F\<lparr>sched_fw := fw\<rparr>, s'))"

definition dsched_dmeta_base_close where
  "dsched_dmeta_base_close E F s =
     (let (rc, fw, s') = base_close E (meta_fw F) s in (rc, F\<lparr>meta_fw := fw\<rparr>, s'))"

definition dsched_dlog_base_close where
  "dsched_dlog_base_close E F s =
     (let (rc, fw, s') = base_close E (log_fw F) s in (rc, F\<lparr>log_fw := fw\<rparr>, s'))"

definition dsched_dmetric_base_close where
  "dsched_dmetric_base_close E F s =
     (let (rc, fw, s') = base_close E (metric_fw F) s in (rc, F\<lparr>metric_fw := fw\<rparr>, s'))"

definition dsched_dsched_base_open where
  "dsched_dsched_base_open E F s =
     (let (rc, fw, s') = base_open E (sched_fw F) s in (rc, F\<lparr>sched_fw := fw\<rparr>, s'))"

definition dsched_dmeta_base_open where
  "dsched_dmeta_base_open E F s =
     (let (rc, fw, s') = base_open E (meta_fw F) s in (rc, F\<lparr>meta_fw := fw\<rparr>, s'))"

definition dsched_dlog_base_open where
  "dsched_dlog_base_open E F s =
     (let (rc, fw, s') = base_open E (log_fw F) s in (rc, F\<lparr>log_fw := fw\<rparr>, s'))"

definition dsched_dmetric_base_open where
  "dsched_dmetric_base_open E F s =
     (let (rc, fw, s') = base_open E (metric_fw F) s in (rc, F\<lparr>metric_fw := fw\<rparr>, s'))"

text \<open>Dispatch to the active modules in order until one fails.\<close>

fun dispatch_loop ::
  "(string \<Rightarrow> ('d \<Rightarrow> 's \<Rightarrow> pmix_status \<times> 's) option) \<Rightarrow> active_module list \<Rightarrow> 'd \<Rightarrow> 's
     \<Rightarrow> pmix_status \<times> 's" where
  "dispatch_loop fn [] d s = (PMIX_SUCCESS, s)"
| "dispatch_loop fn (a # as) d s =
     (case fn (am_module a) of
        None \<Rightarrow> dispatch_loop fn as d s
      | Some f \<Rightarrow>
          (let (rc, s') = f d s
           in if rc \<noteq> PMIX_SUCCESS then (rc, s') else dispatch_loop fn as d s'))"

definition dsched_log_base_log where
  "dsched_log_base_log fn F d s = dispatch_loop fn (fw_actives (log_fw F)) d s"

definition dsched_metric_base_compute where
  "dsched_metric_base_compute fn F d s = dispatch_loop fn (fw_actives (metric_fw F)) d s"

subsection \<open>The components of the tree\<close>

definition log_stdfd_query :: "string option \<times> int \<Rightarrow> pmix_status \<times> (string option \<times> int)" where
  "log_stdfd_query vars = (PMIX_SUCCESS, (Some ''stdfd'', 5))"

definition meta_pri_query :: "string option \<times> int \<Rightarrow> pmix_status \<times> (string option \<times> int)" where
  "meta_pri_query vars = (PMIX_SUCCESS, (Some ''pri'', 5))"

definition metric_energy_query :: "string option \<times> int \<Rightarrow> pmix_status \<times> (string option \<times> int)" where
  "metric_energy_query vars = (PMIX_SUCCESS, (Some ''energy'', 5))"

text \<open>
  The fifo component registers its priority, 1000 by default, as a variable
  the user may set; \<open>var_register\<close> is the library's registration.
\<close>

definition sched_register :: "(int \<Rightarrow> int) \<Rightarrow> int" where
  "sched_register var_register = var_register 1000"

definition sched_component_query ::
  "int \<Rightarrow> string option \<times> int \<Rightarrow> pmix_status \<times> (string option \<times> int)" where
  "sched_component_query my_priority vars = (PMIX_SUCCESS, (Some ''fifo'', my_priority))"

text \<open>The \<open>stdfd\<close> and \<open>energy\<close> modules, whose work is compiled out.\<close>

definition log_stdfd_mylog :: "'d \<Rightarrow> 's \<Rightarrow> pmix_status \<times> 's" where
  "log_stdfd_mylog data s = (PMIX_SUCCESS, s)"

definition metric_energy_mycompute :: "'d \<Rightarrow> 's \<Rightarrow> pmix_status \<times> 's" where
  "metric_energy_mycompute data s = (PMIX_SUCCESS, s)"

definition log_stdfd_myinit :: "'s \<Rightarrow> pmix_status \<times> 's" where
  "log_stdfd_myinit s = (PMIX_SUCCESS, s)"

definition metric_energy_myinit :: "'s \<Rightarrow> pmix_status \<times> 's" where
  "metric_energy_myinit s = (PMIX_SUCCESS, s)"

subsection \<open>Properties\<close>

text \<open>The modules a run of the loop accepts, in the order of the components.\<close>

fun accepted ::
  "'s fw_env \<Rightarrow> component list \<Rightarrow> string option \<times> int \<Rightarrow> 's \<Rightarrow> active_module list" where
  "accepted E [] vars s = []"
| "accepted E (c # cs) vars s =
     (case c_query c of
        None \<Rightarrow> accepted E cs vars s
      | Some query \<Rightarrow>
          (let (rc, vars') = query vars
           in if rc \<noteq> PMIX_SUCCESS \<or> fst vars' = None then accepted E cs vars' s
              else (let m = the (fst vars'); (ok, s') = run_init E m s
                    in (if ok then [\<lparr>am_pri = snd vars', am_module = m, am_component = c_name c\<rparr>]
                        else []) @ accepted E cs vars' s')))"

lemma select_loop_fold:
  "fst (select_loop E cs vars acts s) = fold (insert_pri am_pri) (accepted E cs vars s) acts"
proof (induction cs arbitrary: vars acts s)
  case (Cons c cs)
  show ?case
  proof (cases "c_query c")
    case (Some query)
    then show ?thesis
      by (cases "fst (snd (query vars))") (simp_all add: Cons.IH split_beta Let_def)
  qed (simp add: Cons.IH)
qed simp

lemma fold_insert_pri_mset: "mset (fold (insert_pri pri) xs acts) = mset xs + mset acts"
proof -
  have "mset (insert_pri pri x ys) = add_mset x (mset ys)" for x ys
    by (induction ys) auto
  then show ?thesis by (induction xs arbitrary: acts) simp_all
qed

lemma fold_insert_pri_sorted:
  "sorted_wrt (\<lambda>a b. pri a \<ge> pri b) acts \<Longrightarrow>
   sorted_wrt (\<lambda>a b. pri a \<ge> pri b) (fold (insert_pri pri) xs acts)"
  by (induction xs arbitrary: acts) (simp_all add: insert_pri_sorted)

lemma fold_insert_pri_filter:
  "sorted_wrt (\<lambda>a b. pri a \<ge> pri b) acts \<Longrightarrow>
   filter (\<lambda>a. pri a = k) (fold (insert_pri pri) xs acts)
     = filter (\<lambda>a. pri a = k) acts @ filter (\<lambda>a. pri a = k) xs"
  by (induction xs arbitrary: acts) (simp_all add: insert_pri_sorted insert_pri_filter)

lemma fold_insert_pri_sort_key:
  "fold (insert_pri pri) xs [] = sort_key (\<lambda>a. - pri a) xs"
proof (rule properties_for_sort_key [symmetric])
  show "mset (fold (insert_pri pri) xs []) = mset xs"
    by (simp add: fold_insert_pri_mset)
  have "sorted_wrt (\<lambda>a b. pri a \<ge> pri b) (fold (insert_pri pri) xs [])"
    by (simp add: fold_insert_pri_sorted)
  then show "sorted (map (\<lambda>a. - pri a) (fold (insert_pri pri) xs []))"
    by (simp add: sorted_wrt_map)
  show "filter (\<lambda>x. - pri k = - pri x) (fold (insert_pri pri) xs []) = filter (\<lambda>x. - pri k = - pri x) xs"
    for k
    using fold_insert_pri_filter [of pri "[]" "pri k" xs] by (simp add: eq_commute)
qed

text \<open>
  What the four frameworks share: each has its own globals, and its open,
  select and close functions are the common text on them.
\<close>

locale framework_ops =
  fixes fw :: "frameworks \<Rightarrow> framework"
    and upd :: "framework \<Rightarrow> frameworks \<Rightarrow> frameworks"
    and select :: "'s fw_env \<Rightarrow> int \<Rightarrow> frameworks \<Rightarrow> 's \<Rightarrow> pmix_status \<times> frameworks \<times> 's"
    and fopen :: "'s fw_env \<Rightarrow> frameworks \<Rightarrow> 's \<Rightarrow> pmix_status \<times> frameworks \<times> 's"
    and fclose :: "'s fw_env \<Rightarrow> frameworks \<Rightarrow> 's \<Rightarrow> pmix_status \<times> frameworks \<times> 's"
  assumes fw_upd: "fw (upd x F) = x"
    and upd_fw: "upd (fw F) F = F"
    and select_eq: "select E p F s =
          (case base_select E p (fw F) s of (rc, x, s') \<Rightarrow> (rc, upd x F, s'))"
    and open_eq: "fopen E F s = (case base_open E (fw F) s of (rc, x, s') \<Rightarrow> (rc, upd x F, s'))"
    and close_eq: "fclose E F s = (case base_close E (fw F) s of (rc, x, s') \<Rightarrow> (rc, upd x F, s'))"
begin

lemma select_sorts:
  assumes "\<not> fw_selected (fw F)" and "fw_actives (fw F) = []" and "select E p F s = (rc, F', s')"
  shows "rc = PMIX_SUCCESS" "fw_selected (fw F')"
    "fw_actives (fw F') = sort_key (\<lambda>a. - am_pri a) (accepted E (fe_components E) (None, p) s)"
  using assms select_loop_fold [of E "fe_components E" "(None, p)" "[]" s]
  by (auto simp: select_eq base_select_def fold_insert_pri_sort_key fw_upd split_beta Let_def)

lemma select_again: "fw_selected (fw F) \<Longrightarrow> select E p F s = (PMIX_SUCCESS, F, s)"
  by (simp add: select_eq base_select_def upd_fw)

lemma close_open_select:
  assumes "fw_selected (fw F)" and "fclose E F s = (rc1, F1, s1)"
    and "fopen E F1 s1 = (rc2, F2, s2)" and "select E p F2 s2 = (rc3, F3, s3)"
  shows "fw_actives (fw F3) = []" "rc3 = PMIX_SUCCESS"
  using assms
  by (auto simp: select_eq open_eq close_eq base_close_def base_open_def base_select_def fw_upd
      split_beta Let_def split: if_splits)

end

interpretation sched_ops: framework_ops sched_fw "\<lambda>x F. F\<lparr>sched_fw := x\<rparr>"
    dsched_dsched_base_select dsched_dsched_base_open dsched_dsched_base_close
  by unfold_locales (simp_all add: dsched_dsched_base_select_def dsched_dsched_base_open_def
      dsched_dsched_base_close_def)

interpretation meta_ops: framework_ops meta_fw "\<lambda>x F. F\<lparr>meta_fw := x\<rparr>"
    dsched_dmeta_base_select dsched_dmeta_base_open dsched_dmeta_base_close
  by unfold_locales (simp_all add: dsched_dmeta_base_select_def dsched_dmeta_base_open_def
      dsched_dmeta_base_close_def)

interpretation log_ops: framework_ops log_fw "\<lambda>x F. F\<lparr>log_fw := x\<rparr>"
    dsched_dlog_base_select dsched_dlog_base_open dsched_dlog_base_close
  by unfold_locales (simp_all add: dsched_dlog_base_select_def dsched_dlog_base_open_def
      dsched_dlog_base_close_def)

interpretation metric_ops: framework_ops metric_fw "\<lambda>x F. F\<lparr>metric_fw := x\<rparr>"
    dsched_dmetric_base_select dsched_dmetric_base_open dsched_dmetric_base_close
  by unfold_locales (simp_all add: dsched_dmetric_base_select_def dsched_dmetric_base_open_def
      dsched_dmetric_base_close_def)

text \<open>
  C8. Selecting the schedulers on a framework that was opened and not selected
  before leaves as active modules exactly the accepted ones, stably sorted by
  decreasing priority: components of equal priority stay in their order.
  Selecting again changes nothing.
\<close>

theorem select_stable_sort:
  assumes "\<not> fw_selected (sched_fw F)" and "fw_actives (sched_fw F) = []"
    and "dsched_dsched_base_select E priority F s = (rc, F', s')"
  shows "rc = PMIX_SUCCESS
     \<and> fw_actives (sched_fw F') =
         sort_key (\<lambda>a. - am_pri a) (accepted E (fe_components E) (None, priority) s)
     \<and> dsched_dsched_base_select E priority F' s'' = (PMIX_SUCCESS, F', s'')"
  using sched_ops.select_sorts [OF assms] sched_ops.select_again [of F' E priority s''] by simp

definition sample_fw_env :: "nat fw_env" where
  "sample_fw_env =
     \<lparr>fe_components =
        [\<lparr>c_name = ''noquery'', c_query = None\<rparr>,
         \<lparr>c_name = ''low'', c_query = Some (\<lambda>v. (PMIX_SUCCESS, (Some ''low'', 1)))\<rparr>,
         \<lparr>c_name = ''fifo'', c_query = Some (sched_component_query 1000)\<rparr>,
         \<lparr>c_name = ''failing'', c_query = Some (\<lambda>v. (PMIX_ERROR, v))\<rparr>,
         \<lparr>c_name = ''low2'', c_query = Some (\<lambda>v. (PMIX_SUCCESS, (Some ''low2'', 1)))\<rparr>],
      fe_init = (\<lambda>m. if m = ''fifo'' then Some (\<lambda>s. (PMIX_SUCCESS, Suc s)) else None),
      fe_finalize = (\<lambda>m. None), fe_open = Pair PMIX_SUCCESS, fe_close = Pair PMIX_SUCCESS\<rparr>"

definition sample_frameworks :: frameworks where
  "sample_frameworks =
     \<lparr>sched_fw = fw_static, meta_fw = fw_static, log_fw = fw_static, metric_fw = fw_static\<rparr>"

theorem select_stable_sort_witness:
  "map am_module (fw_actives (sched_fw (fst (snd
     (dsched_dsched_base_select sample_fw_env 0 sample_frameworks 0))))) = [''fifo'', ''low'', ''low2'']"
proof -
  obtain rc F' s' where r: "dsched_dsched_base_select sample_fw_env 0 sample_frameworks 0 = (rc, F', s')"
    by (metis prod_cases3)
  have "fw_actives (sched_fw F') =
      sort_key (\<lambda>a. - am_pri a) (accepted sample_fw_env (fe_components sample_fw_env) (None, 0) 0)"
    using select_stable_sort [OF _ _ r, of 0] by (simp add: sample_frameworks_def fw_static_def)
  then have "map am_module (fw_actives (sched_fw F')) = [''fifo'', ''low'', ''low2'']"
    by (simp add: sample_fw_env_def sched_component_query_def run_init_def Let_def)
  then show ?thesis by (simp add: r)
qed

text \<open>
  Closing the meta-scheduler framework does not forget that it was
  selected: after a close and another open, selecting leaves no active module
  at all.
\<close>

theorem reopen_selects_nothing:
  assumes "fw_selected (meta_fw F)"
    and "dsched_dmeta_base_close E F s = (rc1, F1, s1)"
    and "dsched_dmeta_base_open E F1 s1 = (rc2, F2, s2)"
    and "dsched_dmeta_base_select E p F2 s2 = (rc3, F3, s3)"
  shows "fw_actives (meta_fw F3) = [] \<and> rc3 = PMIX_SUCCESS"
  using meta_ops.close_open_select [OF assms] by simp

theorem reopen_selects_nothing_witness:
  "fw_actives (meta_fw (fst (snd (dsched_dmeta_base_select sample_fw_env 0
     (fst (snd (dsched_dmeta_base_open sample_fw_env
       (fst (snd (dsched_dmeta_base_close sample_fw_env
          (sample_frameworks\<lparr>meta_fw := fw_static\<lparr>fw_selected := True, fw_initialized := True\<rparr>\<rparr>) 0)))
       0))) 0)))) = []"
proof -
  let ?F = "sample_frameworks\<lparr>meta_fw := fw_static\<lparr>fw_selected := True, fw_initialized := True\<rparr>\<rparr>"
  obtain rc1 F1 s1 where 1: "dsched_dmeta_base_close sample_fw_env ?F 0 = (rc1, F1, s1)"
    by (metis prod_cases3)
  have s1: "s1 = 0"
    using 1 by (simp add: dsched_dmeta_base_close_def base_close_def sample_fw_env_def
        sample_frameworks_def fw_static_def split: if_splits)
  obtain rc2 F2 s2 where 2: "dsched_dmeta_base_open sample_fw_env F1 0 = (rc2, F2, s2)"
    by (metis prod_cases3)
  have s2: "s2 = 0"
    using 2 by (simp add: dsched_dmeta_base_open_def base_open_def sample_fw_env_def)
  obtain rc3 F3 s3 where 3: "dsched_dmeta_base_select sample_fw_env 0 F2 0 = (rc3, F3, s3)"
    by (metis prod_cases3)
  show ?thesis
    using reopen_selects_nothing [OF _ 1, of rc2 F2 s2 0 rc3 F3 s3] 1 2 3 s1 s2 by simp
qed

text \<open>The call of one module, which is nothing when its function is null.\<close>

definition call_module ::
  "(string \<Rightarrow> ('d \<Rightarrow> 's \<Rightarrow> pmix_status \<times> 's) option) \<Rightarrow> 'd \<Rightarrow> active_module \<Rightarrow> 's \<Rightarrow> pmix_status \<times> 's" where
  "call_module fn d a s = (case fn (am_module a) of None \<Rightarrow> (PMIX_SUCCESS, s) | Some f \<Rightarrow> f d s)"

lemma dispatch_loop_append:
  "\<forall>a\<in>set xs. \<forall>s. fst (call_module fn d a s) = PMIX_SUCCESS \<Longrightarrow>
   dispatch_loop fn (xs @ ys) d s = dispatch_loop fn ys d (fold (\<lambda>a s. snd (call_module fn d a s)) xs s)"
  by (induction xs arbitrary: s) (auto simp: call_module_def split_beta split: option.splits)

text \<open>
  Logging calls the active modules in order of priority and stops at the
  first one that fails: the modules before it have run, the ones after it have
  not, and its status and effects are the result.
\<close>

theorem log_dispatch_first_error:
  assumes "fw_actives (log_fw F) = xs @ a # ys"
    and "\<forall>x\<in>set xs. \<forall>s. fst (call_module fn d x s) = PMIX_SUCCESS"
    and "s1 = fold (\<lambda>x s. snd (call_module fn d x s)) xs s"
    and "fst (call_module fn d a s1) \<noteq> PMIX_SUCCESS"
  shows "dsched_log_base_log fn F d s = call_module fn d a s1"
  using assms dispatch_loop_append [OF assms(2), of "a # ys" s]
  by (auto simp: dsched_log_base_log_def call_module_def split_beta split: option.splits)

definition sample_log_fn :: "string \<Rightarrow> (nat \<Rightarrow> nat list \<Rightarrow> pmix_status \<times> nat list) option" where
  "sample_log_fn m =
     Some (\<lambda>d s. (if m = ''bad'' then PMIX_ERROR else PMIX_SUCCESS, s @ [d]))"

definition sample_active :: "string \<Rightarrow> int \<Rightarrow> active_module" where
  "sample_active m p = \<lparr>am_pri = p, am_module = m, am_component = m\<rparr>"

definition sample_log_frameworks :: frameworks where
  "sample_log_frameworks = sample_frameworks\<lparr>log_fw := fw_static\<lparr>fw_actives :=
     [sample_active ''stdfd'' 9, sample_active ''bad'' 5, sample_active ''stdfd'' 1]\<rparr>\<rparr>"

theorem log_dispatch_first_error_witness:
  "dsched_log_base_log sample_log_fn sample_log_frameworks 7 [] = (PMIX_ERROR, [7, 7])"
proof -
  have call: "call_module sample_log_fn d (sample_active m p) s
      = (if m = ''bad'' then PMIX_ERROR else PMIX_SUCCESS, s @ [d])" for d m p s
    by (simp add: call_module_def sample_log_fn_def sample_active_def)
  have "dsched_log_base_log sample_log_fn sample_log_frameworks 7 []
      = call_module sample_log_fn 7 (sample_active ''bad'' 5) [7]"
    by (rule log_dispatch_first_error [where xs = "[sample_active ''stdfd'' 9]"
          and ys = "[sample_active ''stdfd'' 1]"])
      (simp_all add: sample_log_frameworks_def call)
  then show ?thesis by (simp add: call)
qed

end
