(* ===== verification/Sched_Objects.thy ===== *)
theory Sched_Objects
  imports Globals
begin

text \<open>
  The objects the scheduling pipeline passes between its threads
  (\<open>include/dsched_globals.h\<close>, constructors and destructors in
  \<open>include/dsched_globals.c\<close>), the store that holds them with their reference
  counts, the queue of pending events and the trace of replies.
\<close>

subsection \<open>Data\<close>

text \<open>
  The functions that are posted as events; \<open>CB_null\<close> is the null function
  pointer, \<open>CB_ext\<close> a function of a module that is not in the tree.
\<close>

datatype callback =
    CB_request_init | CB_session_control | CB_meta_base_schedule | CB_meta_base_cbfunc
  | CB_sched_base_schedule | CB_sched_base_cbfunc | CB_pri_sched | CB_pri_sched_cbfunc
  | CB_fifo_sched | CB_null | CB_ext nat

text \<open>The event bases: the main progress thread and those of the two modules.\<close>

datatype ebase = EB_main | EB_pri | EB_fifo | EB_ext nat

type_synonym event = "ebase \<times> callback \<times> ptr option"

record dsched_alloc =
  al_scheduler :: "string option"
  al_pri :: int
  al_allocation :: parray

record dsched_req =
  r_requestor :: pmix_proc
  r_directive :: u8
  r_index :: int
  r_copy :: bool
  r_data :: "pmix_info list"
  r_cbfunc :: "nat option"
  r_cbdata :: nat
  r_status :: pmix_status
  r_user_refid :: "string option"
  r_alloc_refid :: "string option"
  r_num_nodes :: int
  r_nlist :: "string option"
  r_exclude :: "string option"
  r_num_cpus :: int
  r_ncpulist :: "string option"
  r_cpulist :: "string option"
  r_memsize :: u32
  r_time :: "string option"
  r_queue :: "string option"
  r_preemptible :: bool
  r_lend :: "string option"
  r_image :: "string option"
  r_waitall :: bool
  r_share :: bool
  r_noshell :: bool
  r_dependency :: "string option"
  r_begintime :: "string option"
  r_sessionID :: u32
  r_received :: int
  r_allocation :: "ptr option"

record dsched_req_item =
  ri_req :: "ptr option"

record dsched_meta =
  mt_nactive :: int
  mt_nresponded :: int
  mt_req :: "ptr option"
  mt_activated :: "ptr option"

record dsched_op_tracker =
  tk_nactive :: int
  tk_nresponded :: int
  tk_cbdata :: "ptr option"

text \<open>The members of the shift caddy that the pipeline uses.\<close>

record dsched_shift_caddy =
  sc_order :: int
  sc_flag :: bool
  sc_req :: "ptr option"
  sc_mt :: "ptr option"
  sc_alloc :: "ptr option"
  sc_trk :: "ptr option"
  sc_allocations :: parray
  sc_evcbfunc :: callback

text \<open>
  Objects of different classes do not overlap: an object is named by its class
  and a pointer.
\<close>

datatype kind = KNode | KAlloc | KReq | KItem | KMeta | KTrk | KCad

type_synonym oid = "kind \<times> ptr"

text \<open>A reply: the request it is for, the function called and its arguments.\<close>

record reply =
  rp_req :: ptr
  rp_cbfunc :: nat
  rp_status :: pmix_status
  rp_cbdata :: nat

subsection \<open>Constructors\<close>

definition scon :: dsched_shift_caddy where
  "scon = \<lparr>sc_order = 0, sc_flag = False, sc_req = None, sc_mt = None, sc_alloc = None,
     sc_trk = None, sc_allocations = [], sc_evcbfunc = CB_null\<rparr>"

definition req_con :: "pmix_proc \<Rightarrow> dsched_req" where
  "req_con invalid =
     \<lparr>r_requestor = invalid, r_directive = 0, r_index = - 1, r_copy = False, r_data = [],
      r_cbfunc = None, r_cbdata = 0, r_status = PMIX_ERR_NOT_SUPPORTED,
      r_user_refid = None, r_alloc_refid = None, r_num_nodes = 0, r_nlist = None,
      r_exclude = None, r_num_cpus = 0, r_ncpulist = None, r_cpulist = None,
      r_memsize = 0, r_time = None, r_queue = None, r_preemptible = False,
      r_lend = None, r_image = None, r_waitall = False, r_share = False,
      r_noshell = False, r_dependency = None, r_begintime = None,
      r_sessionID = UINT32_MAX, r_received = 0, r_allocation = None\<rparr>"

definition drtcon :: dsched_req_item where
  "drtcon = \<lparr>ri_req = None\<rparr>"

definition alloc_con :: dsched_alloc where
  "alloc_con = \<lparr>al_scheduler = None, al_pri = 0, al_allocation = []\<rparr>"

definition dmetacon :: dsched_meta where
  "dmetacon = \<lparr>mt_nactive = 0, mt_nresponded = 0, mt_req = None, mt_activated = None\<rparr>"

definition tcon :: dsched_op_tracker where
  "tcon = \<lparr>tk_nactive = 0, tk_nresponded = 0, tk_cbdata = None\<rparr>"

subsection \<open>The state\<close>

text \<open>
  Objects are numbered in the order of their creation and numbers are not
  reused: \<open>freed\<close> has the objects whose storage was given back, and following
  a pointer to one of them is a fault. \<open>fifo_reqs\<close> is the list \<open>reqs\<close> of the
  fifo module; \<open>meta_actives\<close> and \<open>sched_actives\<close> name the active modules of
  the two frameworks in order.
\<close>

record world =
  glob :: dsched_globals
  w_nodes :: "ptr \<rightharpoonup> dsched_node"
  w_reqs :: "ptr \<rightharpoonup> dsched_req"
  w_items :: "ptr \<rightharpoonup> dsched_req_item"
  w_allocs :: "ptr \<rightharpoonup> dsched_alloc"
  w_metas :: "ptr \<rightharpoonup> dsched_meta"
  w_trks :: "ptr \<rightharpoonup> dsched_op_tracker"
  w_cads :: "ptr \<rightharpoonup> dsched_shift_caddy"
  refcnt :: "oid \<Rightarrow> int"
  freed :: "oid set"
  fresh :: ptr
  meta_actives :: "string list"
  sched_actives :: "string list"
  fifo_reqs :: "ptr list"
  events :: "event list"
  replies :: "reply list"

text \<open>
  The libraries the pipeline runs on: the functions of \<open>pmix_api\<close>, the object
  system, whether \<open>PMIX_RELEASE\<close> accepts a null pointer, the process name that
  \<open>PMIx_Load_procid\<close> makes of a null namespace, the functions of modules that
  are not in the tree, and what an uninitialised \<open>uint64_t\<close> holds.
\<close>

record sched_env = pmix_api +
  objs :: obj_api
  null_release_ok :: bool
  proc_invalid :: pmix_proc
  ext_meta :: "string \<Rightarrow> (ptr \<Rightarrow> bool \<Rightarrow> world \<Rightarrow> (pmix_status \<times> world) res) option"
  ext_sched :: "string \<Rightarrow> (ptr \<Rightarrow> int \<Rightarrow> world \<Rightarrow> (pmix_status \<times> world) res) option"
  uninit_u64 :: u64
  ext_event :: "nat \<Rightarrow> ptr option \<Rightarrow> world \<Rightarrow> world res"

definition live_get :: "world \<Rightarrow> kind \<Rightarrow> (ptr \<rightharpoonup> 'a) \<Rightarrow> ptr \<Rightarrow> 'a res" where
  "live_get w k st p = (if (k, p) \<in> freed w then Inl UseAfterFree else deref (st p))"

text \<open>\<open>PMIX_NEW\<close> without the constructor: a new object and its count.\<close>

definition obj_create :: "sched_env \<Rightarrow> kind \<Rightarrow> world \<Rightarrow> ptr \<times> world" where
  "obj_create E k w =
     (fresh w, w\<lparr>refcnt := (refcnt w)((k, fresh w) := obj_new (objs E)), fresh := Suc (fresh w)\<rparr>)"

definition obj_ref :: "sched_env \<Rightarrow> oid \<Rightarrow> world \<Rightarrow> world res" where
  "obj_ref E p w =
     (if p \<in> freed w then Inl UseAfterFree
      else Inr (w\<lparr>refcnt := (refcnt w)(p := obj_retain (objs E) (refcnt w p))\<rparr>))"

text \<open>\<open>PMIX_RELEASE\<close> without the destructor, with whether it has to run.\<close>

definition obj_unref :: "sched_env \<Rightarrow> oid \<Rightarrow> world \<Rightarrow> (bool \<times> world) res" where
  "obj_unref E p w =
     (if p \<in> freed w then Inl UseAfterFree
      else (let (n, dead) = obj_release (objs E) (refcnt w p)
            in Inr (dead, w\<lparr>refcnt := (refcnt w)(p := n), freed := (if dead then insert p (freed w) else freed w)\<rparr>)))"

definition release_null :: "sched_env \<Rightarrow> world \<Rightarrow> world res" where
  "release_null E w = (if null_release_ok E then Inr w else Inl NullDeref)"

text \<open>\<open>DSCHED_THREADSHIFT\<close>: the object's event becomes active on a base.\<close>

definition DSCHED_THREADSHIFT :: "ptr option \<Rightarrow> ebase \<Rightarrow> callback \<Rightarrow> world \<Rightarrow> world" where
  "DSCHED_THREADSHIFT x eb f w = w\<lparr>events := events w @ [(eb, f, x)]\<rparr>"

definition send_reply :: "ptr \<Rightarrow> dsched_req \<Rightarrow> pmix_status \<Rightarrow> world \<Rightarrow> world" where
  "send_reply r req status w =
     (case r_cbfunc req of
        None \<Rightarrow> w
      | Some f \<Rightarrow> w\<lparr>replies := replies w @
          [\<lparr>rp_req = r, rp_cbfunc = f, rp_status = status, rp_cbdata = r_cbdata req\<rparr>]\<rparr>)"

subsection \<open>Destructors\<close>

text \<open>
  Releasing an object of each class: when the last reference is gone its
  destructor runs, which releases the objects it refers to.
\<close>

definition release_node :: "sched_env \<Rightarrow> ptr \<Rightarrow> world \<Rightarrow> world res" where
  "release_node E p w =
     res_bind (obj_unref E (KNode, p) w) (\<lambda>(dead, w).
       Inr (if dead then w\<lparr>w_nodes := (w_nodes w)(p := map_option dsched_node_destruct (w_nodes w p))\<rparr>
            else w))"

definition alloc_des :: "sched_env \<Rightarrow> dsched_alloc \<Rightarrow> world \<Rightarrow> world res" where
  "alloc_des E al w = res_fold (release_node E) (pa_items (al_allocation al)) w"

definition release_alloc :: "sched_env \<Rightarrow> ptr \<Rightarrow> world \<Rightarrow> world res" where
  "release_alloc E p w =
     res_bind (live_get w KAlloc (w_allocs w) p) (\<lambda>al.
     res_bind (obj_unref E (KAlloc, p) w) (\<lambda>(dead, w).
       if dead then alloc_des E al w else Inr w))"

text \<open>The strings and the copied directives of a request are given back with it.\<close>

definition req_des :: "sched_env \<Rightarrow> dsched_req \<Rightarrow> world \<Rightarrow> world res" where
  "req_des E req w =
     (case r_allocation req of None \<Rightarrow> release_null E w | Some a \<Rightarrow> release_alloc E a w)"

definition release_req :: "sched_env \<Rightarrow> ptr \<Rightarrow> world \<Rightarrow> world res" where
  "release_req E p w =
     res_bind (live_get w KReq (w_reqs w) p) (\<lambda>req.
     res_bind (obj_unref E (KReq, p) w) (\<lambda>(dead, w).
       if dead then req_des E req w else Inr w))"

definition drtdes :: "sched_env \<Rightarrow> dsched_req_item \<Rightarrow> world \<Rightarrow> world res" where
  "drtdes E it w = (case ri_req it of None \<Rightarrow> Inr w | Some r \<Rightarrow> release_req E r w)"

definition release_item :: "sched_env \<Rightarrow> ptr \<Rightarrow> world \<Rightarrow> world res" where
  "release_item E p w =
     res_bind (live_get w KItem (w_items w) p) (\<lambda>it.
     res_bind (obj_unref E (KItem, p) w) (\<lambda>(dead, w).
       if dead then drtdes E it w else Inr w))"

definition dmetades :: "sched_env \<Rightarrow> dsched_meta \<Rightarrow> world \<Rightarrow> world res" where
  "dmetades E mt w =
     res_bind (case mt_req mt of None \<Rightarrow> Inr w | Some r \<Rightarrow> release_req E r w) (\<lambda>w.
       case mt_activated mt of None \<Rightarrow> Inr w | Some r \<Rightarrow> release_req E r w)"

definition release_meta :: "sched_env \<Rightarrow> ptr \<Rightarrow> world \<Rightarrow> world res" where
  "release_meta E p w =
     res_bind (live_get w KMeta (w_metas w) p) (\<lambda>mt.
     res_bind (obj_unref E (KMeta, p) w) (\<lambda>(dead, w).
       if dead then dmetades E mt w else Inr w))"

definition release_trk :: "sched_env \<Rightarrow> ptr \<Rightarrow> world \<Rightarrow> world res" where
  "release_trk E p w = res_bind (obj_unref E (KTrk, p) w) (\<lambda>(dead, w). Inr w)"

definition sdes :: "sched_env \<Rightarrow> dsched_shift_caddy \<Rightarrow> world \<Rightarrow> world res" where
  "sdes E cd w =
     res_bind (res_fold (release_alloc E) (pa_items (sc_allocations cd)) w) (\<lambda>w.
       case sc_trk cd of None \<Rightarrow> Inr w | Some t \<Rightarrow> release_trk E t w)"

definition release_caddy :: "sched_env \<Rightarrow> ptr \<Rightarrow> world \<Rightarrow> world res" where
  "release_caddy E p w =
     res_bind (live_get w KCad (w_cads w) p) (\<lambda>cd.
     res_bind (obj_unref E (KCad, p) w) (\<lambda>(dead, w).
       if dead then sdes E cd w else Inr w))"


subsection \<open>An instance of the libraries\<close>

text \<open>
  Libraries that behave as documented, and the state before the first request
  with the nodes of the global table: the witnesses of the properties use them.
\<close>

definition ref_env :: sched_env where
  "ref_env =
     \<lparr>get_u32 = (\<lambda>v d. case v of VNumber n \<Rightarrow> (PMIX_SUCCESS, word_of_int n) | _ \<Rightarrow> (PMIX_ERR_BAD_PARAM, d)),
      get_u64 = (\<lambda>v d. case v of VNumber n \<Rightarrow> (PMIX_SUCCESS, word_of_int n) | _ \<Rightarrow> (PMIX_ERR_BAD_PARAM, d)),
      get_float = (\<lambda>v d. case v of VNumber n \<Rightarrow> (PMIX_SUCCESS, word_of_int n) | _ \<Rightarrow> (PMIX_ERR_BAD_PARAM, d)),
      get_pid = (\<lambda>v d. case v of VNumber n \<Rightarrow> (PMIX_SUCCESS, word_of_int n) | _ \<Rightarrow> (PMIX_ERR_BAD_PARAM, d)),
      val_true = (\<lambda>v. v = VBool True), pa_add = ref_add, pa_set = ref_set,
      list_first = (\<lambda>xs. case xs of [] \<Rightarrow> LEnd | x # _ \<Rightarrow> LItem x), load_nspace = take 255,
      objs = \<lparr>obj_new = 1, obj_retain = (\<lambda>n. n + 1), obj_release = (\<lambda>n. (n - 1, n = 1))\<rparr>,
      null_release_ok = False, proc_invalid = \<lparr>p_nspace = [], p_rank = - 2\<rparr>,
      ext_meta = (\<lambda>m. None), ext_sched = (\<lambda>m. None), uninit_u64 = 0,
      ext_event = (\<lambda>n x w. Inr w)\<rparr>"

definition start_world :: "dsched_globals \<Rightarrow> (ptr \<rightharpoonup> dsched_node) \<Rightarrow> ptr \<Rightarrow> world" where
  "start_world g nodes n =
     \<lparr>glob = g, w_nodes = nodes, w_reqs = Map.empty, w_items = Map.empty, w_allocs = Map.empty,
      w_metas = Map.empty, w_trks = Map.empty, w_cads = Map.empty, refcnt = (\<lambda>ob. 1), freed = {},
      fresh = n, meta_actives = [''pri''], sched_actives = [''fifo''], fifo_reqs = [], events = [],
      replies = []\<rparr>"

end
