(* ===== verification/Alloc_Request.thy ===== *)
theory Alloc_Request
  imports Sched_Objects
begin

text \<open>
  Allocation and session requests (\<open>tools/dsched/session.c\<close>): the upcalls that
  queue a request, the parsing of its directives and its entry into the
  scheduling pipeline.
\<close>

subsection \<open>Directives\<close>

text \<open>
  The variables of the loop: the request, \<open>u64\<close>, the first error and whether
  the requestor waits.
\<close>

record init_vars =
  iv_req :: dsched_req
  iv_u64 :: u64
  iv_rcerr :: pmix_status
  iv_notwaiting :: bool

text \<open>Track the first error.\<close>

definition track_error :: "pmix_status \<Rightarrow> init_vars \<Rightarrow> init_vars" where
  "track_error rc v =
     (if rc \<noteq> PMIX_SUCCESS \<and> iv_rcerr v = PMIX_SUCCESS then v\<lparr>iv_rcerr := rc\<rparr> else v)"

definition set_req :: "(dsched_req \<Rightarrow> dsched_req) \<Rightarrow> init_vars \<Rightarrow> init_vars" where
  "set_req f v = v\<lparr>iv_req := f (iv_req v)\<rparr>"

definition init_string ::
  "pmix_info \<Rightarrow> (string option \<Rightarrow> dsched_req \<Rightarrow> dsched_req) \<Rightarrow> init_vars \<Rightarrow> init_vars res" where
  "init_string i upd v = res_bind (data_string (i_val i)) (\<lambda>s. Inr (set_req (upd (Some s)) v))"

definition init_count ::
  "'z pmix_api_scheme \<Rightarrow> pmix_info \<Rightarrow> (int \<Rightarrow> dsched_req \<Rightarrow> dsched_req) \<Rightarrow> init_vars \<Rightarrow> init_vars res" where
  "init_count E i upd v =
     (let (rc, u64) = get_u64 E (i_val i) (iv_u64 v); v = v\<lparr>iv_u64 := u64\<rparr>
      in Inr (if rc \<noteq> PMIX_SUCCESS then track_error rc v else set_req (upd (int_of_u64 u64)) v))"

text \<open>The body of the loop over the directives.\<close>

definition init_directive ::
  "'z pmix_api_scheme \<Rightarrow> pmix_info \<Rightarrow> init_vars \<Rightarrow> init_vars res" where
  "init_directive E i v =
     (if i_key i = PMIX_ALLOC_REQ_ID then init_string i (\<lambda>s. r_user_refid_update (\<lambda>_. s)) v
      else if i_key i = PMIX_ALLOC_ID then init_string i (\<lambda>s. r_alloc_refid_update (\<lambda>_. s)) v
      else if i_key i = PMIX_SESSION_ID then
        (let (rc, x) = get_u32 E (i_val i) (r_sessionID (iv_req v))
         in Inr (track_error rc (set_req (r_sessionID_update (\<lambda>_. x)) v)))
      else if i_key i = PMIX_ALLOC_NUM_NODES then
        init_count E i (\<lambda>n. r_num_nodes_update (\<lambda>_. n)) v
      else if i_key i = PMIX_ALLOC_NODE_LIST then init_string i (\<lambda>s. r_nlist_update (\<lambda>_. s)) v
      else if i_key i = PMIX_ALLOC_EXCLUDE then init_string i (\<lambda>s. r_exclude_update (\<lambda>_. s)) v
      else if i_key i = PMIX_ALLOC_NUM_CPUS then
        init_count E i (\<lambda>n. r_num_cpus_update (\<lambda>_. n)) v
      else if i_key i = PMIX_ALLOC_NUM_CPU_LIST then
        init_string i (\<lambda>s. r_ncpulist_update (\<lambda>_. s)) v
      else if i_key i = PMIX_ALLOC_CPU_LIST then init_string i (\<lambda>s. r_cpulist_update (\<lambda>_. s)) v
      else if i_key i = PMIX_ALLOC_MEM_SIZE then
        (let (rc, x) = get_float E (i_val i) (r_memsize (iv_req v))
         in Inr (track_error rc (set_req (r_memsize_update (\<lambda>_. x)) v)))
      else if i_key i = PMIX_ALLOC_TIME then init_string i (\<lambda>s. r_time_update (\<lambda>_. s)) v
      else if i_key i = PMIX_ALLOC_QUEUE then init_string i (\<lambda>s. r_queue_update (\<lambda>_. s)) v
      else if i_key i = PMIX_ALLOC_PREEMPTIBLE then
        Inr (set_req (r_preemptible_update (\<lambda>_. val_true E (i_val i))) v)
      else if i_key i = PMIX_ALLOC_LEND then init_string i (\<lambda>s. r_lend_update (\<lambda>_. s)) v
      else if i_key i = PMIX_ALLOC_IMAGE then init_string i (\<lambda>s. r_image_update (\<lambda>_. s)) v
      else if i_key i = PMIX_ALLOC_WAIT_ALL_NODES then
        Inr (set_req (r_waitall_update (\<lambda>_. val_true E (i_val i))) v)
      else if i_key i = PMIX_ALLOC_SHARE then
        Inr (set_req (r_share_update (\<lambda>_. val_true E (i_val i))) v)
      else if i_key i = PMIX_ALLOC_NOSHELL then
        Inr (set_req (r_noshell_update (\<lambda>_. val_true E (i_val i))) v)
      else if i_key i = PMIX_ALLOC_DEPENDENCY then
        init_string i (\<lambda>s. r_dependency_update (\<lambda>_. s)) v
      else if i_key i = PMIX_ALLOC_BEGIN then init_string i (\<lambda>s. r_begintime_update (\<lambda>_. s)) v
      else if i_key i = PMIX_ALLOC_NOT_WAITING then Inr (v\<lparr>iv_notwaiting := True\<rparr>)
      else Inr v)"

subsection \<open>Handlers\<close>

text \<open>\<open>u64\<close> is what the uninitialised variable holds.\<close>

definition parse_directives ::
  "'z pmix_api_scheme \<Rightarrow> u64 \<Rightarrow> dsched_req \<Rightarrow> init_vars res" where
  "parse_directives E u64 req =
     res_fold (init_directive E) (r_data req)
       \<lparr>iv_req = req, iv_u64 = u64, iv_rcerr = PMIX_SUCCESS, iv_notwaiting = False\<rparr>"

definition request_init :: "sched_env \<Rightarrow> ptr option \<Rightarrow> world \<Rightarrow> world res" where
  "request_init E cbdata w =
     res_bind (deref cbdata) (\<lambda>r.
     res_bind (live_get w KReq (w_reqs w) r) (\<lambda>req.
     res_bind (parse_directives E (uninit_u64 E) req) (\<lambda>v.
       if iv_rcerr v = PMIX_SUCCESS then
         (let (a, idx) = pa_add E (g_requests (glob w)) r;
              req = (iv_req v)\<lparr>r_index := idx\<rparr>;
              w = w\<lparr>glob := (glob w)\<lparr>g_requests := a\<rparr>, w_reqs := (w_reqs w)(r \<mapsto> req)\<rparr>;
              w = DSCHED_THREADSHIFT (Some r) EB_main CB_meta_base_schedule w
          in Inr (if iv_notwaiting v then send_reply r req (iv_rcerr v) w else w))
       else
         (let w = w\<lparr>w_reqs := (w_reqs w)(r \<mapsto> iv_req v)\<rparr>
          in release_req E r (send_reply r (iv_req v) (iv_rcerr v) w)))))"

text \<open>\<open>now\<close> is what \<open>time\<close> returns.\<close>

definition dsched_alloc_fn ::
  "sched_env \<Rightarrow> pmix_proc \<Rightarrow> u8 \<Rightarrow> pmix_info list \<Rightarrow> nat option \<Rightarrow> nat \<Rightarrow> int \<Rightarrow> world
     \<Rightarrow> pmix_status \<times> world" where
  "dsched_alloc_fn E client directive data cbfunc cbdata now w =
     (let (r, w) = obj_create E KReq w;
          req = (req_con (proc_invalid E))
            \<lparr>r_requestor := \<lparr>p_nspace = load_nspace E (p_nspace client), p_rank = p_rank client\<rparr>,
             r_directive := directive, r_data := data, r_cbfunc := cbfunc, r_cbdata := cbdata,
             r_received := now\<rparr>;
          w = w\<lparr>w_reqs := (w_reqs w)(r \<mapsto> req)\<rparr>
      in (PMIX_SUCCESS, DSCHED_THREADSHIFT (Some r) EB_main CB_request_init w))"

definition session_control :: "ptr option \<Rightarrow> world \<Rightarrow> world res" where
  "session_control cbdata w = Inr w"

definition dsched_session_ctrl_fn ::
  "sched_env \<Rightarrow> pmix_proc \<Rightarrow> u32 \<Rightarrow> pmix_info list \<Rightarrow> nat option \<Rightarrow> nat \<Rightarrow> world
     \<Rightarrow> pmix_status \<times> world" where
  "dsched_session_ctrl_fn E requestor sessionID directives cbfunc cbdata w =
     (let (r, w) = obj_create E KReq w;
          req = (req_con (proc_invalid E))
            \<lparr>r_requestor := \<lparr>p_nspace = load_nspace E (p_nspace requestor), p_rank = p_rank requestor\<rparr>,
             r_sessionID := sessionID, r_data := directives, r_cbfunc := cbfunc, r_cbdata := cbdata\<rparr>;
          w = w\<lparr>w_reqs := (w_reqs w)(r \<mapsto> req)\<rparr>
      in (PMIX_SUCCESS, DSCHED_THREADSHIFT (Some r) EB_main CB_session_control w))"


subsection \<open>What the directives change\<close>

text \<open>The members of a request that no directive touches.\<close>

definition req_frame :: "dsched_req \<Rightarrow> dsched_req \<Rightarrow> bool" where
  "req_frame req req' \<longleftrightarrow>
     r_requestor req' = r_requestor req \<and> r_directive req' = r_directive req
   \<and> r_index req' = r_index req \<and> r_data req' = r_data req \<and> r_cbfunc req' = r_cbfunc req
   \<and> r_cbdata req' = r_cbdata req \<and> r_status req' = r_status req
   \<and> r_received req' = r_received req \<and> r_allocation req' = r_allocation req"

lemma req_frame_refl [simp]: "req_frame req req"
  by (simp add: req_frame_def)

lemma req_frame_trans: "req_frame a b \<Longrightarrow> req_frame b c \<Longrightarrow> req_frame a c"
  by (simp add: req_frame_def)

lemma track_error_req [simp]:
  "iv_req (track_error rc v) = iv_req v" "iv_notwaiting (track_error rc v) = iv_notwaiting v"
  by (simp_all add: track_error_def)

lemma init_directive_frame:
  assumes "init_directive E i v = Inr v'"
  shows "req_frame (iv_req v) (iv_req v')"
    and "iv_notwaiting v' \<longleftrightarrow> iv_notwaiting v \<or> i_key i = PMIX_ALLOC_NOT_WAITING"
  using assms
  by (simp_all add: init_directive_def init_string_def init_count_def set_req_def req_frame_def
      split_beta Let_def split: if_splits) auto

lemma parse_directives_frame:
  assumes "parse_directives E u req = Inr v"
  shows "req_frame req (iv_req v)"
    and "iv_notwaiting v \<longleftrightarrow> PMIX_ALLOC_NOT_WAITING \<in> i_key ` set (r_data req)"
proof -
  have "req_frame (iv_req a) (iv_req v)
      \<and> (iv_notwaiting v \<longleftrightarrow> iv_notwaiting a \<or> PMIX_ALLOC_NOT_WAITING \<in> i_key ` set ds)"
    if "res_fold (init_directive E) ds a = Inr v" for ds a
    using that
  proof (induction ds arbitrary: a)
    case (Cons i ds)
    then obtain b where "init_directive E i a = Inr b" "res_fold (init_directive E) ds b = Inr v"
      by auto
    with Cons.IH [of b] init_directive_frame [of E i a b] show ?case
      by (auto intro: req_frame_trans)
  qed simp
  from this [OF assms [unfolded parse_directives_def]]
  show "req_frame req (iv_req v)"
    and "iv_notwaiting v \<longleftrightarrow> PMIX_ALLOC_NOT_WAITING \<in> i_key ` set (r_data req)"
    by simp_all
qed

end
