(* ===== verification/Meta_Framework.thy ===== *)
theory Meta_Framework
  imports Sched_Objects
begin

text \<open>
  The meta-scheduler framework (\<open>mca/dmeta/base/meta_base_frame.c\<close>) and its
  priority module (\<open>mca/dmeta/pri/meta_pri.c\<close>): a request is handed to every
  active module; the priority module passes it to the schedulers and keeps the
  allocation with the best priority; when all modules have responded the
  requestor gets its reply.
\<close>

subsection \<open>The priority module\<close>

text \<open>The loop that looks for the best allocation.\<close>

fun best_loop :: "world \<Rightarrow> ptr list \<Rightarrow> (ptr \<times> int) option \<Rightarrow> (ptr \<times> int) option res" where
  "best_loop w [] best = Inr best"
| "best_loop w (a # as) best =
     res_bind (live_get w KAlloc (w_allocs w) a) (\<lambda>alloc.
       best_loop w as
         (case best of
            None \<Rightarrow> Some (a, al_pri alloc)
          | Some (b, p) \<Rightarrow> (if al_pri alloc < p then Some (a, al_pri alloc) else best)))"

definition pri_sched_cbfunc :: "sched_env \<Rightarrow> ptr option \<Rightarrow> world \<Rightarrow> world res" where
  "pri_sched_cbfunc E cbdata w =
     res_bind (deref cbdata) (\<lambda>c.
     res_bind (live_get w KCad (w_cads w) c) (\<lambda>cd.
     res_bind
       (if sc_flag cd then
          res_bind (best_loop w (pa_items (sc_allocations cd)) None) (\<lambda>best.
            case best of
              None \<Rightarrow> Inr w
            | Some (b, _) \<Rightarrow>
                res_bind (deref (sc_mt cd)) (\<lambda>m.
                res_bind (live_get w KMeta (w_metas w) m) (\<lambda>mt.
                res_bind (deref (mt_req mt)) (\<lambda>r.
                res_bind (live_get w KReq (w_reqs w) r) (\<lambda>req.
                  Inr (w\<lparr>w_reqs := (w_reqs w)
                    (r \<mapsto> req\<lparr>r_allocation := Some b, r_status := PMIX_SUCCESS\<rparr>)\<rparr>))))))
        else Inr w) (\<lambda>w.
     Inr (DSCHED_THREADSHIFT (Some c) EB_main CB_meta_base_cbfunc w))))"

definition pri_sched :: "sched_env \<Rightarrow> ptr option \<Rightarrow> world \<Rightarrow> world res" where
  "pri_sched E cbdata w =
     res_bind (deref cbdata) (\<lambda>c.
     res_bind (live_get w KCad (w_cads w) c) (\<lambda>cd.
       let w = w\<lparr>w_cads := (w_cads w)(c \<mapsto> cd\<lparr>sc_evcbfunc := CB_pri_sched_cbfunc\<rparr>)\<rparr>
       in Inr (DSCHED_THREADSHIFT (Some c) EB_main CB_sched_base_schedule w)))"

definition pri_myschedule ::
  "sched_env \<Rightarrow> ptr \<Rightarrow> bool \<Rightarrow> world \<Rightarrow> (pmix_status \<times> world) res" where
  "pri_myschedule E m assign w =
     (let (c, w) = obj_create E KCad w;
          w = w\<lparr>w_cads := (w_cads w)(c \<mapsto> scon\<lparr>sc_mt := Some m, sc_flag := assign\<rparr>)\<rparr>
      in Inr (PMIX_OPERATION_IN_PROGRESS, DSCHED_THREADSHIFT (Some c) EB_pri CB_pri_sched w))"

subsection \<open>The base\<close>

text \<open>The \<open>schedule\<close> function of a module, by its name.\<close>

definition meta_schedule_fn ::
  "sched_env \<Rightarrow> string \<Rightarrow> (ptr \<Rightarrow> bool \<Rightarrow> world \<Rightarrow> (pmix_status \<times> world) res) option" where
  "meta_schedule_fn E name = (if name = ''pri'' then Some (pri_myschedule E) else ext_meta E name)"

definition in_progress :: "pmix_status \<Rightarrow> bool" where
  "in_progress rc \<longleftrightarrow> rc = PMIX_SUCCESS \<or> rc = PMIX_OPERATION_IN_PROGRESS"

definition meta_responded :: "ptr \<Rightarrow> world \<Rightarrow> world res" where
  "meta_responded m w =
     res_bind (live_get w KMeta (w_metas w) m) (\<lambda>mt.
       Inr (w\<lparr>w_metas := (w_metas w)(m \<mapsto> mt\<lparr>mt_nresponded := mt_nresponded mt + 1\<rparr>)\<rparr>))"

fun meta_schedule_loop ::
  "sched_env \<Rightarrow> string list \<Rightarrow> ptr \<Rightarrow> bool \<Rightarrow> world \<Rightarrow> world res" where
  "meta_schedule_loop E [] m assign w = Inr w"
| "meta_schedule_loop E (name # names) m assign w =
     (case meta_schedule_fn E name of
        None \<Rightarrow> meta_schedule_loop E names m assign w
      | Some schedule \<Rightarrow>
          res_bind (schedule m assign w) (\<lambda>(rc, w).
            if \<not> in_progress rc
            then res_bind (meta_responded m w) (meta_schedule_loop E names m assign)
            else meta_schedule_loop E names m False w))"

definition dsched_meta_base_schedule :: "sched_env \<Rightarrow> ptr option \<Rightarrow> world \<Rightarrow> world res" where
  "dsched_meta_base_schedule E cbdata w =
     (let (m, w) = obj_create E KMeta w
      in res_bind (case cbdata of None \<Rightarrow> Inr w | Some r \<Rightarrow> obj_ref E (KReq, r) w) (\<lambda>w.
         let w = w\<lparr>w_metas := (w_metas w)(m \<mapsto> dmetacon
               \<lparr>mt_req := cbdata, mt_nactive := int (length (meta_actives w))\<rparr>)\<rparr>
         in res_bind (meta_schedule_loop E (meta_actives w) m True w) (\<lambda>w.
            res_bind (live_get w KMeta (w_metas w) m) (\<lambda>mt.
              if mt_nactive mt = mt_nresponded mt then
                res_bind (deref cbdata) (\<lambda>r.
                res_bind (live_get w KReq (w_reqs w) r) (\<lambda>req.
                  let w = w\<lparr>w_reqs := (w_reqs w)(r \<mapsto> req\<lparr>r_status := PMIX_ERR_NOT_AVAILABLE\<rparr>)\<rparr>;
                      (c, w) = obj_create E KCad w;
                      w = w\<lparr>w_cads := (w_cads w)(c \<mapsto> scon\<lparr>sc_mt := Some m\<rparr>)\<rparr>
                  in Inr (DSCHED_THREADSHIFT (Some c) EB_main CB_meta_base_cbfunc w)))
              else Inr w))))"

definition dsched_meta_base_cbfunc :: "sched_env \<Rightarrow> ptr option \<Rightarrow> world \<Rightarrow> world res" where
  "dsched_meta_base_cbfunc E cbdata w =
     res_bind (deref cbdata) (\<lambda>c.
     res_bind (live_get w KCad (w_cads w) c) (\<lambda>cd.
     res_bind (deref (sc_mt cd)) (\<lambda>m.
     res_bind (meta_responded m w) (\<lambda>w.
     res_bind (live_get w KMeta (w_metas w) m) (\<lambda>mt.
     res_bind
       (if mt_nresponded mt = mt_nactive mt then
          res_bind
            (case mt_req mt of
               None \<Rightarrow> Inr w
             | Some r \<Rightarrow>
                 res_bind (live_get w KReq (w_reqs w) r) (\<lambda>req.
                   let w = send_reply r req (r_status req) w;
                       w = w\<lparr>glob := (glob w)\<lparr>g_requests :=
                             pa_set E (g_requests (glob w)) (r_index req) None\<rparr>\<rparr>
                   in release_req E r w))
            (release_meta E m)
        else Inr w)
       (release_caddy E c))))))"


subsection \<open>Properties\<close>

text \<open>The best of a list: its first element with the least priority number.\<close>

definition first_least :: "('a \<Rightarrow> int) \<Rightarrow> 'a list \<Rightarrow> 'a option" where
  "first_least pri xs = (case sort_key pri xs of [] \<Rightarrow> None | x # _ \<Rightarrow> Some x)"

lemma first_least_two:
  "first_least pri (b # x # xs) = first_least pri ((if pri x < pri b then x else b) # xs)"
proof -
  have "sorted (map pri (sort_key pri xs))" by simp
  then show ?thesis
    by (cases "sort_key pri xs") (auto simp: first_least_def)
qed

lemma best_loop_first:
  assumes "\<forall>a\<in>set as. (KAlloc, a) \<notin> freed w \<and> w_allocs w a \<noteq> None"
    and "pri = (\<lambda>a. al_pri (the (w_allocs w a)))"
  shows "best_loop w as (Some (b, pri b)) = Inr (map_option (\<lambda>a. (a, pri a)) (first_least pri (b # as)))"
  using assms(1)
proof (induction as arbitrary: b)
  case Nil
  then show ?case by (simp add: first_least_def)
next
  case (Cons a as)
  have "best_loop w (a # as) (Some (b, pri b))
      = best_loop w as (Some (if pri a < pri b then a else b, pri (if pri a < pri b then a else b)))"
    using Cons.prems assms(2) by (auto simp: live_get_def)
  also have "\<dots> = Inr (map_option (\<lambda>a. (a, pri a)) (first_least pri ((if pri a < pri b then a else b) # as)))"
    using Cons by simp
  finally show ?case by (simp only: first_least_two)
qed

lemma best_loop_eq:
  assumes "\<forall>a\<in>set as. (KAlloc, a) \<notin> freed w \<and> w_allocs w a \<noteq> None"
    and "pri = (\<lambda>a. al_pri (the (w_allocs w a)))"
  shows "best_loop w as None = Inr (map_option (\<lambda>a. (a, pri a)) (first_least pri as))"
proof (cases as)
  case (Cons a as')
  have "best_loop w as None = best_loop w as' (Some (a, pri a))"
    using assms Cons by (auto simp: live_get_def)
  with best_loop_first [of as' w pri a] assms Cons show ?thesis by simp
qed (simp add: first_least_def)

text \<open>
  C7. When the schedulers have responded and the meta-scheduler may assign, the
  request gets the allocation with the least priority number, the first one
  among equals, and the status of success; it is left as it is when there is
  no allocation or when the meta-scheduler may not assign. In every case the
  event goes back to the base.
\<close>

theorem pri_takes_best:
  assumes "(KCad, c) \<notin> freed w" "w_cads w c = Some cd"
    and "sc_mt cd = Some m" "(KMeta, m) \<notin> freed w" "w_metas w m = Some mt"
    and "mt_req mt = Some r" "(KReq, r) \<notin> freed w" "w_reqs w r = Some req"
    and "\<forall>a\<in>set (pa_items (sc_allocations cd)). (KAlloc, a) \<notin> freed w \<and> w_allocs w a \<noteq> None"
  shows "pri_sched_cbfunc E (Some c) w = Inr (w
     \<lparr>w_reqs := (w_reqs w)(r \<mapsto>
        (case if sc_flag cd then first_least (\<lambda>a. al_pri (the (w_allocs w a))) (pa_items (sc_allocations cd))
              else None of
           None \<Rightarrow> req
         | Some a \<Rightarrow> req\<lparr>r_allocation := Some a, r_status := PMIX_SUCCESS\<rparr>)),
      events := events w @ [(EB_main, CB_meta_base_cbfunc, Some c)]\<rparr>)"
proof (cases "sc_flag cd")
  case True
  then show ?thesis
    using assms best_loop_eq [OF assms(9) refl]
    by (cases "first_least (\<lambda>a. al_pri (the (w_allocs w a))) (pa_items (sc_allocations cd))")
      (simp_all add: pri_sched_cbfunc_def live_get_def DSCHED_THREADSHIFT_def fun_upd_idem)
next
  case False
  then show ?thesis
    using assms by (simp add: pri_sched_cbfunc_def live_get_def DSCHED_THREADSHIFT_def fun_upd_idem)
qed


definition sample_best_world :: world where
  "sample_best_world = (start_world sample_globals sample_nodes 10)
     \<lparr>w_cads := [3 \<mapsto> scon\<lparr>sc_mt := Some 4, sc_flag := True, sc_allocations := [Some 6, None, Some 7]\<rparr>],
      w_metas := [4 \<mapsto> dmetacon\<lparr>mt_req := Some 5\<rparr>],
      w_reqs := [5 \<mapsto> req_con \<lparr>p_nspace = [], p_rank = 0\<rparr>],
      w_allocs := [6 \<mapsto> alloc_con\<lparr>al_pri := 2\<rparr>, 7 \<mapsto> alloc_con\<lparr>al_pri := 1\<rparr>]\<rparr>"

theorem pri_takes_best_witness:
  "\<exists>w. pri_sched_cbfunc ref_env (Some 3) sample_best_world = Inr w
     \<and> map_option r_allocation (w_reqs w 5) = Some (Some 7)"
  using pri_takes_best [of 3 sample_best_world
      "scon\<lparr>sc_mt := Some 4, sc_flag := True, sc_allocations := [Some 6, None, Some 7]\<rparr>" 4
      "dmetacon\<lparr>mt_req := Some 5\<rparr>" 5 "req_con \<lparr>p_nspace = [], p_rank = 0\<rparr>" ref_env]
  by (simp add: sample_best_world_def start_world_def scon_def dmetacon_def alloc_con_def pa_items_def
      first_least_def)

end
