(* ===== verification/Sched_Framework.thy ===== *)
theory Sched_Framework
  imports Sched_Objects
begin

text \<open>
  The scheduler framework (\<open>mca/dsched/base/sched_base_frame.c\<close>) and its fifo
  module (\<open>mca/dsched/fifo/sched_fifo.c\<close>): every active scheduler computes an
  allocation on its own thread and responds to the base, which collects the
  allocations and returns to the meta-scheduler.
\<close>

subsection \<open>The fifo module\<close>

text \<open>
  The loop over the node pool: adds nodes until \<open>cnt\<close> equals the number asked
  for. The empty slots have been left out of the list.
\<close>

fun fifo_node_loop ::
  "'z pmix_api_scheme \<Rightarrow> int \<Rightarrow> ptr list \<Rightarrow> int \<Rightarrow> parray \<Rightarrow> parray" where
  "fifo_node_loop E num_nodes [] cnt a = a"
| "fifo_node_loop E num_nodes (p # ps) cnt a =
     (let a = fst (pa_add E a p); cnt = cnt + 1
      in if cnt = num_nodes then a else fifo_node_loop E num_nodes ps cnt a)"

text \<open>Put the incoming request on the internal list.\<close>

definition fifo_enqueue :: "sched_env \<Rightarrow> ptr \<Rightarrow> world \<Rightarrow> world res" where
  "fifo_enqueue E r w =
     (let (i, w) = obj_create E KItem w
      in res_bind (obj_ref E (KReq, r) w) (\<lambda>w.
         Inr (w\<lparr>w_items := (w_items w)(i \<mapsto> drtcon\<lparr>ri_req := Some r\<rparr>),
                fifo_reqs := fifo_reqs w @ [i]\<rparr>)))"

text \<open>The allocation for the first request of the list.\<close>

definition fifo_allocate :: "sched_env \<Rightarrow> ptr \<Rightarrow> ptr \<Rightarrow> int \<Rightarrow> world \<Rightarrow> world res" where
  "fifo_allocate E c r num_nodes w =
     (let (a, w) = obj_create E KAlloc w
      in res_bind (live_get w KCad (w_cads w) c) (\<lambda>cd.
         Inr (w\<lparr>w_allocs := (w_allocs w)(a \<mapsto>
                  \<lparr>al_scheduler = Some ''fifo'', al_pri = sc_order cd,
                   al_allocation = fifo_node_loop E num_nodes (pa_items (g_nodes (glob w))) 0 []\<rparr>),
                w_cads := (w_cads w)(c \<mapsto> cd\<lparr>sc_alloc := Some a, sc_req := Some r\<rparr>)\<rparr>)))"

definition fifo_sched :: "sched_env \<Rightarrow> ptr option \<Rightarrow> world \<Rightarrow> world res" where
  "fifo_sched E cbdata w =
     res_bind (deref cbdata) (\<lambda>c.
     res_bind (live_get w KCad (w_cads w) c) (\<lambda>cd.
     res_bind (case sc_req cd of None \<Rightarrow> Inr w | Some r \<Rightarrow> fifo_enqueue E r w) (\<lambda>w.
       case list_first E (fifo_reqs w) of
         LNull \<Rightarrow> Inr (DSCHED_THREADSHIFT (Some c) EB_main CB_sched_base_cbfunc w)
       | LEnd \<Rightarrow> Inl SentinelDeref
       | LItem i \<Rightarrow>
           res_bind (live_get w KItem (w_items w) i) (\<lambda>it.
           res_bind (deref (ri_req it)) (\<lambda>r.
           res_bind (live_get w KReq (w_reqs w) r) (\<lambda>req.
           res_bind
             (if r_num_nodes req < g_avail_nnodes (glob w)
              then fifo_allocate E c r (r_num_nodes req) w else Inr w) (\<lambda>w.
           Inr (DSCHED_THREADSHIFT (Some c) EB_main CB_sched_base_cbfunc w))))))))"

definition fifo_schedule ::
  "sched_env \<Rightarrow> ptr \<Rightarrow> int \<Rightarrow> world \<Rightarrow> (pmix_status \<times> world) res" where
  "fifo_schedule E s order w =
     (let (c, w) = obj_create E KCad w
      in res_bind (live_get w KCad (w_cads w) s) (\<lambda>scd.
         res_bind (deref (sc_mt scd)) (\<lambda>m.
         res_bind (live_get w KMeta (w_metas w) m) (\<lambda>mt.
           let w = w\<lparr>w_cads := (w_cads w)(c \<mapsto>
                 scon\<lparr>sc_order := order, sc_req := mt_req mt, sc_trk := sc_trk scd\<rparr>)\<rparr>
           in Inr (PMIX_OPERATION_IN_PROGRESS,
                DSCHED_THREADSHIFT (Some c) EB_fifo CB_fifo_sched w)))))"

definition fifo_finalize :: "sched_env \<Rightarrow> world \<Rightarrow> world res" where
  "fifo_finalize E w =
     res_bind (res_fold (release_item E) (fifo_reqs w) w) (\<lambda>w. Inr (w\<lparr>fifo_reqs := []\<rparr>))"

subsection \<open>The base\<close>

definition sched_schedule_fn ::
  "sched_env \<Rightarrow> string \<Rightarrow> (ptr \<Rightarrow> int \<Rightarrow> world \<Rightarrow> (pmix_status \<times> world) res) option" where
  "sched_schedule_fn E name = (if name = ''fifo'' then Some (fifo_schedule E) else ext_sched E name)"

definition trk_responded :: "ptr \<Rightarrow> world \<Rightarrow> world res" where
  "trk_responded t w =
     res_bind (live_get w KTrk (w_trks w) t) (\<lambda>trk.
       Inr (w\<lparr>w_trks := (w_trks w)(t \<mapsto> trk\<lparr>tk_nresponded := tk_nresponded trk + 1\<rparr>)\<rparr>))"

fun sched_schedule_loop ::
  "sched_env \<Rightarrow> string list \<Rightarrow> ptr \<Rightarrow> ptr \<Rightarrow> int \<Rightarrow> world \<Rightarrow> world res" where
  "sched_schedule_loop E [] c t order w = Inr w"
| "sched_schedule_loop E (name # names) c t order w =
     (case sched_schedule_fn E name of
        None \<Rightarrow> sched_schedule_loop E names c t order w
      | Some schedule \<Rightarrow>
          res_bind (schedule c order w) (\<lambda>(rc, w).
            res_bind
              (if rc \<noteq> PMIX_SUCCESS \<and> rc \<noteq> PMIX_OPERATION_IN_PROGRESS
               then trk_responded t w else Inr w)
              (sched_schedule_loop E names c t (order + 1))))"

definition dsched_sched_base_schedule :: "sched_env \<Rightarrow> ptr option \<Rightarrow> world \<Rightarrow> world res" where
  "dsched_sched_base_schedule E cbdata w =
     res_bind (deref cbdata) (\<lambda>c.
     let (t, w) = obj_create E KTrk w
     in res_bind (live_get w KCad (w_cads w) c) (\<lambda>cd.
        let w = w\<lparr>w_trks := (w_trks w)(t \<mapsto> tcon
                    \<lparr>tk_cbdata := Some c, tk_nactive := int (length (sched_actives w))\<rparr>),
                  w_cads := (w_cads w)(c \<mapsto> cd\<lparr>sc_trk := Some t\<rparr>)\<rparr>
        in res_bind (sched_schedule_loop E (sched_actives w) c t 1 w) (\<lambda>w.
           res_bind (live_get w KTrk (w_trks w) t) (\<lambda>trk.
             if tk_nresponded trk = tk_nactive trk then
               res_bind (live_get w KCad (w_cads w) c) (\<lambda>cd.
               res_bind (deref (sc_mt cd)) (\<lambda>m.
               res_bind (live_get w KMeta (w_metas w) m) (\<lambda>mt.
               res_bind (deref (mt_req mt)) (\<lambda>r.
               res_bind (live_get w KReq (w_reqs w) r) (\<lambda>req.
                 let w = w\<lparr>w_reqs := (w_reqs w)(r \<mapsto> req\<lparr>r_status := PMIX_ERR_NOT_AVAILABLE\<rparr>)\<rparr>
                 in release_trk E t
                      (DSCHED_THREADSHIFT (Some c) EB_main (sc_evcbfunc cd) w))))))
             else Inr w))))"

definition dsched_sched_base_cbfunc :: "sched_env \<Rightarrow> ptr option \<Rightarrow> world \<Rightarrow> world res" where
  "dsched_sched_base_cbfunc E cbdata w =
     res_bind (deref cbdata) (\<lambda>s.
     res_bind (live_get w KCad (w_cads w) s) (\<lambda>scd.
     res_bind (deref (sc_trk scd)) (\<lambda>t.
     res_bind (trk_responded t w) (\<lambda>w.
     res_bind (live_get w KTrk (w_trks w) t) (\<lambda>trk.
     res_bind
       (case sc_alloc scd of
          None \<Rightarrow> Inr w
        | Some a \<Rightarrow>
            res_bind (deref (tk_cbdata trk)) (\<lambda>c.
            res_bind (live_get w KCad (w_cads w) c) (\<lambda>cd.
              Inr (w\<lparr>w_cads := (w_cads w)
                (c \<mapsto> cd\<lparr>sc_allocations := fst (pa_add E (sc_allocations cd) a)\<rparr>)\<rparr>)))) (\<lambda>w.
       if tk_nresponded trk = tk_nactive trk then
         res_bind (deref (tk_cbdata trk)) (\<lambda>c.
         res_bind (live_get w KCad (w_cads w) c) (\<lambda>cd.
           Inr (DSCHED_THREADSHIFT (Some c) EB_main (sc_evcbfunc cd) w)))
       else Inr w))))))"


subsection \<open>Properties\<close>

lemma fifo_node_loop_items:
  assumes "pointer_array (pa_add E) (pa_set E)" "\<forall>a p. 0 \<le> snd (pa_add E a p)" "packed a"
  shows "pa_items (fifo_node_loop E n ps cnt a)
     = pa_items a @ (if cnt < n then take (nat (n - cnt)) ps else ps)"
  using assms(3)
proof (induction ps arbitrary: cnt a)
  case (Cons p ps)
  obtain a' i where add: "pa_add E a p = (a', i)" "0 \<le> i" using assms(2) by (metis prod.collapse)
  have items: "pa_items a' = pa_items a @ [p]" and packed: "packed a'"
    using pointer_array.items_add [OF assms(1) Cons.prems add]
      pointer_array.packed_add [OF assms(1) Cons.prems add(1)] by auto
  show ?case
  proof (cases "cnt + 1 = n")
    case True
    with add items show ?thesis by (auto simp: Let_def)
  next
    case False
    have "cnt < n \<Longrightarrow> nat (n - cnt) = Suc (nat (n - (cnt + 1)))" by simp
    with False Cons.IH [OF packed, of "cnt + 1"] add items show ?thesis by (simp add: Let_def)
  qed
qed simp

text \<open>
  C6. The allocation the fifo scheduler builds has the first nodes of the node
  pool, as many as were asked for, or all of them when there are fewer; a
  request for no nodes, or for a negative number, gets the whole pool.
\<close>

theorem fifo_allocation_nodes:
  assumes "pointer_array (pa_add E) (pa_set E)" and "\<forall>a p. 0 \<le> snd (pa_add E a p)"
    and "fifo_allocate E c r num_nodes w = Inr w'"
  shows "\<exists>cd al. w_cads w' c = Some cd \<and> sc_alloc cd = Some (fresh w) \<and> sc_req cd = Some r
     \<and> w_allocs w' (fresh w) = Some al \<and> al_scheduler al = Some ''fifo'' \<and> al_pri al = sc_order cd
     \<and> pa_items (al_allocation al) =
         (if 0 < num_nodes then take (nat num_nodes) (pa_items (g_nodes (glob w)))
          else pa_items (g_nodes (glob w)))"
  using assms(3) fifo_node_loop_items [OF assms(1,2) packed_Nil, of num_nodes _ 0]
  by (auto simp: fifo_allocate_def obj_create_def live_get_def split: if_splits)


definition sample_fifo_world :: world where
  "sample_fifo_world = (start_world sample_globals sample_nodes 10)\<lparr>w_cads := [3 \<mapsto> scon\<lparr>sc_order := 1\<rparr>]\<rparr>"

theorem fifo_allocation_nodes_witness:
  "\<exists>w al. fifo_allocate ref_env 3 5 1 sample_fifo_world = Inr w \<and> w_allocs w 10 = Some al
     \<and> pa_items (al_allocation al) = [1]"
proof -
  obtain w where w: "fifo_allocate ref_env 3 5 1 sample_fifo_world = Inr w"
    by (simp add: fifo_allocate_def sample_fifo_world_def start_world_def obj_create_def live_get_def)
  have arr: "pointer_array (pa_add ref_env) (pa_set ref_env)" "\<forall>a p. 0 \<le> snd (pa_add ref_env a p)"
    using ref_array.pointer_array_axioms by (simp_all add: ref_env_def ref_add_def)
  show ?thesis
    using fifo_allocation_nodes [OF arr w] w
    by (auto simp: sample_fifo_world_def start_world_def sample_globals_def dsched_globals_init_def
        pa_items_def)
qed

end
