(* ===== verification/Pipeline.thy ===== *)
theory Pipeline
  imports Alloc_Request Meta_Framework Sched_Framework
begin

text \<open>
  The scheduling pipeline as a whole: requests arrive through
  \<open>dsched_alloc_fn\<close>, and the progress threads run the pending events of the
  three event bases in any order. A reachable state is reached by such steps
  from a state in which nothing has been submitted, with the modules \<open>pri\<close>
  and \<open>fifo\<close> active.
\<close>

subsection \<open>Steps\<close>

definition run_callback :: "sched_env \<Rightarrow> callback \<Rightarrow> ptr option \<Rightarrow> world \<Rightarrow> world res" where
  "run_callback E f x w =
     (case f of
        CB_request_init \<Rightarrow> request_init E x w
      | CB_session_control \<Rightarrow> session_control x w
      | CB_meta_base_schedule \<Rightarrow> dsched_meta_base_schedule E x w
      | CB_meta_base_cbfunc \<Rightarrow> dsched_meta_base_cbfunc E x w
      | CB_sched_base_schedule \<Rightarrow> dsched_sched_base_schedule E x w
      | CB_sched_base_cbfunc \<Rightarrow> dsched_sched_base_cbfunc E x w
      | CB_pri_sched \<Rightarrow> pri_sched E x w
      | CB_pri_sched_cbfunc \<Rightarrow> pri_sched_cbfunc E x w
      | CB_fifo_sched \<Rightarrow> fifo_sched E x w
      | CB_null \<Rightarrow> Inl NullCall
      | CB_ext n \<Rightarrow> ext_event E n x w)"

text \<open>A progress thread takes one of the pending events and runs it.\<close>

definition run_event :: "sched_env \<Rightarrow> event \<Rightarrow> world \<Rightarrow> world res" where
  "run_event E ev w =
     run_callback E (fst (snd ev)) (snd (snd ev)) (w\<lparr>events := remove1 ev (events w)\<rparr>)"

inductive event_step :: "sched_env \<Rightarrow> world \<Rightarrow> world \<Rightarrow> bool" for E where
  run: "ev \<in> set (events w) \<Longrightarrow> run_event E ev w = Inr w' \<Longrightarrow> event_step E w w'"

text \<open>Or the library calls \<open>dsched_alloc_fn\<close>.\<close>

inductive pipeline_step :: "sched_env \<Rightarrow> world \<Rightarrow> world \<Rightarrow> bool" for E where
  submit: "pipeline_step E w (snd (dsched_alloc_fn E client directive data cbfunc cbdata now w))"
| thread: "event_step E w w' \<Longrightarrow> pipeline_step E w w'"

definition initial :: "world \<Rightarrow> bool" where
  "initial w \<longleftrightarrow>
     events w = [] \<and> replies w = [] \<and> fifo_reqs w = []
   \<and> meta_actives w = [''pri''] \<and> sched_actives w = [''fifo'']
   \<and> w_reqs w = Map.empty \<and> w_items w = Map.empty \<and> w_allocs w = Map.empty
   \<and> w_metas w = Map.empty \<and> w_trks w = Map.empty \<and> w_cads w = Map.empty
   \<and> (\<forall>k p. (k, p) \<in> freed w \<longrightarrow> k = KNode)"

inductive reachable :: "sched_env \<Rightarrow> world \<Rightarrow> bool" for E where
  start: "initial w \<Longrightarrow> reachable E w"
| step: "reachable E w \<Longrightarrow> pipeline_step E w w' \<Longrightarrow> reachable E w'"

subsection \<open>Where a request is\<close>

definition nreplies :: "world \<Rightarrow> ptr \<Rightarrow> nat" where
  "nreplies w r = length (filter (\<lambda>x. rp_req x = r) (replies w))"

text \<open>
  The replies a request that is accepted gets in all, and those that are left
  once its directives have been read.
\<close>

definition not_waiting :: "dsched_req \<Rightarrow> bool" where
  "not_waiting req \<longleftrightarrow> PMIX_ALLOC_NOT_WAITING \<in> i_key ` set (r_data req)"

definition owed :: "dsched_req \<Rightarrow> nat" where
  "owed req = (if r_cbfunc req = None then 0 else 1)"

definition total :: "dsched_req \<Rightarrow> nat" where
  "total req = (if r_cbfunc req = None then 0 else if not_waiting req then 2 else 1)"

definition live :: "world \<Rightarrow> kind \<Rightarrow> ptr \<Rightarrow> int \<Rightarrow> bool" where
  "live w k p n \<longleftrightarrow> (k, p) \<notin> freed w \<and> refcnt w (k, p) = n"

definition req_at :: "world \<Rightarrow> ptr \<Rightarrow> int \<Rightarrow> bool" where
  "req_at w r n \<longleftrightarrow> live w KReq r n \<and> (\<exists>req. w_reqs w r = Some req \<and> nreplies w r + owed req = total req)"

definition meta_at :: "world \<Rightarrow> ptr \<Rightarrow> ptr \<Rightarrow> bool" where
  "meta_at w m r \<longleftrightarrow> live w KMeta m 1
     \<and> w_metas w m = Some \<lparr>mt_nactive = 1, mt_nresponded = 0, mt_req = Some r, mt_activated = None\<rparr>"

definition trk_at :: "world \<Rightarrow> ptr \<Rightarrow> ptr \<Rightarrow> int \<Rightarrow> bool" where
  "trk_at w t c n \<longleftrightarrow> live w KTrk t 1
     \<and> w_trks w t = Some \<lparr>tk_nactive = 1, tk_nresponded = n, tk_cbdata = Some c\<rparr>"

definition allocs_at :: "world \<Rightarrow> ptr list \<Rightarrow> bool" where
  "allocs_at w as \<longleftrightarrow> distinct as \<and> (\<forall>a\<in>set as. live w KAlloc a 1 \<and> w_allocs w a \<noteq> None)"

text \<open>
  \<open>chain w ev r S\<close>: the event \<open>ev\<close> carries the request \<open>r\<close>, and \<open>S\<close> are the
  objects that belong to it. One rule per place on the way of a request:
  submitted, accepted, with the meta-scheduler, on its way to the schedulers,
  with the fifo scheduler, on its way back, back at the meta-scheduler,
  completed.
\<close>

inductive chain :: "world \<Rightarrow> event \<Rightarrow> ptr \<Rightarrow> oid set \<Rightarrow> bool" for w where
  submitted: "live w KReq r 1 \<Longrightarrow> w_reqs w r = Some req \<Longrightarrow> r_allocation req = None \<Longrightarrow>
    nreplies w r = 0 \<Longrightarrow>
    chain w (EB_main, CB_request_init, Some r) r {(KReq, r)}"
| accepted: "req_at w r 1 \<Longrightarrow>
    chain w (EB_main, CB_meta_base_schedule, Some r) r {(KReq, r)}"
| at_meta: "req_at w r 2 \<Longrightarrow> meta_at w m r \<Longrightarrow> live w KCad c 1 \<Longrightarrow>
    w_cads w c = Some (scon\<lparr>sc_mt := Some m, sc_flag := True\<rparr>) \<Longrightarrow>
    chain w (EB_pri, CB_pri_sched, Some c) r {(KReq, r), (KMeta, m), (KCad, c)}"
| to_sched: "req_at w r 2 \<Longrightarrow> meta_at w m r \<Longrightarrow> live w KCad c 1 \<Longrightarrow>
    w_cads w c = Some (scon\<lparr>sc_mt := Some m, sc_flag := True, sc_evcbfunc := CB_pri_sched_cbfunc\<rparr>) \<Longrightarrow>
    chain w (EB_main, CB_sched_base_schedule, Some c) r {(KReq, r), (KMeta, m), (KCad, c)}"
| at_fifo: "req_at w r 2 \<Longrightarrow> meta_at w m r \<Longrightarrow> live w KCad c 1 \<Longrightarrow> live w KCad s 1 \<Longrightarrow> c \<noteq> s \<Longrightarrow>
    trk_at w t c 0 \<Longrightarrow>
    w_cads w c = Some (scon\<lparr>sc_mt := Some m, sc_flag := True, sc_trk := Some t,
      sc_evcbfunc := CB_pri_sched_cbfunc\<rparr>) \<Longrightarrow>
    w_cads w s = Some (scon\<lparr>sc_order := 1, sc_req := Some r, sc_trk := Some t\<rparr>) \<Longrightarrow>
    chain w (EB_fifo, CB_fifo_sched, Some s) r
      {(KReq, r), (KMeta, m), (KCad, c), (KCad, s), (KTrk, t)}"
| from_fifo: "req_at w r 3 \<Longrightarrow> meta_at w m r \<Longrightarrow> live w KCad c 1 \<Longrightarrow> live w KCad s 1 \<Longrightarrow> c \<noteq> s \<Longrightarrow>
    trk_at w t c 0 \<Longrightarrow>
    w_cads w c = Some (scon\<lparr>sc_mt := Some m, sc_flag := True, sc_trk := Some t,
      sc_evcbfunc := CB_pri_sched_cbfunc\<rparr>) \<Longrightarrow>
    w_cads w s = Some scd \<Longrightarrow> sc_trk scd = Some t \<Longrightarrow>
    as = (case sc_alloc scd of None \<Rightarrow> [] | Some a \<Rightarrow> [a]) \<Longrightarrow> allocs_at w as \<Longrightarrow>
    chain w (EB_main, CB_sched_base_cbfunc, Some s) r
      ({(KReq, r), (KMeta, m), (KCad, c), (KCad, s), (KTrk, t)} \<union> Pair KAlloc ` set as)"
| returned: "req_at w r 3 \<Longrightarrow> meta_at w m r \<Longrightarrow> live w KCad c 1 \<Longrightarrow> trk_at w t c 1 \<Longrightarrow>
    w_cads w c = Some cd \<Longrightarrow> sc_mt cd = Some m \<Longrightarrow> sc_flag cd \<Longrightarrow> sc_trk cd = Some t \<Longrightarrow>
    as = pa_items (sc_allocations cd) \<Longrightarrow> allocs_at w as \<Longrightarrow>
    chain w (EB_main, CB_pri_sched_cbfunc, Some c) r
      ({(KReq, r), (KMeta, m), (KCad, c), (KTrk, t)} \<union> Pair KAlloc ` set as)"
| completed: "req_at w r 3 \<Longrightarrow> meta_at w m r \<Longrightarrow> live w KCad c 1 \<Longrightarrow> trk_at w t c 1 \<Longrightarrow>
    w_cads w c = Some cd \<Longrightarrow> sc_mt cd = Some m \<Longrightarrow> sc_trk cd = Some t \<Longrightarrow>
    as = pa_items (sc_allocations cd) \<Longrightarrow> allocs_at w as \<Longrightarrow>
    chain w (EB_main, CB_meta_base_cbfunc, Some c) r
      ({(KReq, r), (KMeta, m), (KCad, c), (KTrk, t)} \<union> Pair KAlloc ` set as)"

text \<open>The state of one object, as far as the chains depend on it.\<close>

definition same_obj :: "world \<Rightarrow> world \<Rightarrow> oid \<Rightarrow> bool" where
  "same_obj w w' ob \<longleftrightarrow>
     refcnt w' ob = refcnt w ob \<and> (ob \<in> freed w' \<longleftrightarrow> ob \<in> freed w)
   \<and> (case ob of (k, p) \<Rightarrow> (case k of
          KReq \<Rightarrow> w_reqs w' p = w_reqs w p \<and> nreplies w' p = nreplies w p
        | KItem \<Rightarrow> w_items w' p = w_items w p
        | KAlloc \<Rightarrow> w_allocs w' p = w_allocs w p
        | KMeta \<Rightarrow> w_metas w' p = w_metas w p
        | KTrk \<Rightarrow> w_trks w' p = w_trks w p
        | KCad \<Rightarrow> w_cads w' p = w_cads w p
        | KNode \<Rightarrow> True))"

lemma same_obj_intros:
  "same_obj w w' (k, p) \<Longrightarrow> live w k p n \<Longrightarrow> live w' k p n"
  "same_obj w w' (KReq, p) \<Longrightarrow> w_reqs w p = x \<Longrightarrow> w_reqs w' p = x"
  "same_obj w w' (KReq, p) \<Longrightarrow> nreplies w p = l \<Longrightarrow> nreplies w' p = l"
  "same_obj w w' (KAlloc, p) \<Longrightarrow> w_allocs w p = y \<Longrightarrow> w_allocs w' p = y"
  "same_obj w w' (KMeta, p) \<Longrightarrow> w_metas w p = z \<Longrightarrow> w_metas w' p = z"
  "same_obj w w' (KTrk, p) \<Longrightarrow> w_trks w p = u \<Longrightarrow> w_trks w' p = u"
  "same_obj w w' (KCad, p) \<Longrightarrow> w_cads w p = v \<Longrightarrow> w_cads w' p = v"
  by (simp_all add: same_obj_def live_def)

lemma same_req_at: "same_obj w w' (KReq, r) \<Longrightarrow> req_at w r n \<Longrightarrow> req_at w' r n"
  by (auto simp: req_at_def same_obj_def live_def)

lemma same_meta_at: "same_obj w w' (KMeta, m) \<Longrightarrow> meta_at w m r \<Longrightarrow> meta_at w' m r"
  by (auto simp: meta_at_def same_obj_def live_def)

lemma same_trk_at: "same_obj w w' (KTrk, t) \<Longrightarrow> trk_at w t c n \<Longrightarrow> trk_at w' t c n"
  by (auto simp: trk_at_def same_obj_def live_def)

lemma same_allocs_at:
  "(\<And>a. a \<in> set as \<Longrightarrow> same_obj w w' (KAlloc, a)) \<Longrightarrow> allocs_at w as \<Longrightarrow> allocs_at w' as"
  by (fastforce simp: allocs_at_def same_obj_def live_def)

lemmas same_at = same_obj_intros same_req_at same_meta_at same_trk_at same_allocs_at

text \<open>A chain depends on its own objects only.\<close>

lemma chain_frame:
  "chain w ev r S \<Longrightarrow> (\<And>ob. ob \<in> S \<Longrightarrow> same_obj w w' ob) \<Longrightarrow> chain w' ev r S"
proof (induction rule: chain.induct)
  case (submitted r req)
  then have "same_obj w w' (KReq, r)" by simp
  with submitted show ?case by (intro chain.submitted) (auto simp: same_obj_def live_def)
next
  case (accepted r)
  then show ?case by (intro chain.accepted) (auto intro: same_at)
next
  case (at_meta r m c)
  then show ?case by (intro chain.at_meta) (auto intro: same_at)
next
  case (to_sched r m c)
  then show ?case by (intro chain.to_sched) (auto intro: same_at)
next
  case (at_fifo r m c s t)
  then show ?case by (intro chain.at_fifo) (auto intro: same_at)
next
  case (from_fifo r m c s t scd as)
  have "allocs_at w' as"
    by (rule same_allocs_at [OF from_fifo.prems from_fifo.hyps(11)]) blast
  moreover have "same_obj w w' (KReq, r)" "same_obj w w' (KMeta, m)" "same_obj w w' (KCad, c)"
    "same_obj w w' (KCad, s)" "same_obj w w' (KTrk, t)"
    by (rule from_fifo.prems, simp)+
  ultimately show ?case
    using from_fifo.hyps
    by (intro chain.from_fifo [where as = as]) (assumption | blast intro: same_at)+
next
  case (returned r m c t cd as)
  then show ?case by (intro chain.returned) (auto intro: same_at)
next
  case (completed r m c t cd as)
  then show ?case by (intro chain.completed) (auto intro: same_at)
qed


subsection \<open>The invariant\<close>

text \<open>
  What the pipeline relies on of the libraries: the laws of the pointer arrays
  and of the reference counts, and that the first item of a list that is not
  empty is its head.
\<close>

locale pipeline_env =
  fixes E :: sched_env
  assumes arrays: "pointer_array (pa_add E) (pa_set E)"
    and counts: "ref_count (obj_new (objs E)) (obj_retain (objs E)) (obj_release (objs E))"
    and first_item: "list_first E (x # xs) = LItem x"

text \<open>Pointers that have not been given out name nothing.\<close>

definition bounded :: "world \<Rightarrow> bool" where
  "bounded w \<longleftrightarrow> (\<forall>p. fresh w \<le> p \<longrightarrow>
     w_reqs w p = None \<and> w_items w p = None \<and> w_allocs w p = None \<and> w_metas w p = None
   \<and> w_trks w p = None \<and> w_cads w p = None \<and> nreplies w p = 0
   \<and> (\<forall>k. (k, p) \<in> freed w \<longrightarrow> k = KNode))"

text \<open>The requests on the internal list of the fifo module.\<close>

definition fifo_owner :: "world \<Rightarrow> ptr \<Rightarrow> ptr \<Rightarrow> bool" where
  "fifo_owner w i r \<longleftrightarrow> (KItem, i) \<notin> freed w \<and> w_items w i = Some \<lparr>ri_req = Some r\<rparr>"

definition fifo_ok :: "world \<Rightarrow> bool" where
  "fifo_ok w \<longleftrightarrow> (\<forall>i\<in>set (fifo_reqs w). \<exists>r. fifo_owner w i r
     \<and> w_reqs w r \<noteq> None \<and> (KReq, r) \<notin> freed w)"

definition in_fifo :: "world \<Rightarrow> ptr \<Rightarrow> bool" where
  "in_fifo w r \<longleftrightarrow> (\<exists>i\<in>set (fifo_reqs w). fifo_owner w i r)"

text \<open>
  One event handled: the request moves on with its objects and new ones only,
  and the objects of other requests are not touched. The first argument is the
  state with the event taken out of the queue.
\<close>

definition untouched :: "world \<Rightarrow> world \<Rightarrow> oid set \<Rightarrow> bool" where
  "untouched w w' S \<longleftrightarrow>
     (\<forall>ob. fst ob \<noteq> KNode \<and> ob \<notin> S \<and> snd ob < fresh w \<longrightarrow> same_obj w w' ob)
   \<and> fresh w \<le> fresh w' \<and> bounded w' \<and> fifo_ok w'
   \<and> meta_actives w' = meta_actives w \<and> sched_actives w' = sched_actives w
   \<and> dom (w_reqs w') = dom (w_reqs w) \<and> (\<exists>is. fifo_reqs w' = fifo_reqs w @ is)"

definition moved :: "world \<Rightarrow> world \<Rightarrow> ptr \<Rightarrow> oid set \<Rightarrow> event \<Rightarrow> bool" where
  "moved w w' r S ev' \<longleftrightarrow>
     untouched w w' S \<and> events w' = events w @ [ev']
   \<and> (\<exists>S'. chain w' ev' r S' \<and> S' \<subseteq> S \<union> {ob. fresh w \<le> snd ob})
   \<and> (\<forall>q. in_fifo w' q \<longrightarrow> in_fifo w q \<or> q = r)
   \<and> fst (snd ev') \<noteq> CB_request_init"

text \<open>The request is answered in full, and freed exactly when it was refused.\<close>

definition answered :: "world \<Rightarrow> ptr \<Rightarrow> bool" where
  "answered w r \<longleftrightarrow> (\<exists>req. w_reqs w r = Some req
     \<and> nreplies w r = (if (KReq, r) \<in> freed w then owed req else total req))"

definition finished :: "world \<Rightarrow> world \<Rightarrow> ptr \<Rightarrow> oid set \<Rightarrow> bool" where
  "finished w w' r S \<longleftrightarrow>
     untouched w w' S \<and> events w' = events w \<and> answered w' r
   \<and> (\<forall>q. in_fifo w' q \<longrightarrow> in_fifo w q)"

end
