(* ===== verification/Pipeline_Steps.thy ===== *)
theory Pipeline_Steps
  imports Pipeline
begin

text \<open>
  What each event handler does to the request it carries: under the laws of
  \<open>pipeline_env\<close> it returns, moves the request to its next place with its own
  objects only, or finishes it.
\<close>

lemmas obj_defs [handler_defs] =
  obj_create_def obj_ref_def obj_unref_def live_get_def DSCHED_THREADSHIFT_def send_reply_def

lemmas at_defs = live_def req_at_def meta_at_def trk_at_def allocs_at_def

lemma nreplies_cong: "replies w' = replies w \<Longrightarrow> nreplies w' r = nreplies w r"
  by (simp add: nreplies_def)

lemma send_reply_fields [simp]:
  "glob (send_reply r req st w) = glob w" "refcnt (send_reply r req st w) = refcnt w"
  "freed (send_reply r req st w) = freed w" "w_metas (send_reply r req st w) = w_metas w"
  "w_reqs (send_reply r req st w) = w_reqs w" "w_items (send_reply r req st w) = w_items w"
  "w_allocs (send_reply r req st w) = w_allocs w" "w_trks (send_reply r req st w) = w_trks w"
  "w_cads (send_reply r req st w) = w_cads w" "fresh (send_reply r req st w) = fresh w"
  "fifo_reqs (send_reply r req st w) = fifo_reqs w" "events (send_reply r req st w) = events w"
  "meta_actives (send_reply r req st w) = meta_actives w"
  "sched_actives (send_reply r req st w) = sched_actives w"
  by (simp_all add: send_reply_def split: option.split)

lemma nreplies_send:
  "nreplies (send_reply r req st w) q = nreplies w q + (if q = r then owed req else 0)"
  by (simp add: send_reply_def nreplies_def owed_def split: option.split)

inductive_cases chain_request_initE: "chain w (EB_main, CB_request_init, Some r) q S"
inductive_cases chain_meta_scheduleE: "chain w (EB_main, CB_meta_base_schedule, Some r) q S"
inductive_cases chain_pri_schedE: "chain w (EB_pri, CB_pri_sched, Some c) r S"
inductive_cases chain_sched_scheduleE: "chain w (EB_main, CB_sched_base_schedule, Some c) r S"
inductive_cases chain_fifo_schedE: "chain w (EB_fifo, CB_fifo_sched, Some s) r S"
inductive_cases chain_sched_cbfuncE: "chain w (EB_main, CB_sched_base_cbfunc, Some s) r S"
inductive_cases chain_pri_cbfuncE: "chain w (EB_main, CB_pri_sched_cbfunc, Some c) r S"
inductive_cases chain_meta_cbfuncE: "chain w (EB_main, CB_meta_base_cbfunc, Some c) r S"

text \<open>Objects that are in use are below the next pointer.\<close>

lemma bounded_below:
  assumes "bounded w"
  shows "w_reqs w p \<noteq> None \<Longrightarrow> p < fresh w" "w_items w p \<noteq> None \<Longrightarrow> p < fresh w"
    "w_allocs w p \<noteq> None \<Longrightarrow> p < fresh w" "w_metas w p \<noteq> None \<Longrightarrow> p < fresh w"
    "w_trks w p \<noteq> None \<Longrightarrow> p < fresh w" "w_cads w p \<noteq> None \<Longrightarrow> p < fresh w"
  using assms by (metis bounded_def linorder_not_le)+

lemma bounded_freed:
  "bounded w \<Longrightarrow> fresh w \<le> p \<Longrightarrow> (k, p) \<in> freed w \<Longrightarrow> k = KNode"
  by (simp add: bounded_def)

lemma bounded_freed2:
  "bounded w \<Longrightarrow> Suc (Suc (fresh w)) \<le> p \<Longrightarrow> (k, p) \<in> freed w \<Longrightarrow> k = KNode"
  using bounded_freed [of w p k] by simp

lemma untouchedI:
  assumes "\<And>k p. k \<noteq> KNode \<Longrightarrow> (k, p) \<notin> S \<Longrightarrow> p < fresh w \<Longrightarrow> same_obj w w' (k, p)"
    and "fresh w \<le> fresh w'" and "bounded w'" and "fifo_ok w'"
    and "meta_actives w' = meta_actives w" and "sched_actives w' = sched_actives w"
    and "dom (w_reqs w') = dom (w_reqs w)" and "\<exists>is. fifo_reqs w' = fifo_reqs w @ is"
  shows "untouched w w' S"
  using assms by (auto simp: untouched_def)

lemma fifo_ok_mono:
  assumes ok: "fifo_ok w" and eq: "fifo_reqs w' = fifo_reqs w" "w_items w' = w_items w"
    and "\<And>k p. (k, p) \<in> freed w' \<Longrightarrow> k \<in> {KItem, KReq} \<Longrightarrow> (k, p) \<in> freed w"
    and "dom (w_reqs w) \<subseteq> dom (w_reqs w')"
  shows "fifo_ok w'"
  unfolding fifo_ok_def
proof
  fix i
  assume "i \<in> set (fifo_reqs w')"
  with ok eq obtain r where "fifo_owner w i r" "r \<in> dom (w_reqs w)" "(KReq, r) \<notin> freed w"
    unfolding fifo_ok_def by (metis domIff)
  with assms show "\<exists>r. fifo_owner w' i r \<and> w_reqs w' r \<noteq> None \<and> (KReq, r) \<notin> freed w'"
    by (intro exI [of _ r]) (auto simp: fifo_owner_def)
qed

lemma movedI:
  assumes "chain w' ev' r S'" "S' \<subseteq> S \<union> {ob. fresh w \<le> snd ob}" "untouched w w' S"
    and "events w' = events w @ [ev']" "fst (snd ev') \<noteq> CB_request_init"
    and "\<And>q. in_fifo w' q \<Longrightarrow> in_fifo w q \<or> q = r"
  shows "moved w w' r S ev'"
  unfolding moved_def using assms by blast

text \<open>The state after the fifo scheduler has put a request on its list.\<close>

abbreviation enqueued :: "ptr \<Rightarrow> world \<Rightarrow> world" where
  "enqueued r w \<equiv> w\<lparr>refcnt := (refcnt w)((KItem, fresh w) := 1, (KReq, r) := 3), fresh := Suc (fresh w),
     w_items := (w_items w)(fresh w \<mapsto> \<lparr>ri_req = Some r\<rparr>), fifo_reqs := fifo_reqs w @ [fresh w]\<rparr>"

text \<open>
  And after it has tried the request at the head of the list, \<open>r0\<close>, which it
  answers through the shift caddy \<open>s\<close>.
\<close>

definition fifo_result ::
  "sched_env \<Rightarrow> ptr \<Rightarrow> ptr \<Rightarrow> ptr \<Rightarrow> dsched_req \<Rightarrow> world \<Rightarrow> world" where
  "fifo_result E s t r0 req0 w =
     (if r_num_nodes req0 < g_avail_nnodes (glob w)
      then w\<lparr>refcnt := (refcnt w)((KAlloc, fresh w) := 1), fresh := Suc (fresh w),
             w_allocs := (w_allocs w)(fresh w \<mapsto> \<lparr>al_scheduler = Some ''fifo'', al_pri = 1,
               al_allocation = fifo_node_loop E (r_num_nodes req0) (pa_items (g_nodes (glob w))) 0 []\<rparr>),
             w_cads := (w_cads w)(s \<mapsto> scon\<lparr>sc_order := 1, sc_req := Some r0, sc_trk := Some t,
               sc_alloc := Some (fresh w)\<rparr>),
             events := events w @ [(EB_main, CB_sched_base_cbfunc, Some s)]\<rparr>
      else w\<lparr>events := events w @ [(EB_main, CB_sched_base_cbfunc, Some s)]\<rparr>)"

text \<open>What releasing an allocation can change: its own state and that of nodes.\<close>

definition nodes_only :: "ptr set \<Rightarrow> world \<Rightarrow> world \<Rightarrow> bool" where
  "nodes_only A w w' \<longleftrightarrow>
     glob w' = glob w \<and> w_reqs w' = w_reqs w \<and> w_items w' = w_items w \<and> w_allocs w' = w_allocs w
   \<and> w_metas w' = w_metas w \<and> w_trks w' = w_trks w \<and> w_cads w' = w_cads w \<and> fresh w' = fresh w
   \<and> meta_actives w' = meta_actives w \<and> sched_actives w' = sched_actives w
   \<and> fifo_reqs w' = fifo_reqs w \<and> events w' = events w \<and> replies w' = replies w
   \<and> (\<forall>ob. fst ob \<noteq> KNode \<and> ob \<notin> Pair KAlloc ` A \<longrightarrow>
        refcnt w' ob = refcnt w ob \<and> (ob \<in> freed w' \<longleftrightarrow> ob \<in> freed w))"

lemma nodes_only_refl [simp]: "nodes_only A w w"
  by (simp add: nodes_only_def)

lemma nodes_only_trans: "nodes_only A w w' \<Longrightarrow> nodes_only A w' w'' \<Longrightarrow> nodes_only A w w''"
  by (simp add: nodes_only_def)

lemma nodes_only_obj:
  "nodes_only A w w' \<Longrightarrow> k \<noteq> KNode \<Longrightarrow> k \<noteq> KAlloc \<or> p \<notin> A \<Longrightarrow>
   refcnt w' (k, p) = refcnt w (k, p) \<and> ((k, p) \<in> freed w' \<longleftrightarrow> (k, p) \<in> freed w)"
  by (force simp: nodes_only_def)

lemma release_node_only: "release_node E p w = Inr w' \<Longrightarrow> nodes_only A w w'"
  by (auto simp: release_node_def obj_unref_def nodes_only_def split: if_splits prod.splits)

lemma release_alloc_only:
  assumes "release_alloc E a w = Inr w'" "a \<in> A"
  shows "nodes_only A w w'"
proof -
  obtain al dead w1 where w1: "obj_unref E (KAlloc, a) w = Inr (dead, w1)"
    and w': "w' = w1 \<or> alloc_des E al w1 = Inr w'"
    using assms(1) by (auto simp: release_alloc_def split: if_splits prod.splits)
  have "nodes_only A w w1"
    using w1 assms(2) by (auto simp: obj_unref_def nodes_only_def split: if_splits prod.splits)
  moreover have "nodes_only A w1 w'" if "alloc_des E al w1 = Inr w'"
    using that unfolding alloc_des_def
    by (rule res_fold_invariant [where P = "nodes_only A w1", rotated 2])
      (auto intro: nodes_only_trans release_node_only)
  ultimately show ?thesis using w' nodes_only_trans by blast
qed

context pipeline_env
begin

lemma count_simps [simp]:
  "obj_new (objs E) = 1" "obj_retain (objs E) n = n + 1" "obj_release (objs E) n = (n - 1, n = 1)"
  using counts by (simp_all add: ref_count_def)

lemma pri_sched_moved:
  assumes ch: "chain w (EB_pri, CB_pri_sched, Some c) r S" and b: "bounded w" "fifo_ok w"
  shows "\<exists>w'. pri_sched E (Some c) w = Inr w'
    \<and> moved w w' r S (EB_main, CB_sched_base_schedule, Some c)"
  using ch
proof (rule chain_pri_schedE)
  fix m
  assume S: "S = {(KReq, r), (KMeta, m), (KCad, c)}"
    and at: "req_at w r 2" "meta_at w m r" "live w KCad c 1"
    and cd: "w_cads w c = Some (scon\<lparr>sc_mt := Some m, sc_flag := True\<rparr>)"
  let ?cd = "scon\<lparr>sc_mt := Some m, sc_flag := True, sc_evcbfunc := CB_pri_sched_cbfunc\<rparr>"
  let ?w = "w\<lparr>w_cads := (w_cads w)(c \<mapsto> ?cd),
      events := events w @ [(EB_main, CB_sched_base_schedule, Some c)]\<rparr>"
  have run: "pri_sched E (Some c) w = Inr ?w"
    using at(3) cd by (simp add: pri_sched_def handler_defs live_def)
  have "chain ?w (EB_main, CB_sched_base_schedule, Some c) r S"
    unfolding S using at by (intro chain.to_sched) (simp_all add: at_defs nreplies_def)
  moreover have "untouched w ?w S"
    using b bounded_below(6) [OF b(1), of c] cd
    by (intro untouchedI) (auto simp: S same_obj_def nreplies_def bounded_def fifo_ok_def fifo_owner_def
        split: kind.split)
  moreover have "in_fifo ?w q \<Longrightarrow> in_fifo w q" for q
    by (simp add: in_fifo_def fifo_owner_def)
  ultimately show ?thesis
    using run by (auto simp: moved_def)
qed

lemma meta_schedule_moved:
  assumes ch: "chain w (EB_main, CB_meta_base_schedule, Some r) q S" and b: "bounded w" "fifo_ok w"
    and act: "meta_actives w = [''pri'']"
  shows "q = r \<and> (\<exists>w'. dsched_meta_base_schedule E (Some r) w = Inr w'
    \<and> moved w w' r S (EB_pri, CB_pri_sched, Some (Suc (fresh w))))"
  using ch
proof (rule chain_meta_scheduleE)
  assume q: "q = r" and S: "S = {(KReq, r)}" and at: "req_at w r 1"
  let ?m = "fresh w" and ?c = "Suc (fresh w)"
  let ?w = "w\<lparr>refcnt := (refcnt w)((KMeta, ?m) := 1, (KReq, r) := 2, (KCad, ?c) := 1),
      fresh := Suc ?c,
      w_metas := (w_metas w)(?m \<mapsto> \<lparr>mt_nactive = 1, mt_nresponded = 0, mt_req = Some r, mt_activated = None\<rparr>),
      w_cads := (w_cads w)(?c \<mapsto> scon\<lparr>sc_mt := Some ?m, sc_flag := True\<rparr>),
      events := events w @ [(EB_pri, CB_pri_sched, Some ?c)]\<rparr>"
  have new: "(k, p) \<notin> freed w" if "fresh w \<le> p" "k \<noteq> KNode" for k p
    using b that by (auto simp: bounded_def)
  have run: "dsched_meta_base_schedule E (Some r) w = Inr ?w"
    using at q new act
    by (simp add: dsched_meta_base_schedule_def meta_schedule_fn_def pri_myschedule_def in_progress_def
        handler_defs at_defs dmetacon_def)
  have "chain ?w (EB_pri, CB_pri_sched, Some ?c) r {(KReq, r), (KMeta, ?m), (KCad, ?c)}"
    using at q new by (intro chain.at_meta) (auto simp: at_defs nreplies_def)
  moreover have "untouched w ?w S"
    using b act bounded_freed2 [OF b(1)]
    by (intro untouchedI) (auto simp: S q same_obj_def nreplies_def bounded_def fifo_ok_def fifo_owner_def
        split: kind.split)
  moreover have "in_fifo ?w q \<Longrightarrow> in_fifo w q" for q
    by (simp add: in_fifo_def fifo_owner_def)
  ultimately show ?thesis
    using run by (auto simp: moved_def q S)
qed

lemma sched_schedule_moved:
  assumes ch: "chain w (EB_main, CB_sched_base_schedule, Some c) r S" and b: "bounded w" "fifo_ok w"
    and act: "sched_actives w = [''fifo'']"
  shows "\<exists>w'. dsched_sched_base_schedule E (Some c) w = Inr w'
    \<and> moved w w' r S (EB_fifo, CB_fifo_sched, Some (Suc (fresh w)))"
  using ch
proof (rule chain_sched_scheduleE)
  fix m
  assume S: "S = {(KReq, r), (KMeta, m), (KCad, c)}"
    and at: "req_at w r 2" "meta_at w m r" "live w KCad c 1"
    and cd: "w_cads w c = Some (scon\<lparr>sc_mt := Some m, sc_flag := True, sc_evcbfunc := CB_pri_sched_cbfunc\<rparr>)"
  let ?t = "fresh w" and ?s = "Suc (fresh w)"
  let ?w = "w\<lparr>refcnt := (refcnt w)((KTrk, ?t) := 1, (KCad, ?s) := 1), fresh := Suc ?s,
      w_trks := (w_trks w)(?t \<mapsto> \<lparr>tk_nactive = 1, tk_nresponded = 0, tk_cbdata = Some c\<rparr>),
      w_cads := (w_cads w)(c \<mapsto> scon\<lparr>sc_mt := Some m, sc_flag := True, sc_trk := Some ?t,
          sc_evcbfunc := CB_pri_sched_cbfunc\<rparr>,
        ?s \<mapsto> scon\<lparr>sc_order := 1, sc_req := Some r, sc_trk := Some ?t\<rparr>),
      events := events w @ [(EB_fifo, CB_fifo_sched, Some ?s)]\<rparr>"
  have new: "(k, p) \<notin> freed w" if "fresh w \<le> p" "k \<noteq> KNode" for k p
    using b that by (auto simp: bounded_def)
  have c: "c < fresh w" using bounded_below(6) [OF b(1), of c] cd by simp
  have run: "dsched_sched_base_schedule E (Some c) w = Inr ?w"
    using at cd new act c
    by (simp add: dsched_sched_base_schedule_def sched_schedule_fn_def fifo_schedule_def
        handler_defs at_defs tcon_def) (rule world.equality; simp add: scon_def)
  have "chain ?w (EB_fifo, CB_fifo_sched, Some ?s) r
      {(KReq, r), (KMeta, m), (KCad, c), (KCad, ?s), (KTrk, ?t)}"
    using at new c by (intro chain.at_fifo) (auto simp: at_defs nreplies_def)
  moreover have "untouched w ?w S"
    using b act c bounded_freed2 [OF b(1)]
    by (intro untouchedI) (auto simp: S same_obj_def nreplies_def bounded_def fifo_ok_def fifo_owner_def
        split: kind.split)
  moreover have "in_fifo ?w q \<Longrightarrow> in_fifo w q" for q
    by (simp add: in_fifo_def fifo_owner_def)
  ultimately show ?thesis
    using run by (auto simp: moved_def S)
qed

lemma fifo_enqueue_eq:
  assumes "req_at w r 2"
  shows "fifo_enqueue E r w = Inr (enqueued r w)"
  using assms by (simp add: fifo_enqueue_def handler_defs at_defs drtcon_def)

lemma fifo_ok_enqueued:
  assumes "req_at w r 2" "bounded w" "fifo_ok w"
  shows "fifo_ok (enqueued r w)"
proof -
  have "i \<noteq> fresh w" if "i \<in> set (fifo_reqs w)" for i
    using that assms(2,3) bounded_below(2) [OF assms(2), of i]
    by (force simp: fifo_ok_def fifo_owner_def)
  moreover have "(KItem, fresh w) \<notin> freed w"
    using assms(2) bounded_freed [of w "fresh w" KItem] by auto
  ultimately show ?thesis
    using assms by (auto simp: fifo_ok_def fifo_owner_def at_defs)
qed

lemma fifo_head:
  assumes "fifo_ok w" "fifo_reqs w \<noteq> []"
  obtains i r req where "list_first E (fifo_reqs w) = LItem i" "i = hd (fifo_reqs w)"
    "fifo_owner w i r" "w_reqs w r = Some req" "(KReq, r) \<notin> freed w"
  using assms first_item [of "hd (fifo_reqs w)" "tl (fifo_reqs w)"]
  by (force simp: fifo_ok_def dest: bspec [of _ _ "hd (fifo_reqs w)"])

lemma fifo_sched_eq:
  assumes at: "req_at w r 2" "live w KCad s 1" and b: "bounded w" "fifo_ok w"
    and scd: "w_cads w s = Some (scon\<lparr>sc_order := 1, sc_req := Some r, sc_trk := Some t\<rparr>)"
  obtains w1 r0 req0 where "w1 = enqueued r w"
    "fifo_owner w1 (hd (fifo_reqs w1)) r0" "w_reqs w1 r0 = Some req0"
    "fifo_sched E (Some s) w = Inr (fifo_result E s t r0 req0 w1)"
proof -
  define w1 where "w1 = enqueued r w"
  have ok: "fifo_ok w1" using fifo_ok_enqueued [OF at(1) b] by (simp add: w1_def)
  have w1: "freed w1 = freed w" "w_cads w1 = w_cads w" "events w1 = events w" "glob w1 = glob w"
    "fifo_reqs w1 \<noteq> []"
    by (simp_all add: w1_def)
  obtain i r0 req0 where h: "list_first E (fifo_reqs w1) = LItem i" "i = hd (fifo_reqs w1)"
    "fifo_owner w1 i r0" "w_reqs w1 r0 = Some req0" "(KReq, r0) \<notin> freed w1"
    using fifo_head [OF ok w1(5)] by blast
  have "fifo_sched E (Some s) w =
      res_bind (if r_num_nodes req0 < g_avail_nnodes (glob w)
                then fifo_allocate E s r0 (r_num_nodes req0) w1 else Inr w1)
        (\<lambda>w. Inr (DSCHED_THREADSHIFT (Some s) EB_main CB_sched_base_cbfunc w))"
    using at scd h w1 fifo_enqueue_eq [OF at(1), folded w1_def]
    by (simp add: fifo_sched_def live_get_def live_def fifo_owner_def)
  then have "fifo_sched E (Some s) w = Inr (fifo_result E s t r0 req0 w1)"
    using at scd w1 by (simp add: fifo_allocate_def handler_defs live_def scon_def fifo_result_def)
  with h show ?thesis by (intro that [of w1 r0 req0]) (simp_all add: w1_def)
qed

lemma in_fifo_enqueued:
  assumes "bounded w" "fifo_ok w" "in_fifo (enqueued r w) q"
  shows "in_fifo w q \<or> q = r"
proof -
  have "i \<noteq> fresh w" if "i \<in> set (fifo_reqs w)" for i
    using that assms(1,2) bounded_below(2) [OF assms(1), of i]
    by (force simp: fifo_ok_def fifo_owner_def)
  with assms(3) show ?thesis
    by (auto simp: in_fifo_def fifo_owner_def)
qed

lemma fifo_sched_moved:
  assumes ch: "chain w (EB_fifo, CB_fifo_sched, Some s) r S" and b: "bounded w" "fifo_ok w"
  shows "\<exists>w'. fifo_sched E (Some s) w = Inr w'
    \<and> moved w w' r S (EB_main, CB_sched_base_cbfunc, Some s)"
  using ch
proof (rule chain_fifo_schedE)
  fix m c t
  assume S: "S = {(KReq, r), (KMeta, m), (KCad, c), (KCad, s), (KTrk, t)}"
    and at: "req_at w r 2" "meta_at w m r" "live w KCad c 1" "live w KCad s 1" "c \<noteq> s" "trk_at w t c 0"
    and cd: "w_cads w c = Some (scon\<lparr>sc_mt := Some m, sc_flag := True, sc_trk := Some t,
        sc_evcbfunc := CB_pri_sched_cbfunc\<rparr>)"
    and scd: "w_cads w s = Some (scon\<lparr>sc_order := 1, sc_req := Some r, sc_trk := Some t\<rparr>)"
  obtain w1 r0 req0 where w1: "w1 = enqueued r w"
    and run: "fifo_sched E (Some s) w = Inr (fifo_result E s t r0 req0 w1)"
    using fifo_sched_eq [OF at(1,4) b scd] by metis
  then obtain w' where w': "fifo_sched E (Some s) w = Inr w'" by auto
  note eqs = w'[unfolded run fifo_result_def, simplified, symmetric]
  have sl: "s < fresh w" "c < fresh w"
    using bounded_below(6) [OF b(1)] scd cd by auto
  have ok: "fifo_ok w'"
    using fifo_ok_enqueued [OF at(1) b] by (simp add: eqs w1 fifo_ok_def fifo_owner_def)
  have fr: "fresh w \<le> fresh w'" "freed w' = freed w" by (simp_all add: eqs w1)
  have bd: "bounded w'"
    using b(1) sl bounded_freed [OF b(1)] bounded_freed2 [OF b(1)]
    by (auto simp: eqs w1 bounded_def nreplies_def dest: Suc_leD)
  have un: "untouched w w' S"
    using sl by (intro untouchedI [OF _ fr(1) bd ok])
      (auto simp: S eqs w1 same_obj_def nreplies_def split: kind.split)
  have "\<exists>S'. chain w' (EB_main, CB_sched_base_cbfunc, Some s) r S' \<and> S' \<subseteq> S \<union> {ob. fresh w \<le> snd ob}"
  proof (cases "r_num_nodes req0 < g_avail_nnodes (glob w1)")
    case True
    let ?a = "Suc (fresh w)"
    have "(KAlloc, ?a) \<notin> freed w" using bounded_freed [OF b(1), of ?a KAlloc] by auto
    then have "chain w' (EB_main, CB_sched_base_cbfunc, Some s) r (S \<union> Pair KAlloc ` set [?a])"
      unfolding S using True at cd sl
      by (intro chain.from_fifo [where scd = "scon\<lparr>sc_order := 1, sc_req := Some r0, sc_trk := Some t,
            sc_alloc := Some ?a\<rparr>"]) (auto simp: eqs w1 at_defs nreplies_def)
    then show ?thesis by auto
  next
    case False
    then have "chain w' (EB_main, CB_sched_base_cbfunc, Some s) r (S \<union> Pair KAlloc ` set [])"
      unfolding S using at cd scd
      by (intro chain.from_fifo [where scd = "scon\<lparr>sc_order := 1, sc_req := Some r, sc_trk := Some t\<rparr>"])
        (auto simp: eqs w1 at_defs nreplies_def scon_def)
    then show ?thesis by auto
  qed
  moreover have "in_fifo w' q \<Longrightarrow> in_fifo w q \<or> q = r" for q
  proof -
    have "fifo_reqs w' = fifo_reqs w1" "w_items w' = w_items w1" "freed w' = freed w1"
      by (simp_all add: eqs)
    then show "in_fifo w' q \<Longrightarrow> in_fifo w q \<or> q = r"
      using in_fifo_enqueued [OF b, of r q] by (simp add: w1 [symmetric] in_fifo_def fifo_owner_def)
  qed
  moreover have "events w' = events w @ [(EB_main, CB_sched_base_cbfunc, Some s)]"
    by (simp add: eqs w1)
  ultimately show ?thesis
    using w' un by (auto simp: moved_def)
qed

lemma items_single:
  assumes "pa_add E [] a = (b, i)"
  shows "pa_items b = [a] \<or> pa_items b = []"
proof (cases "0 \<le> i")
  case True
  then show ?thesis
    using pointer_array.items_add [OF arrays packed_Nil assms] by simp
next
  case False
  then show ?thesis
    using pointer_array.add_failed [OF arrays assms] by simp
qed

lemma sched_cbfunc_moved:
  assumes ch: "chain w (EB_main, CB_sched_base_cbfunc, Some s) r S" and b: "bounded w" "fifo_ok w"
  shows "\<exists>w' c. dsched_sched_base_cbfunc E (Some s) w = Inr w'
    \<and> moved w w' r S (EB_main, CB_pri_sched_cbfunc, Some c)"
  using ch
proof (rule chain_sched_cbfuncE)
  fix m c t and scd :: dsched_shift_caddy
  define as where "as = (case sc_alloc scd of None \<Rightarrow> [] | Some a \<Rightarrow> [a])"
  assume "S = insert (KReq, r) (insert (KMeta, m) (insert (KCad, c) (insert (KCad, s) (insert (KTrk, t)
      (Pair KAlloc ` {x. Some x = sc_alloc scd})))))"
  then have S: "S = {(KReq, r), (KMeta, m), (KCad, c), (KCad, s), (KTrk, t)} \<union> Pair KAlloc ` set as"
    by (auto simp: as_def split: option.splits)
  assume at: "req_at w r 3" "meta_at w m r" "live w KCad c 1" "live w KCad s 1" "c \<noteq> s" "trk_at w t c 0"
    and cd: "w_cads w c = Some (scon\<lparr>sc_mt := Some m, sc_flag := True, sc_trk := Some t,
        sc_evcbfunc := CB_pri_sched_cbfunc\<rparr>)"
    and scd: "w_cads w s = Some scd" "sc_trk scd = Some t"
    and "allocs_at w (case sc_alloc scd of None \<Rightarrow> [] | Some a \<Rightarrow> [a])"
  then have as: "as = (case sc_alloc scd of None \<Rightarrow> [] | Some a \<Rightarrow> [a])" "allocs_at w as"
    by (simp_all add: as_def)
  define al where "al = (case sc_alloc scd of None \<Rightarrow> [] | Some a \<Rightarrow> fst (pa_add E [] a))"
  let ?cd = "scon\<lparr>sc_mt := Some m, sc_flag := True, sc_trk := Some t, sc_allocations := al,
      sc_evcbfunc := CB_pri_sched_cbfunc\<rparr>"
  let ?w = "w\<lparr>w_trks := (w_trks w)(t \<mapsto> \<lparr>tk_nactive = 1, tk_nresponded = 1, tk_cbdata = Some c\<rparr>),
      w_cads := (w_cads w)(c \<mapsto> ?cd), events := events w @ [(EB_main, CB_pri_sched_cbfunc, Some c)]\<rparr>"
  have run: "dsched_sched_base_cbfunc E (Some s) w = Inr ?w"
    using at cd scd
    by (cases "sc_alloc scd")
      (simp_all add: dsched_sched_base_cbfunc_def trk_responded_def handler_defs at_defs al_def
        scon_def fun_upd_idem)
  have items: "set (pa_items al) \<subseteq> set as" "distinct (pa_items al)"
    using items_single [of "the (sc_alloc scd)" al "snd (pa_add E [] (the (sc_alloc scd)))"]
    by (auto simp: al_def as split: option.splits)
  have "chain ?w (EB_main, CB_pri_sched_cbfunc, Some c) r
      ({(KReq, r), (KMeta, m), (KCad, c), (KTrk, t)} \<union> Pair KAlloc ` set (pa_items al))"
    using at as items
    by (intro chain.returned [where cd = ?cd]) (auto simp: at_defs nreplies_def)
  moreover have "{(KReq, r), (KMeta, m), (KCad, c), (KTrk, t)} \<union> Pair KAlloc ` set (pa_items al)
      \<subseteq> S \<union> {ob. fresh w \<le> snd ob}"
    using items(1) by (auto simp: S)
  moreover have "untouched w ?w S"
    using b bounded_below(5,6) [OF b(1)] cd at(6)
    by (intro untouchedI) (auto simp: S same_obj_def nreplies_def bounded_def fifo_ok_def fifo_owner_def
        trk_at_def split: kind.split)
  ultimately have "moved w ?w r S (EB_main, CB_pri_sched_cbfunc, Some c)"
    by (rule movedI) (simp_all add: in_fifo_def fifo_owner_def)
  with run show ?thesis by blast
qed

lemma best_loop_returns:
  assumes "\<forall>a\<in>set as. (KAlloc, a) \<notin> freed w \<and> w_allocs w a \<noteq> None"
  shows "\<exists>best'. best_loop w as best = Inr best'"
  using assms by (induction as arbitrary: best) (auto simp: live_get_def)

lemma pri_cbfunc_moved:
  assumes ch: "chain w (EB_main, CB_pri_sched_cbfunc, Some c) r S" and b: "bounded w" "fifo_ok w"
  shows "\<exists>w'. pri_sched_cbfunc E (Some c) w = Inr w'
    \<and> moved w w' r S (EB_main, CB_meta_base_cbfunc, Some c)"
  using ch
proof (rule chain_pri_cbfuncE)
  fix m t and cd :: dsched_shift_caddy
  define as where "as = pa_items (sc_allocations cd)"
  assume "S = insert (KReq, r) (insert (KMeta, m) (insert (KCad, c) (insert (KTrk, t)
      (Pair KAlloc ` set (pa_items (sc_allocations cd))))))"
  then have S: "S = {(KReq, r), (KMeta, m), (KCad, c), (KTrk, t)} \<union> Pair KAlloc ` set as"
    by (simp add: as_def)
  assume at: "req_at w r 3" "meta_at w m r" "live w KCad c 1" "trk_at w t c 1"
    and cd: "w_cads w c = Some cd" "sc_mt cd = Some m" "sc_flag cd" "sc_trk cd = Some t"
    and "allocs_at w (pa_items (sc_allocations cd))"
  then have as: "as = pa_items (sc_allocations cd)" "allocs_at w as" by (simp_all add: as_def)
  obtain req where req: "w_reqs w r = Some req" "nreplies w r + owed req = total req"
    using at(1) by (auto simp: req_at_def)
  obtain best where best: "best_loop w as None = Inr best"
    using best_loop_returns [of as w None] as(2) by (auto simp: allocs_at_def live_def)
  define req' where "req' = (case best of None \<Rightarrow> req
      | Some (a, _) \<Rightarrow> req\<lparr>r_allocation := Some a, r_status := PMIX_SUCCESS\<rparr>)"
  let ?w = "w\<lparr>w_reqs := (w_reqs w)(r \<mapsto> req'), events := events w @ [(EB_main, CB_meta_base_cbfunc, Some c)]\<rparr>"
  have run: "pri_sched_cbfunc E (Some c) w = Inr ?w"
    using at cd as best req
    by (cases best) (auto simp: pri_sched_cbfunc_def handler_defs at_defs req'_def fun_upd_idem)
  have same: "owed req' = owed req" "total req' = total req"
    by (auto simp: req'_def owed_def total_def not_waiting_def split: option.splits)
  have "chain ?w (EB_main, CB_meta_base_cbfunc, Some c) r S"
    unfolding S using at cd as req same
    by (intro chain.completed [where cd = cd]) (auto simp: at_defs nreplies_def)
  moreover have "S \<subseteq> S \<union> {ob. fresh w \<le> snd ob}" by blast
  moreover have "untouched w ?w S"
  proof (rule untouchedI)
    show "fifo_ok ?w" by (rule fifo_ok_mono [OF b(2)]) auto
    show "bounded ?w" using b bounded_below(1) [OF b(1), of r] req by (auto simp: bounded_def nreplies_def)
  qed (use req in \<open>auto simp: S same_obj_def nreplies_def split: kind.split\<close>)
  ultimately have "moved w ?w r S (EB_main, CB_meta_base_cbfunc, Some c)"
    by (rule movedI) (simp_all add: in_fifo_def fifo_owner_def)
  with run show ?thesis by blast
qed

text \<open>The release of a shift caddy that is not referred to by anything else.\<close>

lemma release_caddy_only:
  assumes c: "live w KCad c 1" "w_cads w c = Some cd" "sc_trk cd = Some t" and t: "live w KTrk t 1"
    and run: "release_caddy E c w = Inr w'"
  obtains w1 where "nodes_only (set (pa_items (sc_allocations cd)))
      (w\<lparr>refcnt := (refcnt w)((KCad, c) := 0), freed := insert (KCad, c) (freed w)\<rparr>) w1"
    "w' = w1\<lparr>refcnt := (refcnt w1)((KTrk, t) := 0), freed := insert (KTrk, t) (freed w1)\<rparr>"
proof -
  let ?w = "w\<lparr>refcnt := (refcnt w)((KCad, c) := 0), freed := insert (KCad, c) (freed w)\<rparr>"
  obtain w1 where w1: "res_fold (release_alloc E) (pa_items (sc_allocations cd)) ?w = Inr w1"
    "release_trk E t w1 = Inr w'"
    using run c by (auto simp: release_caddy_def handler_defs live_def sdes_def)
  have no: "nodes_only (set (pa_items (sc_allocations cd))) ?w w1"
    by (rule res_fold_invariant [where P = "nodes_only (set (pa_items (sc_allocations cd))) ?w", OF _ _ w1(1)])
      (auto intro: nodes_only_trans release_alloc_only)
  then have "refcnt w1 (KTrk, t) = 1"
    using t nodes_only_obj [OF no, of KTrk t] by (simp add: live_def)
  then have "w' = w1\<lparr>refcnt := (refcnt w1)((KTrk, t) := 0), freed := insert (KTrk, t) (freed w1)\<rparr>"
    using w1(2) by (auto simp: release_trk_def obj_unref_def split: if_splits)
  with no show ?thesis by (rule that)
qed

lemma release_caddy_returns:
  assumes "live w KCad c 1" "w_cads w c = Some cd" "sc_trk cd = Some t" "live w KTrk t 1"
    and "pa_items (sc_allocations cd) = []"
  shows "\<exists>w'. release_caddy E c w = Inr w'"
  using assms by (simp add: release_caddy_def handler_defs live_def sdes_def release_trk_def)

text \<open>The state when the requestor has its reply and the objects are to be released.\<close>

abbreviation replied :: "ptr \<Rightarrow> ptr \<Rightarrow> dsched_req \<Rightarrow> world \<Rightarrow> world" where
  "replied r m req w \<equiv> (send_reply r req (r_status req)
     (w\<lparr>w_metas := (w_metas w)(m \<mapsto>
        \<lparr>mt_nactive = 1, mt_nresponded = 1, mt_req = Some r, mt_activated = None\<rparr>)\<rparr>))
     \<lparr>glob := (glob w)\<lparr>g_requests := pa_set E (g_requests (glob w)) (r_index req) None\<rparr>,
      refcnt := (refcnt w)((KMeta, m) := 0, (KReq, r) := 1), freed := insert (KMeta, m) (freed w)\<rparr>"

lemma meta_cbfunc_replied:
  assumes at: "live w KReq r 3" "w_reqs w r = Some req" "meta_at w m r" "live w KCad c 1"
    and cd: "w_cads w c = Some cd" "sc_mt cd = Some m"
  shows "dsched_meta_base_cbfunc E (Some c) w = release_caddy E c (replied r m req w)"
proof (cases "r_cbfunc req")
  case None
  with at cd show ?thesis
    by (simp add: dsched_meta_base_cbfunc_def meta_responded_def release_req_def release_meta_def
        dmetades_def handler_defs at_defs)
next
  case (Some f)
  with at cd show ?thesis
    by (simp add: dsched_meta_base_cbfunc_def meta_responded_def release_req_def release_meta_def
        dmetades_def handler_defs at_defs)
qed

lemma meta_cbfunc_finished:
  assumes ch: "chain w (EB_main, CB_meta_base_cbfunc, Some c) r S" and b: "bounded w" "fifo_ok w"
  shows "dsched_meta_base_cbfunc E (Some c) w = Inr w' \<Longrightarrow> finished w w' r S"
    and "\<forall>a. (KAlloc, a) \<notin> S \<Longrightarrow> \<exists>w'. dsched_meta_base_cbfunc E (Some c) w = Inr w'"
proof -
  obtain m t cd where "S = {(KReq, r), (KMeta, m), (KCad, c), (KTrk, t)}
        \<union> Pair KAlloc ` set (pa_items (sc_allocations cd))"
    and at: "req_at w r 3" "meta_at w m r" "live w KCad c 1" "trk_at w t c 1"
    and cd: "w_cads w c = Some cd" "sc_mt cd = Some m" "sc_trk cd = Some t"
    and al: "allocs_at w (pa_items (sc_allocations cd))"
    using ch by (rule chain_meta_cbfuncE) auto
  note S = this(1)
  obtain req where req: "w_reqs w r = Some req" "nreplies w r + owed req = total req"
    using at(1) by (auto simp: req_at_def)
  have run: "dsched_meta_base_cbfunc E (Some c) w = release_caddy E c (replied r m req w)"
    using at req cd by (intro meta_cbfunc_replied) (auto simp: req_at_def)
  have live: "live (replied r m req w) KCad c 1" "w_cads (replied r m req w) c = Some cd"
      "live (replied r m req w) KTrk t 1"
    using at cd by (simp_all add: at_defs)
  have nr: "nreplies (replied r m req w) q = nreplies w q + (if q = r then owed req else 0)" for q
    using nreplies_send [of r req "r_status req" "w\<lparr>w_metas := (w_metas w)(m \<mapsto>
        \<lparr>mt_nactive = 1, mt_nresponded = 1, mt_req = Some r, mt_activated = None\<rparr>)\<rparr>" q]
    by (simp add: nreplies_def)
  show "\<exists>w'. dsched_meta_base_cbfunc E (Some c) w = Inr w'" if "\<forall>a. (KAlloc, a) \<notin> S"
  proof -
    from that have "pa_items (sc_allocations cd) = []"
      by (cases "pa_items (sc_allocations cd)") (auto simp: S)
    then show ?thesis
      unfolding run by (rule release_caddy_returns [OF live(1,2) cd(3) live(3)])
  qed
  assume "dsched_meta_base_cbfunc E (Some c) w = Inr w'"
  then obtain w1 where no: "nodes_only (set (pa_items (sc_allocations cd)))
      ((replied r m req w)\<lparr>refcnt := (refcnt (replied r m req w))((KCad, c) := 0),
         freed := insert (KCad, c) (freed (replied r m req w))\<rparr>) w1"
    and w': "w' = w1\<lparr>refcnt := (refcnt w1)((KTrk, t) := 0), freed := insert (KTrk, t) (freed w1)\<rparr>"
    using release_caddy_only [OF live(1,2) cd(3) live(3)] unfolding run by metis
  have fields: "w_reqs w' = w_reqs w" "w_items w' = w_items w" "w_allocs w' = w_allocs w"
    "w_trks w' = w_trks w" "w_cads w' = w_cads w" "fresh w' = fresh w" "fifo_reqs w' = fifo_reqs w"
    "events w' = events w" "meta_actives w' = meta_actives w" "sched_actives w' = sched_actives w"
    "p \<noteq> m \<Longrightarrow> w_metas w' p = w_metas w p" for p
    using no by (simp_all add: w' nodes_only_def)
  have nr': "nreplies w' q = nreplies w q + (if q = r then owed req else 0)" for q
    using no nr [of q] by (simp add: w' nodes_only_def nreplies_def)
  have ob: "refcnt w' (k, p) = refcnt w (k, p) \<and> ((k, p) \<in> freed w' \<longleftrightarrow> (k, p) \<in> freed w)"
    if "k \<noteq> KNode" "(k, p) \<notin> S" for k p
  proof -
    have "k \<noteq> KAlloc \<or> p \<notin> set (pa_items (sc_allocations cd))" using that(2) by (auto simp: S)
    from nodes_only_obj [OF no that(1) this] that show ?thesis by (auto simp: w' S)
  qed
  have fr: "(k, p) \<in> freed w' \<Longrightarrow> k \<in> {KItem, KReq} \<Longrightarrow> (k, p) \<in> freed w" for k p
    using nodes_only_obj [OF no, of k p] by (auto simp: w')
  have un: "untouched w w' S"
  proof (rule untouchedI)
    show "same_obj w w' (k, p)" if "k \<noteq> KNode" "(k, p) \<notin> S" "p < fresh w" for k p
      using ob [OF that(1,2)] that
      by (auto simp: same_obj_def fields nr' S split: kind.split)
    show "fifo_ok w'" by (rule fifo_ok_mono [OF b(2)]) (auto simp: fields dest: fr)
    have S_below: "p < fresh w" if "(k, p) \<in> S" for k p
      using that at req cd al bounded_below [OF b(1)]
      by (auto simp: S meta_at_def trk_at_def allocs_at_def)
    have "(k, p) \<notin> S" if "fresh w \<le> p" for k p
      using S_below [of k p] that by auto
    then have "(k, p) \<in> freed w' \<Longrightarrow> k = KNode" if "fresh w \<le> p" for k p
      using ob [of k p] that bounded_freed [OF b(1), of p k] by blast
    moreover have "r < fresh w" "m < fresh w" using S_below by (auto simp: S)
    ultimately show "bounded w'"
      using b(1) fields(11) unfolding bounded_def fields nr' by auto
  qed (simp_all add: fields)
  have "(KItem, i) \<in> freed w' \<longleftrightarrow> (KItem, i) \<in> freed w" for i
    using ob [of KItem i] by (auto simp: S)
  then have "in_fifo w' q \<Longrightarrow> in_fifo w q" for q
    by (simp add: in_fifo_def fifo_owner_def fields)
  moreover have "(KReq, r) \<notin> freed w'"
    using fr [of KReq r] at(1) by (auto simp: at_defs)
  ultimately show "finished w w' r S"
    unfolding finished_def answered_def using un req nr' by (simp add: fields)
qed

lemma request_init_moved:
  assumes ch: "chain w (EB_main, CB_request_init, Some r) q S" and b: "bounded w" "fifo_ok w"
    and v: "parse_directives E (uninit_u64 E) (the (w_reqs w r)) = Inr v" "iv_rcerr v = PMIX_SUCCESS"
  shows "q = r \<and> (\<exists>w'. request_init E (Some r) w = Inr w'
    \<and> moved w w' r S (EB_main, CB_meta_base_schedule, Some r))"
  using ch
proof (rule chain_request_initE)
  fix req
  assume q: "q = r" and S: "S = {(KReq, r)}" and at: "live w KReq r 1"
    and req: "w_reqs w r = Some req" and nr: "nreplies w r = 0"
  obtain a idx where add: "pa_add E (g_requests (glob w)) r = (a, idx)" by force
  define req' where "req' = (iv_req v)\<lparr>r_index := idx\<rparr>"
  let ?w0 = "w\<lparr>glob := (glob w)\<lparr>g_requests := a\<rparr>, w_reqs := (w_reqs w)(r \<mapsto> req'),
      events := events w @ [(EB_main, CB_meta_base_schedule, Some r)]\<rparr>"
  define w' where "w' = (if iv_notwaiting v then send_reply r req' PMIX_SUCCESS ?w0 else ?w0)"
  have run: "request_init E (Some r) w = Inr w'"
    using at req v add
    by (simp add: request_init_def live_get_def live_def DSCHED_THREADSHIFT_def w'_def req'_def Let_def)
  have fr: "r_data req' = r_data req" "r_cbfunc req' = r_cbfunc req"
    "iv_notwaiting v \<longleftrightarrow> not_waiting req"
    using parse_directives_frame [OF v(1)] req by (auto simp: req'_def req_frame_def not_waiting_def)
  have nr': "nreplies w' p = nreplies w p + (if p = r \<and> iv_notwaiting v then owed req' else 0)" for p
    using nreplies_send [of r req' PMIX_SUCCESS ?w0 p] by (auto simp: w'_def nreplies_def)
  have fields: "w_reqs w' = (w_reqs w)(r \<mapsto> req')" "refcnt w' = refcnt w" "freed w' = freed w"
    "w_items w' = w_items w" "w_allocs w' = w_allocs w" "w_trks w' = w_trks w" "w_metas w' = w_metas w"
    "w_cads w' = w_cads w" "fresh w' = fresh w" "fifo_reqs w' = fifo_reqs w"
    "events w' = events w @ [(EB_main, CB_meta_base_schedule, Some r)]"
    "meta_actives w' = meta_actives w" "sched_actives w' = sched_actives w"
    by (simp_all add: w'_def)
  have "chain w' (EB_main, CB_meta_base_schedule, Some r) r {(KReq, r)}"
    using at nr fr
    by (intro chain.accepted) (simp add: at_defs fields nr' owed_def total_def not_waiting_def)
  moreover have "{(KReq, r)} \<subseteq> S \<union> {ob. fresh w \<le> snd ob}" by (simp add: S)
  moreover have "untouched w w' S"
  proof (rule untouchedI)
    show "fifo_ok w'" by (rule fifo_ok_mono [OF b(2)]) (auto simp: fields)
    show "bounded w'"
      using b bounded_below(1) [OF b(1), of r] req by (auto simp: bounded_def fields nr')
  qed (use req in \<open>auto simp: S same_obj_def fields nr' split: kind.split\<close>)
  ultimately have "moved w w' r S (EB_main, CB_meta_base_schedule, Some r)"
    by (rule movedI) (simp_all add: fields in_fifo_def fifo_owner_def)
  with run q show ?thesis by blast
qed

lemma request_init_refused:
  assumes ch: "chain w (EB_main, CB_request_init, Some r) q S" and b: "bounded w" "fifo_ok w"
    and v: "parse_directives E (uninit_u64 E) (the (w_reqs w r)) = Inr v" "iv_rcerr v \<noteq> PMIX_SUCCESS"
    and out: "\<not> in_fifo w r" and null: "null_release_ok E"
  shows "q = r \<and> (\<exists>w'. request_init E (Some r) w = Inr w' \<and> finished w w' r S)"
  using ch
proof (rule chain_request_initE)
  fix req
  assume q: "q = r" and S: "S = {(KReq, r)}" and at: "live w KReq r 1"
    and req: "w_reqs w r = Some req" "r_allocation req = None" and nr: "nreplies w r = 0"
  let ?w0 = "send_reply r (iv_req v) (iv_rcerr v) (w\<lparr>w_reqs := (w_reqs w)(r \<mapsto> iv_req v)\<rparr>)"
  define w' where "w' = ?w0\<lparr>refcnt := (refcnt w)((KReq, r) := 0), freed := insert (KReq, r) (freed w)\<rparr>"
  have fr: "r_cbfunc (iv_req v) = r_cbfunc req" "r_allocation (iv_req v) = None"
    using parse_directives_frame [OF v(1)] req by (auto simp: req_frame_def)
  have run: "request_init E (Some r) w = Inr w'"
    using at req v fr null
    by (simp add: request_init_def release_req_def req_des_def release_null_def live_get_def live_def
        obj_unref_def w'_def)
  have nr': "nreplies w' p = nreplies w p + (if p = r then owed req else 0)" for p
    using nreplies_send [of r "iv_req v" "iv_rcerr v" "w\<lparr>w_reqs := (w_reqs w)(r \<mapsto> iv_req v)\<rparr>" p] fr
    by (simp add: w'_def nreplies_def owed_def)
  have fields: "w_reqs w' = (w_reqs w)(r \<mapsto> iv_req v)" "refcnt w' = (refcnt w)((KReq, r) := 0)"
    "freed w' = insert (KReq, r) (freed w)"
    "w_items w' = w_items w" "w_allocs w' = w_allocs w" "w_trks w' = w_trks w" "w_metas w' = w_metas w"
    "w_cads w' = w_cads w" "fresh w' = fresh w" "fifo_reqs w' = fifo_reqs w" "events w' = events w"
    "meta_actives w' = meta_actives w" "sched_actives w' = sched_actives w"
    by (simp_all add: w'_def)
  have r: "r < fresh w" using bounded_below(1) [OF b(1), of r] req by simp
  have "untouched w w' S"
  proof (rule untouchedI)
    have "x \<noteq> r" if "i \<in> set (fifo_reqs w)" "fifo_owner w i x" for i x
      using that out by (auto simp: in_fifo_def)
    then show "fifo_ok w'"
      using b(2) unfolding fifo_ok_def fields by (fastforce simp: fifo_owner_def fields)
    show "bounded w'"
      using b r by (auto simp: bounded_def fields nr')
  qed (use req in \<open>auto simp: S same_obj_def fields nr' split: kind.split\<close>)
  moreover have "answered w' r"
    using nr nr' [of r] fr by (simp add: answered_def fields owed_def)
  ultimately show ?thesis
    using run q by (auto simp: finished_def fields in_fifo_def fifo_owner_def)
qed

end

end
