(* ===== verification/Pipeline_Invariant.thy ===== *)
theory Pipeline_Invariant
  imports Pipeline_Steps
begin

text \<open>
  The invariant of the pipeline under every interleaving of submissions and
  events, and what follows from it: how often a request is answered, which
  events can fault, and that the pending events come to an end.
\<close>

subsection \<open>Chains\<close>

lemma chain_owner: "chain w ev r S \<Longrightarrow> (KReq, r) \<in> S"
  by (induction rule: chain.induct) auto

lemma chain_req_unique: "chain w ev r S \<Longrightarrow> (KReq, q) \<in> S \<Longrightarrow> q = r"
  by (induction rule: chain.induct) auto

lemma chain_no_node: "chain w ev r S \<Longrightarrow> (KNode, p) \<notin> S"
  by (induction rule: chain.induct) auto

lemma chain_req: "chain w ev r S \<Longrightarrow> w_reqs w r \<noteq> None"
  by (induction rule: chain.induct) (auto simp: req_at_def)

lemma bounded_Some:
  "bounded w \<Longrightarrow> w_reqs w p = Some a \<Longrightarrow> p < fresh w"
  "bounded w \<Longrightarrow> w_allocs w p = Some b \<Longrightarrow> p < fresh w"
  "bounded w \<Longrightarrow> w_metas w p = Some c \<Longrightarrow> p < fresh w"
  "bounded w \<Longrightarrow> w_trks w p = Some d \<Longrightarrow> p < fresh w"
  "bounded w \<Longrightarrow> w_cads w p = Some e \<Longrightarrow> p < fresh w"
  using bounded_below [of w p] by simp_all

lemma chain_below:
  "chain w ev r S \<Longrightarrow> bounded w \<Longrightarrow> (k, p) \<in> S \<Longrightarrow> p < fresh w"
  by (induction rule: chain.induct)
    (auto simp: at_defs split: option.splits intro: bounded_Some)

lemma chain_events: "chain w ev r S \<Longrightarrow> chain (w\<lparr>events := es\<rparr>) ev r S"
  by (erule chain_frame) (auto simp: same_obj_def nreplies_def split: kind.split)

text \<open>An event determines the request it carries.\<close>

lemma chain_det: "chain w ev r S \<Longrightarrow> chain w ev q T \<Longrightarrow> q = r"
proof (induction rule: chain.induct)
  case (submitted r req)
  then show ?case by (auto elim: chain_request_initE)
next
  case (accepted r)
  then show ?case by (auto elim: chain_meta_scheduleE)
next
  case (at_meta r m c)
  from at_meta.prems show ?case
    by (rule chain_pri_schedE) (use at_meta in \<open>auto simp: scon_def meta_at_def\<close>)
next
  case (to_sched r m c)
  from to_sched.prems show ?case
    by (rule chain_sched_scheduleE) (use to_sched in \<open>auto simp: scon_def meta_at_def\<close>)
next
  case (at_fifo r m c s t)
  from at_fifo.prems show ?case
    by (rule chain_fifo_schedE) (use at_fifo in \<open>auto simp: scon_def meta_at_def\<close>)
next
  case (from_fifo r m c s t scd as)
  from from_fifo.prems show ?case
    by (rule chain_sched_cbfuncE) (use from_fifo in \<open>auto simp: scon_def meta_at_def trk_at_def\<close>)
next
  case (returned r m c t cd as)
  from returned.prems show ?case
    by (rule chain_pri_cbfuncE) (use returned in \<open>auto simp: meta_at_def\<close>)
next
  case (completed r m c t cd as)
  from completed.prems show ?case
    by (rule chain_meta_cbfuncE) (use completed in \<open>auto simp: meta_at_def\<close>)
qed

definition pipeline_inv :: "world \<Rightarrow> bool" where
  "pipeline_inv w \<longleftrightarrow>
     meta_actives w = [''pri''] \<and> sched_actives w = [''fifo''] \<and> bounded w \<and> fifo_ok w
   \<and> distinct (events w)
   \<and> (\<exists>own fp.
        (\<forall>ev\<in>set (events w). chain w ev (own ev) (fp ev))
      \<and> (\<forall>ev\<in>set (events w). \<forall>ev'\<in>set (events w). ev \<noteq> ev' \<longrightarrow> fp ev \<inter> fp ev' = {})
      \<and> (\<forall>r. w_reqs w r \<noteq> None \<longrightarrow> (\<forall>ev\<in>set (events w). own ev \<noteq> r) \<longrightarrow> answered w r))
   \<and> (\<forall>r. (EB_main, CB_request_init, Some r) \<in> set (events w) \<longrightarrow> \<not> in_fifo w r)"

lemma in_fifo_req:
  assumes "fifo_ok w" "in_fifo w r"
  shows "w_reqs w r \<noteq> None"
proof -
  obtain i where i: "i \<in> set (fifo_reqs w)" "fifo_owner w i r"
    using assms(2) by (auto simp: in_fifo_def)
  then obtain q where "fifo_owner w i q" "w_reqs w q \<noteq> None"
    using assms(1) unfolding fifo_ok_def by blast
  with i show ?thesis by (simp add: fifo_owner_def)
qed

lemma answered_same: "same_obj w w' (KReq, r) \<Longrightarrow> answered w r \<Longrightarrow> answered w' r"
  by (auto simp: answered_def same_obj_def)

text \<open>The chains of the other events are not touched by the handling of one.\<close>

lemma untouched_chain:
  assumes "untouched w w' S" "chain w ev r T" "bounded w" "T \<inter> S = {}"
  shows "chain w' ev r T"
proof (rule chain_frame [OF assms(2)])
  fix ob
  assume "ob \<in> T"
  then have "fst ob \<noteq> KNode" "ob \<notin> S" "snd ob < fresh w"
    using assms chain_no_node [OF assms(2)] chain_below [OF assms(2,3)] by (cases ob; auto)+
  with assms(1) show "same_obj w w' ob" by (cases ob) (simp add: untouched_def)
qed


subsection \<open>Preservation\<close>

text \<open>
  The events of the next state: those that are left and at most one new one.
  \<open>w0\<close> is the state with the handled event taken out.
\<close>

lemma pipeline_inv_next:
  assumes inv: "meta_actives w = [''pri'']" "sched_actives w = [''fifo'']" "bounded w" "distinct (events w)"
    and ch: "\<forall>e\<in>set (events w). chain w e (own e) (fp e)"
    and dis: "\<forall>e\<in>set (events w). \<forall>e'\<in>set (events w). e \<noteq> e' \<longrightarrow> fp e \<inter> fp e' = {}"
    and ans: "\<forall>q. w_reqs w q \<noteq> None \<longrightarrow> (\<forall>e\<in>set (events w). own e \<noteq> q) \<longrightarrow> answered w q"
    and out: "\<forall>q. (EB_main, CB_request_init, Some q) \<in> set (events w) \<longrightarrow> \<not> in_fifo w q"
    and ev: "ev \<in> set (events w)" "r = own ev" "S = fp ev" "w0 = w\<lparr>events := remove1 ev (events w)\<rparr>"
    and un: "untouched w0 w' S"
    and new: "events w' = events w0 @ es" "es = [] \<or> (\<exists>ev'. es = [ev'] \<and> fst (snd ev') \<noteq> CB_request_init
        \<and> (\<exists>S'. chain w' ev' r S' \<and> S' \<subseteq> S \<union> {ob. fresh w0 \<le> snd ob}))"
    and fin: "es = [] \<Longrightarrow> answered w' r"
    and fifo: "\<And>q. in_fifo w' q \<Longrightarrow> in_fifo w0 q \<or> q = r"
  shows "pipeline_inv w'"
proof -
  have rest: "set (events w0) = set (events w) - {ev}" "distinct (events w0)"
    using inv(4) ev(4) by (simp_all add: set_remove1_eq)
  have b0: "bounded w0" "fresh w0 = fresh w" "w_reqs w0 = w_reqs w"
    using inv(3) by (simp_all add: ev(4) bounded_def nreplies_def)
  have old: "chain w' e (own e) (fp e)" if "e \<in> set (events w0)" for e
    using that rest ch dis ev by (intro untouched_chain [OF un _ b0(1)]) (auto intro: chain_events)
  have own: "own e \<noteq> r" if "e \<in> set (events w0)" for e
    using that rest ch dis ev chain_owner by (metis DiffD1 DiffD2 IntI empty_iff singletonI)
  have below: "p < fresh w" if "e \<in> set (events w)" "(k, p) \<in> fp e" for e k p
    using chain_below that ch inv(3) by blast
  obtain S' where S': "\<forall>e\<in>set es. chain w' e r S' \<and> S' \<subseteq> S \<union> {ob. fresh w \<le> snd ob}"
    using new(2) b0(2) by auto
  have es_new: "e \<notin> set (events w0)" if "e \<in> set es" for e
    using that S' own old chain_det by blast
  let ?own = "\<lambda>e. if e \<in> set es then r else own e" and ?fp = "\<lambda>e. if e \<in> set es then S' else fp e"
  have "\<forall>e\<in>set (events w'). chain w' e (?own e) (?fp e)"
    using new(1) old S' by auto
  moreover have "?fp e \<inter> ?fp e' = {}" if "e \<in> set (events w')" "e' \<in> set (events w')" "e \<noteq> e'" for e e'
  proof -
    have one: "\<not> (e \<in> set es \<and> e' \<in> set es)" using new(2) that(3) by auto
    have new_old: "fp x \<inter> S' = {}" if "x \<in> set (events w0)" "y \<in> set es" for x y
    proof -
      have "S' \<subseteq> S \<union> {ob. fresh w \<le> snd ob}" using S' that(2) by blast
      moreover have "fp x \<inter> S = {}" using that(1) rest dis ev by simp
      moreover have "x \<in> set (events w)" using that(1) rest by simp
      then have "fp x \<inter> {ob. fresh w \<le> snd ob} = {}"
        using below [of x] by (auto simp: not_le [symmetric])
      ultimately show ?thesis by blast
    qed
    have in0: "x \<in> set (events w0)" if "x \<in> set (events w')" "x \<notin> set es" for x
      using that new(1) by simp
    consider "e \<in> set es" "e' \<notin> set es" | "e \<notin> set es" "e' \<in> set es" | "e \<notin> set es" "e' \<notin> set es"
      using one by blast
    then show ?thesis
    proof cases
      case 1
      then show ?thesis using new_old [OF in0 [OF that(2)], of e] by (simp add: Int_commute)
    next
      case 2
      then show ?thesis using new_old [OF in0 [OF that(1)], of e'] by simp
    next
      case 3
      then show ?thesis
        using in0 [OF that(1)] in0 [OF that(2)] rest(1) dis that(3) by simp
    qed
  qed
  moreover have "answered w' q" if "w_reqs w' q \<noteq> None" "\<forall>e\<in>set (events w'). ?own e \<noteq> q" for q
  proof (cases "q = r")
    case True
    then have "es = []" using that(2) new by (cases es) auto
    with fin True show ?thesis by simp
  next
    case False
    have q: "w_reqs w q \<noteq> None" using that(1) un b0(3) by (auto simp: untouched_def dom_def)
    have "(KReq, q) \<notin> S" using False ev ch chain_req_unique by blast
    then have "same_obj w0 w' (KReq, q)"
      using un q b0 bounded_below(1) [OF inv(3), of q] by (auto simp: untouched_def)
    moreover have "own e \<noteq> q" if "e \<in> set (events w)" for e
    proof (cases "e = ev")
      case False
      then have "e \<in> set (events w0)" using that rest by simp
      then have "e \<in> set (events w')" "e \<notin> set es" using new(1) es_new [of e] by auto
      with \<open>\<forall>e\<in>set (events w'). ?own e \<noteq> q\<close> show ?thesis by auto
    qed (use False ev(2) in simp)
    then have "answered w0 q" using ans q by (auto simp: answered_def ev(4) nreplies_def)
    ultimately show ?thesis by (rule answered_same)
  qed
  moreover have "\<not> in_fifo w' q" if "(EB_main, CB_request_init, Some q) \<in> set (events w')" for q
  proof -
    have e: "(EB_main, CB_request_init, Some q) \<in> set (events w0)" using that new by auto
    then have "own (EB_main, CB_request_init, Some q) = q"
      using ch rest chain_request_initE by blast
    with own [OF e] fifo [of q] out e rest show ?thesis
      by (auto simp: ev(4) in_fifo_def fifo_owner_def)
  qed
  moreover have "distinct (events w')"
    using new rest(2) es_new by auto
  ultimately show ?thesis
    unfolding pipeline_inv_def using un inv(1,2) by (intro conjI exI [of _ ?own] exI [of _ ?fp]) (auto simp: untouched_def ev(4))
qed


text \<open>How many events are still to come for a request.\<close>

fun rank :: "callback \<Rightarrow> nat" where
  "rank CB_request_init = 8"
| "rank CB_meta_base_schedule = 7"
| "rank CB_pri_sched = 6"
| "rank CB_sched_base_schedule = 5"
| "rank CB_fifo_sched = 4"
| "rank CB_sched_base_cbfunc = 3"
| "rank CB_pri_sched_cbfunc = 2"
| "rank CB_meta_base_cbfunc = 1"
| "rank _ = 0"

context pipeline_env
begin

lemma request_init_step:
  assumes ch: "chain w (EB_main, CB_request_init, Some r) q S" and b: "bounded w" "fifo_ok w"
    and out: "\<not> in_fifo w r" and run: "request_init E (Some r) w = Inr w'"
  shows "moved w w' q S (EB_main, CB_meta_base_schedule, Some r) \<or> finished w w' q S"
  using ch
proof (rule chain_request_initE)
  fix req
  assume q: "q = r" and req: "w_reqs w r = Some req" "live w KReq r 1" "r_allocation req = None"
  with run obtain v where v: "parse_directives E (uninit_u64 E) req = Inr v"
    by (auto simp: request_init_def live_get_def live_def)
  show ?thesis
  proof (cases "iv_rcerr v = PMIX_SUCCESS")
    case True
    with request_init_moved [OF ch b] v req run q show ?thesis by auto
  next
    case False
    have "r_allocation (iv_req v) = None"
      using parse_directives_frame(1) [OF v] req by (simp add: req_frame_def)
    then have "null_release_ok E"
      using run req v False
      by (auto simp: request_init_def live_get_def live_def Let_def release_req_def obj_unref_def
          req_des_def release_null_def split: if_splits)
    with request_init_refused [OF ch b] v req run q False out show ?thesis by auto
  qed
qed

text \<open>
  Handling an event of a chain moves its request to a place of smaller rank or
  finishes it.
\<close>

lemma callback_step:
  assumes ch: "chain w ev r S" and b: "bounded w" "fifo_ok w"
    and act: "meta_actives w = [''pri'']" "sched_actives w = [''fifo'']"
    and out: "\<And>q. ev = (EB_main, CB_request_init, Some q) \<Longrightarrow> \<not> in_fifo w q"
    and run: "run_callback E (fst (snd ev)) (snd (snd ev)) w = Inr w'"
  shows "(\<exists>ev'. moved w w' r S ev' \<and> rank (fst (snd ev')) < rank (fst (snd ev))) \<or> finished w w' r S"
  using ch
proof cases
  case (submitted req)
  with request_init_step [of w r r S w'] ch b out run show ?thesis
    by (fastforce simp: run_callback_def)
next
  case accepted
  with meta_schedule_moved [of w r r S] ch b act run show ?thesis
    by (fastforce simp: run_callback_def)
next
  case (at_meta m c)
  with pri_sched_moved [of w c r S] ch b run show ?thesis
    by (fastforce simp: run_callback_def)
next
  case (to_sched m c)
  with sched_schedule_moved [of w c r S] ch b act run show ?thesis
    by (fastforce simp: run_callback_def)
next
  case (at_fifo m c s t)
  with fifo_sched_moved [of w s r S] ch b run show ?thesis
    by (fastforce simp: run_callback_def)
next
  case (from_fifo m c s t scd as)
  with sched_cbfunc_moved [of w s r S] ch b run show ?thesis
    by (fastforce simp: run_callback_def)
next
  case (returned m c t cd as)
  with pri_cbfunc_moved [of w c r S] ch b run show ?thesis
    by (fastforce simp: run_callback_def)
next
  case (completed m c t cd as)
  with meta_cbfunc_finished(1) [of w c r S w'] ch b run show ?thesis
    by (simp add: run_callback_def)
qed

end

lemma without_event [simp]:
  "bounded (w\<lparr>events := es\<rparr>) = bounded w" "fifo_ok (w\<lparr>events := es\<rparr>) = fifo_ok w"
  "in_fifo (w\<lparr>events := es\<rparr>) r = in_fifo w r"
  by (simp_all add: bounded_def fifo_ok_def in_fifo_def fifo_owner_def nreplies_def)

definition weight_of :: "event list \<Rightarrow> nat" where
  "weight_of es = sum_list (map (\<lambda>ev. rank (fst (snd ev))) es)"

definition weight :: "world \<Rightarrow> nat" where
  "weight w = weight_of (events w)"

lemma weight_remove:
  "ev \<in> set es \<Longrightarrow> sum_list (map f es) = f ev + sum_list (map f (remove1 ev es))" for f :: "'a \<Rightarrow> nat"
  by (induction es) auto

lemma rank_pos: "chain w ev r S \<Longrightarrow> 0 < rank (fst (snd ev))"
  by (induction rule: chain.induct) auto

context pipeline_env
begin

lemma event_step_inv:
  assumes inv: "pipeline_inv w" and st: "event_step E w w'"
  shows "pipeline_inv w' \<and> weight w' < weight w \<and> (\<exists>is. fifo_reqs w' = fifo_reqs w @ is)"
  using st
proof cases
  case (run ev)
  from inv obtain own fp where
    own: "\<forall>e\<in>set (events w). chain w e (own e) (fp e)"
      "\<forall>e\<in>set (events w). \<forall>e'\<in>set (events w). e \<noteq> e' \<longrightarrow> fp e \<inter> fp e' = {}"
      "\<forall>q. w_reqs w q \<noteq> None \<longrightarrow> (\<forall>e\<in>set (events w). own e \<noteq> q) \<longrightarrow> answered w q"
    and g: "meta_actives w = [''pri'']" "sched_actives w = [''fifo'']" "bounded w" "distinct (events w)"
      "fifo_ok w"
    and out: "\<forall>q. (EB_main, CB_request_init, Some q) \<in> set (events w) \<longrightarrow> \<not> in_fifo w q"
    unfolding pipeline_inv_def by blast
  define w0 where "w0 = w\<lparr>events := remove1 ev (events w)\<rparr>"
  have ch: "chain w0 ev (own ev) (fp ev)"
    using own(1) run(1) by (auto simp: w0_def intro: chain_events)
  have "(\<exists>ev'. moved w0 w' (own ev) (fp ev) ev' \<and> rank (fst (snd ev')) < rank (fst (snd ev)))
      \<or> finished w0 w' (own ev) (fp ev)"
    using run g out by (intro callback_step [OF ch]) (auto simp: w0_def run_event_def)
  then obtain es where es: "events w' = events w0 @ es" "untouched w0 w' (fp ev)"
      "es = [] \<or> (\<exists>ev'. es = [ev'] \<and> fst (snd ev') \<noteq> CB_request_init \<and> (\<exists>S'. chain w' ev' (own ev) S'
         \<and> S' \<subseteq> fp ev \<union> {ob. fresh w0 \<le> snd ob}))"
      "es = [] \<Longrightarrow> answered w' (own ev)" "\<And>q. in_fifo w' q \<Longrightarrow> in_fifo w0 q \<or> q = own ev"
      "weight_of es < rank (fst (snd ev))"
  proof (elim disjE exE conjE)
    fix ev'
    assume "moved w0 w' (own ev) (fp ev) ev'" "rank (fst (snd ev')) < rank (fst (snd ev))"
    then show thesis by (intro that [of "[ev']"]) (auto simp: moved_def weight_of_def)
  next
    assume "finished w0 w' (own ev) (fp ev)"
    then show thesis
      using rank_pos [OF ch] by (intro that [of "[]"]) (auto simp: finished_def weight_of_def)
  qed
  have "pipeline_inv w'"
    by (rule pipeline_inv_next [OF g(1-4) own out run(1) refl refl w0_def es(2,1,3,4,5)])
  moreover have "weight w' < weight w"
    using weight_remove [OF run(1), of "\<lambda>ev. rank (fst (snd ev))"] es(1,6)
    by (simp add: weight_def weight_of_def w0_def)
  moreover have "\<exists>is. fifo_reqs w' = fifo_reqs w @ is"
    using es(2) by (simp add: untouched_def w0_def)
  ultimately show ?thesis by simp
qed

lemma submit_inv:
  assumes inv: "pipeline_inv w"
  shows "pipeline_inv (snd (dsched_alloc_fn E client directive data cbfunc cbdata now w))"
proof -
  from inv obtain own fp where
    own: "\<forall>e\<in>set (events w). chain w e (own e) (fp e)"
      "\<forall>e\<in>set (events w). \<forall>e'\<in>set (events w). e \<noteq> e' \<longrightarrow> fp e \<inter> fp e' = {}"
      "\<forall>q. w_reqs w q \<noteq> None \<longrightarrow> (\<forall>e\<in>set (events w). own e \<noteq> q) \<longrightarrow> answered w q"
    and g: "meta_actives w = [''pri'']" "sched_actives w = [''fifo'']" "bounded w" "distinct (events w)"
      "fifo_ok w"
    and out: "\<forall>q. (EB_main, CB_request_init, Some q) \<in> set (events w) \<longrightarrow> \<not> in_fifo w q"
    unfolding pipeline_inv_def by blast
  let ?r = "fresh w" and ?ev = "(EB_main, CB_request_init, Some (fresh w))"
  define w' where "w' = snd (dsched_alloc_fn E client directive data cbfunc cbdata now w)"
  obtain req where w': "w' = w\<lparr>refcnt := (refcnt w)((KReq, ?r) := 1), fresh := Suc ?r,
      w_reqs := (w_reqs w)(?r \<mapsto> req), events := events w @ [?ev]\<rparr>" and req: "r_allocation req = None"
    by (simp add: w'_def dsched_alloc_fn_def obj_create_def DSCHED_THREADSHIFT_def req_con_def)
  have same: "same_obj w w' (k, p)" if "p < fresh w" for k p
    using that by (auto simp: w' same_obj_def nreplies_def split: kind.split)
  have new: "w_reqs w ?r = None" "(KReq, ?r) \<notin> freed w" "nreplies w ?r = 0"
    using g(3) by (auto simp: bounded_def)
  have chn: "chain w' ?ev ?r {(KReq, ?r)}"
    using new req by (intro chain.submitted) (auto simp: w' live_def nreplies_def)
  have old: "chain w' e (own e) (fp e)" if "e \<in> set (events w)" for e
  proof (rule chain_frame)
    show e: "chain w e (own e) (fp e)" using own(1) that by blast
    show "same_obj w w' ob" if "ob \<in> fp e" for ob
      using chain_below [OF e g(3), of "fst ob" "snd ob"] same [of "snd ob" "fst ob"] that by simp
  qed
  have fresh_fp: "(KReq, ?r) \<notin> fp e" if "e \<in> set (events w)" for e
    using own(1) that chain_below [OF _ g(3)] by blast
  then have ev_new: "?ev \<notin> set (events w)"
    using own(1) chain_owner by (metis chain_request_initE singletonI)
  have fifo: "in_fifo w' q \<longleftrightarrow> in_fifo w q" for q
    by (simp add: w' in_fifo_def fifo_owner_def)
  have fifo_r: "\<not> in_fifo w ?r"
    using in_fifo_req [OF g(5)] new(1) by blast
  have "fifo_ok w'" by (rule fifo_ok_mono [OF g(5)]) (auto simp: w')
  moreover have "bounded w'"
    using g(3) bounded_freed [OF g(3)] by (auto simp: w' bounded_def nreplies_def dest: Suc_leD)
  moreover have "answered w' q" if "w_reqs w' q \<noteq> None" "q \<noteq> ?r" "\<forall>e\<in>set (events w). own e \<noteq> q" for q
    using that own(3) bounded_below(1) [OF g(3), of q]
    by (intro answered_same [OF same]) (auto simp: w')
  moreover have eqs: "events w' = events w @ [?ev]" "meta_actives w' = meta_actives w"
      "sched_actives w' = sched_actives w"
    by (simp_all add: w')
  let ?own = "own(?ev := ?r)" and ?fp = "fp(?ev := {(KReq, ?r)})"
  have "\<forall>e\<in>set (events w'). chain w' e (?own e) (?fp e)"
    using old chn ev_new by (auto simp: eqs)
  moreover have "\<forall>e\<in>set (events w'). \<forall>e'\<in>set (events w'). e \<noteq> e' \<longrightarrow> ?fp e \<inter> ?fp e' = {}"
    using own(2) fresh_fp ev_new by (auto simp: eqs)
  moreover have "\<forall>q. w_reqs w' q \<noteq> None \<longrightarrow> (\<forall>e\<in>set (events w'). ?own e \<noteq> q) \<longrightarrow> answered w' q"
    using calculation(3) ev_new unfolding eqs(1)
    by (metis (no_types, lifting) Un_iff fun_upd_apply list.set_intros(1) set_append)
  ultimately show ?thesis
    unfolding pipeline_inv_def w'_def [symmetric] fifo eqs(2,3)
    using g out fifo_r ev_new
    by (intro conjI exI [of _ ?own] exI [of _ ?fp]) (assumption | simp add: eqs)+
qed

lemma initial_inv: "initial w \<Longrightarrow> pipeline_inv w"
  by (auto simp: initial_def pipeline_inv_def bounded_def fifo_ok_def in_fifo_def nreplies_def)

lemma reachable_inv: "reachable E w \<Longrightarrow> pipeline_inv w"
proof (induction rule: reachable.induct)
  case (start w)
  then show ?case by (rule initial_inv)
next
  case (step w w')
  from step.hyps(2) step.IH show ?case
    by cases (auto simp: submit_inv dest: event_step_inv)
qed

lemma fifo_append_only:
  "reachable E w \<Longrightarrow> (pipeline_step E)\<^sup>*\<^sup>* w w' \<Longrightarrow> \<exists>is. fifo_reqs w' = fifo_reqs w @ is \<and> reachable E w'"
proof (rotate_tac, induction rule: rtranclp_induct)
  case (step v w')
  then obtain "is" where v: "fifo_reqs v = fifo_reqs w @ is" "reachable E v" by blast
  have "\<exists>js. fifo_reqs w' = fifo_reqs v @ js"
    using step.hyps(2)
  proof cases
    case thread
    with event_step_inv [OF reachable_inv [OF v(2)]] show ?thesis by blast
  qed (simp add: dsched_alloc_fn_def obj_create_def DSCHED_THREADSHIFT_def)
  with v step.hyps(2) show ?case by (auto intro: reachable.step)
qed simp

text \<open>The number of replies to a request in a reachable state.\<close>

lemma inv_replies:
  assumes "pipeline_inv w" "w_reqs w r = Some req"
  shows "nreplies w r \<le> total req"
proof -
  from assms obtain own fp where
    own: "\<forall>e\<in>set (events w). chain w e (own e) (fp e)"
      "w_reqs w r \<noteq> None \<longrightarrow> (\<forall>e\<in>set (events w). own e \<noteq> r) \<longrightarrow> answered w r"
    unfolding pipeline_inv_def by blast
  have "owed req \<le> total req" by (simp add: owed_def total_def)
  moreover have "nreplies w q \<le> total req'" if "chain w e q S" "w_reqs w q = Some req'" for e q S req'
    using that by (induction rule: chain.induct) (auto simp: req_at_def)
  ultimately show ?thesis
    using own assms(2) unfolding answered_def by (metis option.distinct(1) option.inject order_refl)
qed

lemma inv_quiet:
  assumes "pipeline_inv w" "events w = []" "w_reqs w r = Some req"
  shows "nreplies w r = (if (KReq, r) \<in> freed w then owed req else total req)"
  using assms by (auto simp: pipeline_inv_def answered_def)

end

subsection \<open>Faults\<close>

text \<open>
  The events that can fault: the initialisation of a request whose directives
  carry values of the wrong type or that is refused while the library does not
  accept the release of a null pointer, and the completion of a request that
  was granted an allocation.
\<close>

definition may_fault :: "sched_env \<Rightarrow> world \<Rightarrow> event \<Rightarrow> bool" where
  "may_fault E w ev \<longleftrightarrow>
     (\<exists>r req. ev = (EB_main, CB_request_init, Some r) \<and> w_reqs w r = Some req
        \<and> (case parse_directives E (uninit_u64 E) req of
             Inl _ \<Rightarrow> True | Inr v \<Rightarrow> iv_rcerr v \<noteq> PMIX_SUCCESS \<and> \<not> null_release_ok E))
   \<or> (\<exists>c cd. ev = (EB_main, CB_meta_base_cbfunc, Some c) \<and> w_cads w c = Some cd
        \<and> pa_items (sc_allocations cd) \<noteq> [])"

context pipeline_env
begin

lemma request_init_returns:
  assumes ch: "chain w (EB_main, CB_request_init, Some r) q S" and b: "bounded w" "fifo_ok w"
    and out: "\<not> in_fifo w r" and nf: "\<not> may_fault E w (EB_main, CB_request_init, Some r)"
  shows "\<exists>w'. request_init E (Some r) w = Inr w'"
proof -
  obtain req where req: "w_reqs w r = Some req" using ch by (rule chain_request_initE)
  then obtain v where v: "parse_directives E (uninit_u64 E) req = Inr v"
    and e: "iv_rcerr v \<noteq> PMIX_SUCCESS \<longrightarrow> null_release_ok E"
    using nf by (auto simp: may_fault_def split: sum.splits)
  show ?thesis
    using request_init_moved [OF ch b] request_init_refused [OF ch b] req v e out
    by (cases "iv_rcerr v = PMIX_SUCCESS") auto
qed

lemma callback_returns:
  assumes ch: "chain w ev r S" and b: "bounded w" "fifo_ok w"
    and act: "meta_actives w = [''pri'']" "sched_actives w = [''fifo'']"
    and out: "\<And>q. ev = (EB_main, CB_request_init, Some q) \<Longrightarrow> \<not> in_fifo w q"
    and nf: "\<not> may_fault E w ev"
  shows "\<exists>w'. run_callback E (fst (snd ev)) (snd (snd ev)) w = Inr w'"
  using ch
proof cases
  case (submitted req)
  with request_init_returns [of w r r S] ch b out nf show ?thesis by (auto simp: run_callback_def)
next
  case accepted
  with meta_schedule_moved [of w r r S] ch b act show ?thesis by (auto simp: run_callback_def)
next
  case (at_meta m c)
  with pri_sched_moved [of w c r S] ch b show ?thesis by (auto simp: run_callback_def)
next
  case (to_sched m c)
  with sched_schedule_moved [of w c r S] ch b act show ?thesis by (auto simp: run_callback_def)
next
  case (at_fifo m c s t)
  with fifo_sched_moved [of w s r S] ch b show ?thesis by (auto simp: run_callback_def)
next
  case (from_fifo m c s t scd as)
  with sched_cbfunc_moved [of w s r S] ch b show ?thesis by (auto simp: run_callback_def)
next
  case (returned m c t cd as)
  with pri_cbfunc_moved [of w c r S] ch b show ?thesis by (auto simp: run_callback_def)
next
  case (completed m c t cd as)
  with nf have "pa_items (sc_allocations cd) = []" by (simp add: may_fault_def)
  with completed have "\<forall>a. (KAlloc, a) \<notin> S" by auto
  with completed meta_cbfunc_finished(2) [of w c r S] ch b show ?thesis
    by (auto simp: run_callback_def)
qed

lemma event_returns:
  assumes inv: "pipeline_inv w" and ev: "ev \<in> set (events w)" and nf: "\<not> may_fault E w ev"
  shows "\<exists>w'. run_event E ev w = Inr w'"
proof -
  from inv obtain own fp where "\<forall>e\<in>set (events w). chain w e (own e) (fp e)"
    and g: "meta_actives w = [''pri'']" "sched_actives w = [''fifo'']" "bounded w" "fifo_ok w"
    and out: "\<forall>q. (EB_main, CB_request_init, Some q) \<in> set (events w) \<longrightarrow> \<not> in_fifo w q"
    unfolding pipeline_inv_def by blast
  then have ch: "chain (w\<lparr>events := remove1 ev (events w)\<rparr>) ev (own ev) (fp ev)"
    using ev by (blast intro: chain_events)
  show ?thesis
    unfolding run_event_def
    by (rule callback_returns [OF ch]) (use g out nf ev in \<open>auto simp: may_fault_def\<close>)
qed

text \<open>Running events until none is left that is known not to fault.\<close>

lemma runs_to_end:
  assumes "pipeline_inv w"
  shows "\<exists>w'. (event_step E)\<^sup>*\<^sup>* w w' \<and> pipeline_inv w' \<and> (\<forall>ev\<in>set (events w'). may_fault E w' ev)"
  using assms
proof (induction "weight w" arbitrary: w rule: less_induct)
  case less
  show ?case
  proof (cases "\<forall>ev\<in>set (events w). may_fault E w ev")
    case False
    then obtain ev w1 where st: "event_step E w w1"
      using event_returns [OF less.prems] event_step.run by blast
    with event_step_inv [OF less.prems st] less.hyps [of w1] show ?thesis
      by (meson converse_rtranclp_into_rtranclp)
  qed (use less.prems in blast)
qed

lemma steps_bounded:
  assumes "(event_step E ^^ n) w w'" "pipeline_inv w"
  shows "pipeline_inv w' \<and> n + weight w' \<le> weight w"
  using assms
proof (induction n arbitrary: w')
  case (Suc n)
  then obtain v where v: "(event_step E ^^ n) w v" "event_step E v w'" by auto
  with Suc.IH [of v] Suc.prems event_step_inv [of v w'] show ?case by fastforce
qed simp

end


subsection \<open>Runs on the reference libraries\<close>

interpretation ref_pipeline: pipeline_env ref_env
  by (rule pipeline_env.intro)
    (simp_all add: ref_env_def ref_array.pointer_array_axioms ref_obj.ref_count_axioms)

lemma initial_start: "initial (start_world g nodes n)"
  by (simp add: initial_def start_world_def)

text \<open>A run that always takes the oldest event.\<close>

fun run_oldest :: "sched_env \<Rightarrow> nat \<Rightarrow> world \<Rightarrow> world res" where
  "run_oldest E 0 w = Inr w"
| "run_oldest E (Suc n) w =
     (case events w of
        [] \<Rightarrow> Inr w
      | ev # _ \<Rightarrow> res_bind (run_event E ev w) (run_oldest E n))"

lemma run_oldest_reachable:
  "reachable E w \<Longrightarrow> run_oldest E n w = Inr w' \<Longrightarrow> reachable E w'"
proof (induction n arbitrary: w)
  case (Suc n)
  show ?case
  proof (cases "events w")
    case (Cons ev es)
    then obtain v where v: "run_event E ev w = Inr v" "run_oldest E n v = Inr w'"
      using Suc.prems by auto
    have "event_step E w v" using v(1) Cons by (intro event_step.run) auto
    with Suc.prems(1) have "reachable E v" by (blast intro: reachable.step pipeline_step.thread)
    with Suc.IH v(2) show ?thesis by blast
  qed (use Suc.prems in simp)
qed simp

end
