(* ===== verification/Pipeline_Properties.thy ===== *)
theory Pipeline_Properties
  imports Pipeline_Invariant
begin

text \<open>
  The properties of the scheduling pipeline: what every interleaving of
  submissions and events guarantees, and what the grant of an allocation does
  to the nodes.
\<close>

subsection \<open>A sample run\<close>

lemmas run_defs = run_event_def run_callback_def request_init_def parse_directives_def
  init_directive_def init_count_def init_string_def set_req_def dsched_meta_base_schedule_def
  meta_schedule_fn_def pri_myschedule_def in_progress_def pri_sched_def dsched_sched_base_schedule_def
  sched_schedule_fn_def fifo_schedule_def fifo_sched_def fifo_enqueue_def fifo_allocate_def
  dsched_sched_base_cbfunc_def trk_responded_def pri_sched_cbfunc_def dsched_meta_base_cbfunc_def
  meta_responded_def release_req_def release_meta_def dmetades_def release_caddy_def sdes_def
  release_trk_def release_alloc_def alloc_des_def release_node_def req_des_def handler_defs
  dmetacon_def tcon_def scon_def drtcon_def req_con_def

lemmas sample_defs = dsched_alloc_fn_def start_world_def ref_env_def int_of_u64_def sample_globals_def
  dsched_globals_init_def pa_items_def ref_add_def ref_set_def

text \<open>One request for one node, with two nodes available.\<close>

definition sample_submitted :: world where
  "sample_submitted = snd (dsched_alloc_fn ref_env \<lparr>p_nspace = ''job'', p_rank = 0\<rparr> 1
     [\<lparr>i_key = PMIX_ALLOC_NUM_NODES, i_val = VNumber 1\<rparr>] (Some 42) 7 0
     (start_world (sample_globals\<lparr>g_avail_nnodes := 2\<rparr>) sample_nodes 10))"

lemma sample_submitted_reachable: "reachable ref_env sample_submitted"
  unfolding sample_submitted_def
  by (rule reachable.step [OF reachable.start [OF initial_start] pipeline_step.submit])

lemma sample_run:
  "\<exists>w req. run_oldest ref_env 8 sample_submitted = Inr w \<and> events w = []
     \<and> map rp_status (replies w) = [PMIX_SUCCESS] \<and> w_reqs w 10 = Some req
     \<and> r_cbfunc req = Some 42 \<and> \<not> not_waiting req \<and> (KReq, 10) \<notin> freed w \<and> reachable ref_env w"
proof -
  have "\<exists>w req. run_oldest ref_env 8 sample_submitted = Inr w \<and> events w = []
     \<and> map rp_status (replies w) = [PMIX_SUCCESS] \<and> w_reqs w 10 = Some req
     \<and> r_cbfunc req = Some 42 \<and> \<not> not_waiting req \<and> (KReq, 10) \<notin> freed w"
    by (simp add: eval_nat_numeral sample_submitted_def sample_defs run_defs not_waiting_def)
  then show ?thesis
    using run_oldest_reachable [OF sample_submitted_reachable] by metis
qed

subsection \<open>Replies\<close>

text \<open>
  C1. In every reachable state, whatever the order in which the threads run
  the events and new requests arrive, a request has had at most the replies it
  is entitled to: none without a callback, two when the requestor does not
  wait, one otherwise.
\<close>

theorem replies_at_most:
  assumes "pipeline_env E" and "reachable E w" and "w_reqs w r = Some req"
  shows "nreplies w r \<le> (if r_cbfunc req = None then 0 else if not_waiting req then 2 else 1)"
  using pipeline_env.inv_replies [OF assms(1) pipeline_env.reachable_inv [OF assms(1,2)] assms(3)]
  by (simp add: total_def)

theorem replies_at_most_witness:
  "\<exists>w. reachable ref_env w \<and> length (replies w) = 1 \<and> nreplies w 10 \<le> 1"
proof -
  obtain w req where "reachable ref_env w" "w_reqs w 10 = Some req" "r_cbfunc req = Some 42"
    "\<not> not_waiting req" "map rp_status (replies w) = [PMIX_SUCCESS]"
    using sample_run by metis
  then show ?thesis
    using replies_at_most [OF ref_pipeline.pipeline_env_axioms, of w 10 req]
    by (intro exI [of _ w]) (auto dest: arg_cong [of _ _ length])
qed

text \<open>
  C2. When no event is pending, every request has had its replies in full: one
  if it was refused (and then it has been freed), otherwise two when the
  requestor does not wait and one when it waits; none without a callback.
\<close>

theorem quiescent_all_answered:
  assumes "pipeline_env E" and "reachable E w" and "events w = []" and "w_reqs w r = Some req"
  shows "nreplies w r =
     (if r_cbfunc req = None then 0 else if (KReq, r) \<notin> freed w \<and> not_waiting req then 2 else 1)"
  using pipeline_env.inv_quiet [OF assms(1) pipeline_env.reachable_inv [OF assms(1,2)] assms(3,4)]
  by (simp add: total_def owed_def)

theorem quiescent_all_answered_witness:
  "\<exists>w. reachable ref_env w \<and> events w = [] \<and> nreplies w 10 = 1"
proof -
  obtain w req where "reachable ref_env w" "events w = []" "w_reqs w 10 = Some req"
    "r_cbfunc req = Some 42" "\<not> not_waiting req"
    using sample_run by metis
  then show ?thesis
    using quiescent_all_answered [OF ref_pipeline.pipeline_env_axioms, of w 10 req] by auto
qed

text \<open>
  C4. The pending events of a reachable state come to an end: no run of events
  is longer than the sum of the steps that the pending requests have left, at
  most eight for each.
\<close>

theorem event_runs_bounded:
  assumes "pipeline_env E" and "reachable E w" and "(event_step E ^^ n) w w'"
  shows "n + weight w' \<le> weight w \<and> weight w \<le> 8 * length (events w)"
proof -
  have "rank cb \<le> 8" for cb by (cases cb) simp_all
  then have "weight_of es \<le> 8 * length es" for es
    by (induction es) (auto simp: weight_of_def intro!: add_mono)
  then show ?thesis
    using pipeline_env.steps_bounded [OF assms(1,3) pipeline_env.reachable_inv [OF assms(1,2)]]
    by (simp add: weight_def)
qed

theorem event_runs_bounded_witness:
  "\<exists>w. (event_step ref_env ^^ 1) sample_submitted w \<and> 1 + weight w \<le> weight sample_submitted
     \<and> weight sample_submitted \<le> 8"
proof -
  have "\<exists>ev es w. events sample_submitted = ev # es \<and> es = [] \<and> run_event ref_env ev sample_submitted = Inr w"
    by (simp add: sample_submitted_def sample_defs run_defs)
  then obtain ev w where ev: "events sample_submitted = [ev]" "run_event ref_env ev sample_submitted = Inr w"
    by metis
  then have "event_step ref_env sample_submitted w" by (intro event_step.run [of ev]) simp_all
  then have step: "(event_step ref_env ^^ 1) sample_submitted w" by (simp only: relpowp_1)
  from event_runs_bounded [OF ref_pipeline.pipeline_env_axioms sample_submitted_reachable step] step ev(1)
  show ?thesis by (intro exI [of _ w]) simp
qed

text \<open>
  C3. In a reachable state an event returns unless it initialises a request
  whose directives have values of the wrong type, or one that is refused while
  the library does not accept the release of a null pointer, or completes a
  request that was granted an allocation. The pending events can therefore be
  run until only such events are left, and if none is left every request has
  been answered.
\<close>

theorem pipeline_completes:
  assumes "pipeline_env E" and "reachable E w"
  shows "\<exists>w'. (event_step E)\<^sup>*\<^sup>* w w' \<and> reachable E w'
     \<and> (\<forall>ev\<in>set (events w'). may_fault E w' ev)
     \<and> (events w' = [] \<longrightarrow> (\<forall>r req. w_reqs w' r = Some req \<longrightarrow>
          nreplies w' r = (if (KReq, r) \<in> freed w' then owed req else total req)))"
proof -
  obtain w' where w': "(event_step E)\<^sup>*\<^sup>* w w'" "pipeline_inv w'" "\<forall>ev\<in>set (events w'). may_fault E w' ev"
    using pipeline_env.runs_to_end [OF assms(1) pipeline_env.reachable_inv [OF assms]] by blast
  have "reachable E w'"
    using w'(1) assms(2) by (induction rule: rtranclp_induct) (blast intro: reachable.step pipeline_step.thread)+
  with w' pipeline_env.inv_quiet [OF assms(1) w'(2)] show ?thesis by blast
qed

theorem pipeline_completes_witness:
  "\<exists>w'. (event_step ref_env)\<^sup>*\<^sup>* sample_submitted w' \<and> list_all (may_fault ref_env w') (events w')"
  using pipeline_completes [OF ref_pipeline.pipeline_env_axioms sample_submitted_reachable]
  unfolding list_all_iff by blast


subsection \<open>The fifo list\<close>

text \<open>
  C27. The list of the fifo scheduler only grows: once a request is at its head
  it stays there, whatever happens afterwards, also when it has been granted
  its allocation and answered. Every later request is tried with the number of
  nodes of that first one.
\<close>

theorem fifo_head_stays:
  assumes "pipeline_env E" and "reachable E w" and "fifo_reqs w = i # is"
    and "(pipeline_step E)\<^sup>*\<^sup>* w w'"
  shows "\<exists>js. fifo_reqs w' = i # is @ js"
  using pipeline_env.fifo_append_only [OF assms(1,2,4)] assms(3) by auto

theorem fifo_head_stays_witness:
  "\<exists>w i. reachable ref_env w \<and> events w = [] \<and> fifo_reqs w = [i]
     \<and> (\<exists>js. fifo_reqs (snd (dsched_alloc_fn ref_env \<lparr>p_nspace = ''job'', p_rank = 1\<rparr> 1 [] None 0 0 w)) = i # js)"
proof -
  obtain w where w: "run_oldest ref_env 8 sample_submitted = Inr w" "events w = []" "\<exists>i. fifo_reqs w = [i]"
    by (simp add: eval_nat_numeral sample_submitted_def sample_defs run_defs)
  then obtain i where i: "fifo_reqs w = [i]" by blast
  have r: "reachable ref_env w" using run_oldest_reachable [OF sample_submitted_reachable w(1)] .
  have "(pipeline_step ref_env)\<^sup>*\<^sup>* w (snd (dsched_alloc_fn ref_env \<lparr>p_nspace = ''job'', p_rank = 1\<rparr> 1 [] None 0 0 w))"
    by (intro r_into_rtranclp pipeline_step.submit)
  from fifo_head_stays [OF ref_pipeline.pipeline_env_axioms r i this] r w(2) i show ?thesis by auto
qed

subsection \<open>The nodes of a grant\<close>

context pipeline_env
begin

lemma release_nodes_free:
  assumes "distinct ns" "\<forall>p\<in>set ns. live w KNode p 1"
  shows "\<exists>w'. res_fold (release_node E) ns w = Inr w' \<and> glob w' = glob w
     \<and> freed w' = freed w \<union> Pair KNode ` set ns
     \<and> (\<forall>ob. fst ob \<noteq> KNode \<longrightarrow> refcnt w' ob = refcnt w ob)"
  using assms
proof (induction ns arbitrary: w)
  case (Cons p ns)
  let ?v = "w\<lparr>refcnt := (refcnt w)((KNode, p) := 0), freed := insert (KNode, p) (freed w),
      w_nodes := (w_nodes w)(p := map_option dsched_node_destruct (w_nodes w p))\<rparr>"
  have v: "release_node E p w = Inr ?v"
    using Cons.prems by (simp add: release_node_def obj_unref_def live_def)
  have live: "\<forall>q\<in>set ns. live ?v KNode q 1" using Cons.prems by (auto simp: live_def)
  obtain w' where "res_fold (release_node E) ns ?v = Inr w' \<and> glob w' = glob ?v
     \<and> freed w' = freed ?v \<union> Pair KNode ` set ns
     \<and> (\<forall>ob. fst ob \<noteq> KNode \<longrightarrow> refcnt w' ob = refcnt ?v ob)"
    using Cons.IH [OF _ live] Cons.prems(1) by auto
  with v show ?case by auto
qed simp

lemma completed_releases:
  assumes ch: "chain w (EB_main, CB_meta_base_cbfunc, Some c) r S"
    and cd: "w_cads w c = Some cd" "pa_items (sc_allocations cd) = [a]"
    and al: "w_allocs w a = Some al" "distinct (pa_items (al_allocation al))"
      "\<forall>p\<in>set (pa_items (al_allocation al)). live w KNode p 1"
  shows "\<exists>w'. dsched_meta_base_cbfunc E (Some c) w = Inr w'
     \<and> (\<forall>p\<in>set (pa_items (al_allocation al)). (KNode, p) \<in> freed w')
     \<and> g_nodes (glob w') = g_nodes (glob w)"
proof -
  obtain m t where at: "req_at w r 3" "meta_at w m r" "live w KCad c 1" "trk_at w t c 1"
    and mt: "sc_mt cd = Some m" "sc_trk cd = Some t" and as: "allocs_at w [a]"
    using ch cd by (elim chain_meta_cbfuncE) auto
  obtain req where req: "w_reqs w r = Some req" using at(1) by (auto simp: req_at_def)
  define u where "u = replied r m req w"
  define v where "v = u\<lparr>refcnt := (refcnt u)((KCad, c) := 0, (KAlloc, a) := 0),
      freed := insert (KAlloc, a) (insert (KCad, c) (freed u))\<rparr>"
  have run: "dsched_meta_base_cbfunc E (Some c) w = release_caddy E c u"
    unfolding u_def using at req cd mt by (intro meta_cbfunc_replied) (auto simp: req_at_def)
  have v: "live v KTrk t 1" "\<forall>p\<in>set (pa_items (al_allocation al)). live v KNode p 1"
    "g_nodes (glob v) = g_nodes (glob w)"
    using at as al by (auto simp: v_def u_def at_defs)
  have "release_caddy E c u = res_bind (res_fold (release_node E) (pa_items (al_allocation al)) v) (release_trk E t)"
  proof -
    have "(KCad, c) \<notin> freed u" "refcnt u (KCad, c) = 1" "w_cads u c = Some cd" "w_allocs u a = Some al"
      "(KAlloc, a) \<notin> freed u" "refcnt u (KAlloc, a) = 1"
      using at as cd al(1) by (simp_all add: u_def at_defs)
    then show ?thesis
      using mt cd(2)
      by (simp add: release_caddy_def sdes_def release_alloc_def alloc_des_def obj_unref_def live_get_def
          v_def res_bind_assoc)
  qed
  moreover obtain w' where w': "res_fold (release_node E) (pa_items (al_allocation al)) v = Inr w'"
    "glob w' = glob v" "freed w' = freed v \<union> Pair KNode ` set (pa_items (al_allocation al))"
    "\<forall>ob. fst ob \<noteq> KNode \<longrightarrow> refcnt w' ob = refcnt v ob"
    using release_nodes_free [OF al(2) v(2)] by blast
  moreover have "(KTrk, t) \<notin> freed w'" using v(1) w'(3) by (auto simp: live_def)
  ultimately show ?thesis
    using v by (simp add: run release_trk_def obj_unref_def)
qed

end

text \<open>
  C28. Completing a request that was granted an allocation gives the nodes of the
  allocation back to the library although they are still in the global node
  table: the allocation holds no reference of its own to them.
\<close>

theorem completion_frees_nodes:
  assumes "pipeline_env E" and "chain w (EB_main, CB_meta_base_cbfunc, Some c) r S"
    and "w_cads w c = Some cd" and "pa_items (sc_allocations cd) = [a]"
    and "w_allocs w a = Some al" and "distinct (pa_items (al_allocation al))"
    and "\<forall>p\<in>set (pa_items (al_allocation al)). live w KNode p 1"
  shows "\<exists>w'. dsched_meta_base_cbfunc E (Some c) w = Inr w'
     \<and> (\<forall>p\<in>set (pa_items (al_allocation al)). (KNode, p) \<in> freed w')
     \<and> g_nodes (glob w') = g_nodes (glob w)"
  using pipeline_env.completed_releases [OF assms] .

text \<open>The completion event of the sample run.\<close>

theorem completion_frees_nodes_witness:
  "\<exists>w c w'. run_oldest ref_env 7 sample_submitted = Inr w \<and> pa_get (g_nodes (glob w)) 1 = Some 1
     \<and> dsched_meta_base_cbfunc ref_env (Some c) w = Inr w' \<and> (KNode, 1) \<in> freed w'
     \<and> pa_get (g_nodes (glob w')) 1 = Some 1"
proof -
  obtain w where w: "run_oldest ref_env 7 sample_submitted = Inr w"
    "events w = [(EB_main, CB_meta_base_cbfunc, Some 12)]"
    "\<exists>cd a al. w_cads w 12 = Some cd \<and> pa_items (sc_allocations cd) = [a] \<and> w_allocs w a = Some al
       \<and> pa_items (al_allocation al) = [1] \<and> live w KNode 1 1 \<and> pa_get (g_nodes (glob w)) 1 = Some 1"
    by (simp add: eval_nat_numeral sample_submitted_def sample_defs run_defs live_def pa_get_def)
  then obtain cd a al where cd: "w_cads w 12 = Some cd" "pa_items (sc_allocations cd) = [a]"
    "w_allocs w a = Some al" "pa_items (al_allocation al) = [1]" "live w KNode 1 1"
    "pa_get (g_nodes (glob w)) 1 = Some 1"
    by metis
  have "reachable ref_env w" using run_oldest_reachable [OF sample_submitted_reachable w(1)] .
  then obtain r S where ch: "chain w (EB_main, CB_meta_base_cbfunc, Some 12) r S"
    using ref_pipeline.reachable_inv w(2) unfolding pipeline_inv_def by force
  obtain w' where w': "dsched_meta_base_cbfunc ref_env (Some 12) w = Inr w'" "(KNode, 1) \<in> freed w'"
    "g_nodes (glob w') = g_nodes (glob w)"
    using completion_frees_nodes [OF ref_pipeline.pipeline_env_axioms ch cd(1-3)] cd by auto
  with w(1) cd show ?thesis by (intro exI [of _ w] exI [of _ "12 :: nat"] exI [of _ w']) simp
qed

end
