(* ===== verification/C_Strings.thy ===== *)
theory C_Strings
  imports Dsched_Prelude
begin

text \<open>
  The string functions of the C library that several components call, on
  strings without their terminating null.
\<close>

subsection \<open>Numbers\<close>

definition c_isspace :: "char \<Rightarrow> bool" where
  "c_isspace c \<longleftrightarrow> c = CHR '' '' \<or> (9 \<le> (of_char c :: nat) \<and> (of_char c :: nat) \<le> 13)"

definition c_isdigit :: "char \<Rightarrow> bool" where
  "c_isdigit c \<longleftrightarrow> 48 \<le> (of_char c :: nat) \<and> (of_char c :: nat) \<le> 57"

fun digits_value :: "nat \<Rightarrow> string \<Rightarrow> nat" where
  "digits_value acc [] = acc"
| "digits_value acc (c # cs) = digits_value (10 * acc + (of_char c - 48)) cs"

text \<open>
  \<open>strtoul (s, &end, 10)\<close>: the value and the text from \<open>end\<close> on. Without
  digits the value is zero and \<open>end\<close> is \<open>s\<close>; a value that does not fit gives
  the largest one; a minus sign negates modulo the width.
\<close>

definition strtoul :: "string \<Rightarrow> u64 \<times> string" where
  "strtoul s =
     (let t = dropWhile c_isspace s;
          neg = (t \<noteq> [] \<and> hd t = CHR ''-'');
          u = (if t \<noteq> [] \<and> (hd t = CHR ''-'' \<or> hd t = CHR ''+'') then tl t else t);
          ds = takeWhile c_isdigit u; v = digits_value 0 ds
      in if ds = [] then (0, s)
         else (if 2 ^ 64 \<le> v then - 1 else if neg then - of_nat v else of_nat v,
               dropWhile c_isdigit u))"

lemma c_isdigit_cases:
  "c_isdigit c \<Longrightarrow> \<not> c_isspace c \<and> c \<noteq> CHR ''-'' \<and> c \<noteq> CHR ''+''"
  by (auto simp: c_isdigit_def c_isspace_def)

lemma strtoul_digits:
  assumes "list_all c_isdigit ds" and "ds \<noteq> []" and "rest = [] \<or> \<not> c_isdigit (hd rest)"
    and "digits_value 0 ds < 2 ^ 64"
  shows "strtoul (ds @ rest) = (of_nat (digits_value 0 ds), rest)"
proof -
  obtain c cs where ds: "ds = c # cs" using assms(2) by (cases ds) auto
  have c: "\<not> c_isspace c" "c \<noteq> CHR ''-''" "c \<noteq> CHR ''+''"
    using assms(1) c_isdigit_cases [of c] by (simp_all add: ds)
  have rest: "takeWhile c_isdigit rest = []" "dropWhile c_isdigit rest = rest"
    using assms(3) by (cases rest; simp)+
  have "takeWhile c_isdigit (ds @ rest) = ds" "dropWhile c_isdigit (ds @ rest) = rest"
    using assms(1) rest by (simp_all add: list_all_iff)
  moreover have "dropWhile c_isspace (ds @ rest) = ds @ rest" "hd (ds @ rest) = c"
    using c by (simp_all add: ds)
  ultimately show ?thesis using assms(2,4) c by (simp add: strtoul_def Let_def)
qed

lemma int_of_u64_small: "n < 2 ^ 31 \<Longrightarrow> int_of_u64 (of_nat n) = int n"
  by (simp add: int_of_u64_def sint_uint signed_take_bit_int_eq_self_iff take_bit_nat_eq_self
      unsigned_ucast_eq uint_nat unat_of_nat signed_take_bit_eq_if_positive take_bit_int_eq_self)

subsection \<open>Searching\<close>

text \<open>\<open>strstr\<close>: where the first occurrence of the second string begins.\<close>

fun strstr :: "string \<Rightarrow> string \<Rightarrow> nat option" where
  "strstr [] pat = (if pat = [] then Some 0 else None)"
| "strstr (c # cs) pat =
     (if take (length pat) (c # cs) = pat then Some 0 else map_option Suc (strstr cs pat))"

lemma strstr_skip:
  "pat \<noteq> [] \<Longrightarrow> hd pat \<notin> set xs \<Longrightarrow> strstr (xs @ ys) pat = map_option ((+) (length xs)) (strstr ys pat)"
proof (induction xs)
  case Nil
  then show ?case by (simp add: option.map_ident)
next
  case (Cons x xs)
  have "take (length pat) ((x # xs) @ ys) \<noteq> pat" using Cons.prems by (cases pat) auto
  then show ?case using Cons by (simp add: option.map_comp comp_def)
qed

lemma strstr_here: "strstr (pat @ ys) pat = Some 0"
  by (cases pat; cases ys) simp_all

subsection \<open>Printing numbers\<close>

fun nat_dec :: "nat \<Rightarrow> string" where
  "nat_dec n = (if n < 10 then [char_of (48 + n)] else nat_dec (n div 10) @ [char_of (48 + n mod 10)])"

declare nat_dec.simps [simp del]

definition int_dec :: "int \<Rightarrow> string" where
  "int_dec i = (if i < 0 then CHR ''-'' # nat_dec (nat (- i)) else nat_dec (nat i))"

lemma nat_dec_digits: "list_all c_isdigit (nat_dec n) \<and> nat_dec n \<noteq> []"
proof (induction n rule: nat_dec.induct)
  case (1 n)
  have digit: "c_isdigit (char_of (48 + k))" if "k < 10" for k :: nat
    using that by (simp add: c_isdigit_def)
  show ?case
  proof (cases "n < 10")
    case True
    then show ?thesis using digit by (subst nat_dec.simps) (simp add: nat_dec.simps)
  next
    case False
    then show ?thesis using 1 digit [of "n mod 10"] by (simp add: nat_dec.simps [of n])
  qed
qed

lemma digits_value_snoc: "digits_value acc (ds @ [c]) = 10 * digits_value acc ds + (of_char c - 48)"
  by (induction ds arbitrary: acc) simp_all

lemma digits_value_nat_dec: "digits_value 0 (nat_dec n) = n"
proof (induction n rule: nat_dec.induct)
  case (1 n)
  show ?case
  proof (cases "n < 10")
    case True
    then show ?thesis by (simp add: nat_dec.simps [of n])
  next
    case False
    then show ?thesis using 1 by (simp add: nat_dec.simps [of n] digits_value_snoc)
  qed
qed

subsection \<open>Scanning version numbers\<close>

text \<open>\<open>%u\<close>: the number and the rest of the input, \<open>None\<close> when there is no number.\<close>

definition scan_u :: "string \<Rightarrow> (u32 \<times> string) option" where
  "scan_u s = (let (v, rest) = strtoul s in if rest = s then None else Some (ucast v, rest))"

definition scan_dot :: "string \<Rightarrow> string option" where
  "scan_dot s = (case s of [] \<Rightarrow> None | c # cs \<Rightarrow> if c = CHR ''.'' then Some cs else None)"

text \<open>\<open>%u.%u.%u\<close>: a variable that is not reached stays as it was.\<close>

definition scan_triple :: "string \<Rightarrow> (u32 \<times> u32 \<times> u32) option" where
  "scan_triple s =
     Option.bind (scan_u s) (\<lambda>(a, s). Option.bind (scan_dot s) (\<lambda>s.
     Option.bind (scan_u s) (\<lambda>(b, s). Option.bind (scan_dot s) (\<lambda>s.
     Option.bind (scan_u s) (\<lambda>(c, s). Some (a, b, c))))))"

lemma scan_u_nat_dec:
  assumes "n < 2 ^ 32" and "rest = [] \<or> \<not> c_isdigit (hd rest)"
  shows "scan_u (nat_dec n @ rest) = Some (of_nat n, rest)"
proof -
  have "strtoul (nat_dec n @ rest) = (of_nat n, rest)"
    using strtoul_digits [of "nat_dec n" rest] nat_dec_digits [of n] digits_value_nat_dec [of n] assms by simp
  moreover have "rest \<noteq> nat_dec n @ rest" using nat_dec_digits [of n] by simp
  moreover have "(ucast (of_nat n :: u64) :: u32) = of_nat n"
    using assms(1) by (simp add: unsigned_of_nat take_bit_nat_eq_self)
  ultimately show ?thesis by (simp add: scan_u_def)
qed

lemma scan_triple_dec:
  assumes "a < 2 ^ 32" "b < 2 ^ 32" "c < 2 ^ 32" and "rest = [] \<or> \<not> c_isdigit (hd rest)"
  shows "scan_triple (nat_dec a @ CHR ''.'' # nat_dec b @ CHR ''.'' # nat_dec c @ rest)
     = Some (of_nat a, of_nat b, of_nat c)"
proof -
  have "\<not> c_isdigit CHR ''.''" by (simp add: c_isdigit_def)
  then show ?thesis using assms by (simp add: scan_triple_def scan_u_nat_dec scan_dot_def)
qed

text \<open>
  \<open>strtol (s, \<dots>, 10)\<close> with the text that is left over: white space, a sign, and
  digits, limited to 64 bits; nothing is used up when there is no digit.
\<close>

definition strtol :: "string \<Rightarrow> int \<times> string" where
  "strtol s =
     (let t = dropWhile c_isspace s;
          neg = (t \<noteq> [] \<and> hd t = CHR ''-'');
          u = (if t \<noteq> [] \<and> (hd t = CHR ''-'' \<or> hd t = CHR ''+'') then tl t else t);
          ds = takeWhile c_isdigit u; v = int (digits_value 0 ds)
      in if ds = [] then (0, s)
         else (if neg then max (- (2 ^ 63)) (- v) else min (2 ^ 63 - 1) v, drop (length ds) u))"

subsection \<open>The last occurrence of a character\<close>

fun strrchr :: "string \<Rightarrow> char \<Rightarrow> nat option" where
  "strrchr [] c = None"
| "strrchr (x # xs) c =
     (case strrchr xs c of Some i \<Rightarrow> Some (Suc i) | None \<Rightarrow> if x = c then Some 0 else None)"

lemma strrchr_None [simp]: "strrchr s c = None \<longleftrightarrow> c \<notin> set s"
  by (induction s) (auto split: option.splits)

lemma strrchr_last: "c \<notin> set t \<Longrightarrow> strrchr (s @ c # t) c = Some (length s)"
  by (induction s) (auto simp: strrchr_None [THEN iffD2])

text \<open>\<open>0 == strcasecmp (s, t)\<close> in the C locale.\<close>

definition c_tolower :: "char \<Rightarrow> char" where
  "c_tolower c = (let n = of_char c :: nat in if 65 \<le> n \<and> n \<le> 90 then char_of (n + 32) else c)"

definition same_nocase :: "string \<Rightarrow> string \<Rightarrow> bool" where
  "same_nocase s t \<longleftrightarrow> map c_tolower s = map c_tolower t"

end
