(* ===== verification/Progress_Threads.thy ===== *)
theory Progress_Threads
  imports C_Strings Dsched_Constants Globals
begin

text \<open>
  Progress threads (\<open>runtime/dsched_progress_threads.c\<close>): named threads that
  each drive an event base, shared by the components that ask for the same
  name. The calls into libevent and the thread library are recorded in order.
\<close>

subsection \<open>Data\<close>

datatype pt_op =
    Op_base_create "nat option" | Op_event_set nat | Op_event_add nat | Op_event_del "nat option"
  | Op_thread_start nat | Op_setaffinity nat "int set" | Op_loopexit nat | Op_thread_join nat
  | Op_base_free nat | Op_thread_destruct "nat option"

text \<open>
  \<open>tr_block\<close> tells whether the event \<open>block\<close> has been assigned to the base.
\<close>

record dsched_progress_tracker =
  tr_refcount :: int
  tr_name :: "string option"
  tr_ev_base :: "nat option"
  tr_ev_active :: bool
  tr_block :: bool
  tr_engine_constructed :: bool

record progress =
  pg_inited :: bool
  pg_tracking :: "dsched_progress_tracker list"
  pg_ops :: "pt_op list"

text \<open>
  The libraries: what creating a base, starting a thread and binding it return
  may depend on everything that was called before. \<open>setaffinity_np\<close> is \<open>None\<close>
  where the platform has no \<open>pthread_setaffinity_np\<close>.
\<close>

record thread_api =
  base_create :: "pt_op list \<Rightarrow> nat option"
  thread_start :: "pt_op list \<Rightarrow> int"
  setaffinity_np :: "(pt_op list \<Rightarrow> int set \<Rightarrow> int) option"
  argv_split :: "string \<Rightarrow> char \<Rightarrow> string list"

definition emit :: "pt_op \<Rightarrow> progress \<Rightarrow> progress" where
  "emit op p = p\<lparr>pg_ops := pg_ops p @ [op]\<rparr>"

definition tracker_constructor :: dsched_progress_tracker where
  "tracker_constructor =
     \<lparr>tr_refcount = 1, tr_name = None, tr_ev_base = None, tr_ev_active = False,
      tr_block = False, tr_engine_constructed = False\<rparr>"

definition progress_init :: progress where
  "progress_init = \<lparr>pg_inited = False, pg_tracking = [], pg_ops = []\<rparr>"

definition shared_thread_name :: string where
  "shared_thread_name = ''DSCHED-wide async progress thread''"

subsection \<open>Trackers\<close>

text \<open>Runs when the tracker is released, since nobody else retains it.\<close>

definition tracker_destructor :: "dsched_progress_tracker \<Rightarrow> progress \<Rightarrow> progress res" where
  "tracker_destructor trk p =
     (if \<not> tr_block trk then Inl Uninitialised
      else
        let p = emit (Op_event_del (tr_ev_base trk)) p;
            p = (case tr_ev_base trk of None \<Rightarrow> p | Some b \<Rightarrow> emit (Op_base_free b) p)
        in Inr (if tr_engine_constructed trk then emit (Op_thread_destruct (tr_ev_base trk)) p else p))"

definition dummy_timeout_cb :: "dsched_progress_tracker \<Rightarrow> progress \<Rightarrow> progress res" where
  "dummy_timeout_cb trk p = res_bind (deref (tr_ev_base trk)) (\<lambda>b. Inr (emit (Op_event_add b) p))"

definition stop_progress_engine ::
  "dsched_progress_tracker \<Rightarrow> progress \<Rightarrow> (dsched_progress_tracker \<times> progress) res" where
  "stop_progress_engine trk p =
     (if \<not> tr_ev_active trk then Inl AssertFailed
      else res_bind (deref (tr_ev_base trk)) (\<lambda>b.
        Inr (trk\<lparr>tr_ev_active := False\<rparr>, emit (Op_thread_join b) (emit (Op_loopexit b) p))))"

text \<open>
  The list of cpu ranges. \<open>CPU_SET\<close> ignores a number that is not in the set's
  range. The end pointer of \<open>strtoul\<close> is never null, so the text after the first
  number is always skipped by one character and read as the end of the range;
  when the text ends there, that character is the terminating null and the
  number is read from beyond the string.
\<close>

definition CPU_SET :: "int \<Rightarrow> int set \<Rightarrow> int set" where
  "CPU_SET k S = (if 0 \<le> k \<and> k < 1024 then insert k S else S)"

definition cpu_range :: "string \<Rightarrow> int set \<Rightarrow> int set res" where
  "cpu_range s S =
     (let (v, dash) = strtoul s; start = int_of_u64 v
      in case dash of
           [] \<Rightarrow> Inl OutOfBounds
         | _ # cs \<Rightarrow>
             (let end = int_of_u64 (fst (strtoul cs)) in Inr (fold CPU_SET [start..end - 1] S)))"

text \<open>Binding the new thread, where the platform can.\<close>

definition bind_engine ::
  "thread_api \<Rightarrow> dsched_globals \<Rightarrow> nat \<Rightarrow> int \<Rightarrow> progress \<Rightarrow> (int \<times> progress) res" where
  "bind_engine L g b rc p =
     (case setaffinity_np L of
        None \<Rightarrow> Inr (rc, p)
      | Some setaffinity \<Rightarrow>
          (case g_progress_thread_cpus g of
             None \<Rightarrow> Inr (rc, p)
           | Some cpus \<Rightarrow>
               res_bind (res_fold cpu_range (argv_split L cpus CHR '','') {}) (\<lambda>cpuset.
                 Inr (if setaffinity (pg_ops p) cpuset \<noteq> 0 \<and> g_bind_progress_thread_reqd g
                      then DSCHED_ERR_NOT_SUPPORTED else DSCHED_SUCCESS,
                      emit (Op_setaffinity b cpuset) p))))"

definition start_progress_engine ::
  "thread_api \<Rightarrow> dsched_globals \<Rightarrow> dsched_progress_tracker \<Rightarrow> progress
     \<Rightarrow> (int \<times> dsched_progress_tracker \<times> progress) res" where
  "start_progress_engine L g trk p =
     (if tr_ev_active trk then Inl AssertFailed
      else res_bind (deref (tr_ev_base trk)) (\<lambda>b.
        let trk = trk\<lparr>tr_ev_active := True\<rparr>;
            rc = thread_start L (pg_ops p); p = emit (Op_thread_start b) p
        in res_bind (bind_engine L g b rc p) (\<lambda>(rc, p). Inr (rc, trk, p))))"

subsection \<open>The interface\<close>

text \<open>The search for an existing tracker, whose count goes up.\<close>

fun find_existing ::
  "string \<Rightarrow> dsched_progress_tracker list
     \<Rightarrow> (nat option \<times> dsched_progress_tracker list) option res" where
  "find_existing name [] = Inr None"
| "find_existing name (t # ts) =
     res_bind (deref (tr_name t)) (\<lambda>n.
       if name = n then Inr (Some (tr_ev_base t, t\<lparr>tr_refcount := tr_refcount t + 1\<rparr> # ts))
       else res_bind (find_existing name ts) (\<lambda>r. Inr (map_option (\<lambda>(b, us). (b, t # us)) r)))"

definition new_tracker ::
  "thread_api \<Rightarrow> dsched_globals \<Rightarrow> string \<Rightarrow> progress \<Rightarrow> (nat option \<times> progress) res" where
  "new_tracker L g name p =
     (let trk = tracker_constructor\<lparr>tr_name := Some name\<rparr>;
          base = base_create L (pg_ops p); p = emit (Op_base_create base) p;
          trk = trk\<lparr>tr_ev_base := base\<rparr>
      in case base of
           None \<Rightarrow> res_bind (tracker_destructor trk p) (\<lambda>p. Inr (None, p))
         | Some b \<Rightarrow>
             (let trk = trk\<lparr>tr_block := True, tr_engine_constructed := True\<rparr>;
                  p = emit (Op_event_add b) (emit (Op_event_set b) p)
              in res_bind (start_progress_engine L g trk p) (\<lambda>(rc, trk, p).
                   if rc \<noteq> DSCHED_SUCCESS then
                     res_bind (tracker_destructor trk p) (\<lambda>p. Inr (None, p))
                   else Inr (tr_ev_base trk, p\<lparr>pg_tracking := pg_tracking p @ [trk]\<rparr>))))"

definition thread_name :: "string option \<Rightarrow> string" where
  "thread_name name = (case name of None \<Rightarrow> shared_thread_name | Some s \<Rightarrow> s)"

definition dsched_progress_thread_init ::
  "thread_api \<Rightarrow> dsched_globals \<Rightarrow> string option \<Rightarrow> progress \<Rightarrow> (nat option \<times> progress) res" where
  "dsched_progress_thread_init L g name p =
     (let p = (if pg_inited p then p else p\<lparr>pg_tracking := [], pg_inited := True\<rparr>);
          name = thread_name name
      in res_bind (find_existing name (pg_tracking p)) (\<lambda>r.
           case r of
             Some (base, ts) \<Rightarrow> Inr (base, p\<lparr>pg_tracking := ts\<rparr>)
           | None \<Rightarrow> new_tracker L g name p))"

text \<open>The loops of the other three functions; \<open>pre\<close> are the trackers already passed.\<close>

fun finalize_loop ::
  "string \<Rightarrow> dsched_progress_tracker list \<Rightarrow> dsched_progress_tracker list \<Rightarrow> progress
     \<Rightarrow> (int \<times> progress) res" where
  "finalize_loop name pre [] p = Inr (DSCHED_ERR_NOT_FOUND, p)"
| "finalize_loop name pre (t # ts) p =
     res_bind (deref (tr_name t)) (\<lambda>n.
       if name = n then
         res_bind (if tr_ev_active t then stop_progress_engine t p else Inr (t, p)) (\<lambda>(t, p).
         res_bind (tracker_destructor t (p\<lparr>pg_tracking := pre @ ts\<rparr>)) (\<lambda>p.
           Inr (DSCHED_SUCCESS, p)))
       else finalize_loop name (pre @ [t]) ts p)"

definition dsched_progress_thread_finalize ::
  "string option \<Rightarrow> progress \<Rightarrow> (int \<times> progress) res" where
  "dsched_progress_thread_finalize name p =
     (if \<not> pg_inited p then Inr (DSCHED_ERR_NOT_FOUND, p)
      else finalize_loop (thread_name name) [] (pg_tracking p) p)"

fun pause_loop ::
  "string option \<Rightarrow> dsched_progress_tracker list \<Rightarrow> dsched_progress_tracker list \<Rightarrow> progress
     \<Rightarrow> progress res" where
  "pause_loop name pre [] p = Inr (p\<lparr>pg_tracking := pre\<rparr>)"
| "pause_loop name pre (t # ts) p =
     res_bind (case name of None \<Rightarrow> Inr True | Some s \<Rightarrow>
                 res_bind (deref (tr_name t)) (\<lambda>n. Inr (s = n))) (\<lambda>hit.
       if hit then
         res_bind (if tr_ev_active t then stop_progress_engine t p else Inr (t, p)) (\<lambda>(t, p).
           if name \<noteq> None then Inr (p\<lparr>pg_tracking := pre @ t # ts\<rparr>)
           else pause_loop name (pre @ [t]) ts p)
       else pause_loop name (pre @ [t]) ts p)"

definition dsched_progress_thread_pause :: "string option \<Rightarrow> progress \<Rightarrow> (int \<times> progress) res" where
  "dsched_progress_thread_pause name p =
     (if \<not> pg_inited p then Inr (DSCHED_ERR_NOT_FOUND, p)
      else res_bind (pause_loop name [] (pg_tracking p) p) (\<lambda>p. Inr (DSCHED_SUCCESS, p)))"

fun resume_loop ::
  "thread_api \<Rightarrow> dsched_globals \<Rightarrow> string \<Rightarrow> dsched_progress_tracker list
     \<Rightarrow> dsched_progress_tracker list \<Rightarrow> progress \<Rightarrow> (int \<times> progress) res" where
  "resume_loop L g name pre [] p = Inr (DSCHED_ERR_NOT_FOUND, p)"
| "resume_loop L g name pre (t # ts) p =
     res_bind (deref (tr_name t)) (\<lambda>n.
       if name = n then
         (if tr_ev_active t then Inr (DSCHED_ERR_RESOURCE_BUSY, p)
          else res_bind (start_progress_engine L g t p) (\<lambda>(rc, t, p).
            Inr (rc, p\<lparr>pg_tracking := pre @ t # ts\<rparr>)))
       else resume_loop L g name (pre @ [t]) ts p)"

definition dsched_progress_thread_resume ::
  "thread_api \<Rightarrow> dsched_globals \<Rightarrow> string option \<Rightarrow> progress \<Rightarrow> (int \<times> progress) res" where
  "dsched_progress_thread_resume L g name p =
     (if \<not> pg_inited p then Inr (DSCHED_ERR_NOT_FOUND, p)
      else resume_loop L g (thread_name name) [] (pg_tracking p) p)"


subsection \<open>The discipline of the library calls\<close>

text \<open>
  The bases that exist and those driven by a running thread after a sequence of
  calls, \<open>None\<close> when a call was not allowed: a base is used only while it
  exists, has at most one thread, and is not freed under its thread.
\<close>

fun op_step :: "pt_op \<Rightarrow> nat set \<times> nat set \<Rightarrow> (nat set \<times> nat set) option" where
  "op_step (Op_base_create None) (live, run) = Some (live, run)"
| "op_step (Op_base_create (Some b)) (live, run) =
     (if b \<in> live then None else Some (insert b live, run))"
| "op_step (Op_event_set b) (live, run) = (if b \<in> live then Some (live, run) else None)"
| "op_step (Op_event_add b) (live, run) = (if b \<in> live then Some (live, run) else None)"
| "op_step (Op_event_del b) (live, run) =
     (if \<exists>c\<in>live. b = Some c then Some (live, run) else None)"
| "op_step (Op_thread_start b) (live, run) =
     (if b \<in> live \<and> b \<notin> run then Some (live, insert b run) else None)"
| "op_step (Op_setaffinity b S) (live, run) = (if b \<in> run then Some (live, run) else None)"
| "op_step (Op_loopexit b) (live, run) = (if b \<in> live then Some (live, run) else None)"
| "op_step (Op_thread_join b) (live, run) = (if b \<in> run then Some (live, run - {b}) else None)"
| "op_step (Op_base_free b) (live, run) =
     (if b \<in> live \<and> b \<notin> run then Some (live - {b}, run) else None)"
| "op_step (Op_thread_destruct b) (live, run) = (if b \<in> Some ` run then None else Some (live, run))"

definition ops_state :: "pt_op list \<Rightarrow> (nat set \<times> nat set) option" where
  "ops_state ops = foldl (\<lambda>s op. Option.bind s (op_step op)) (Some ({}, {})) ops"

lemma ops_state_Nil [simp]: "ops_state [] = Some ({}, {})"
  by (simp add: ops_state_def)

lemma ops_state_append [simp]:
  "ops_state (ops @ xs) = foldl (\<lambda>s op. Option.bind s (op_step op)) (ops_state ops) xs"
  by (simp add: ops_state_def)

definition tracker_ok :: "dsched_progress_tracker \<Rightarrow> bool" where
  "tracker_ok t \<longleftrightarrow> tr_name t \<noteq> None \<and> tr_ev_base t \<noteq> None \<and> tr_block t
     \<and> tr_engine_constructed t \<and> 1 \<le> tr_refcount t"

definition bases :: "dsched_progress_tracker list \<Rightarrow> nat list" where
  "bases ts = map (\<lambda>t. the (tr_ev_base t)) ts"

definition progress_ok :: "progress \<Rightarrow> bool" where
  "progress_ok p \<longleftrightarrow>
     list_all tracker_ok (pg_tracking p) \<and> distinct (map tr_name (pg_tracking p))
     \<and> distinct (bases (pg_tracking p)) \<and> (pg_inited p \<or> pg_tracking p = [])
     \<and> ops_state (pg_ops p) =
         Some (set (bases (pg_tracking p)), set (bases (filter tr_ev_active (pg_tracking p))))"

lemmas progress_simps = progress_ok_def tracker_ok_def bases_def emit_def

lemma stop_ok:
  assumes "stop_progress_engine t p = Inr (t', p')" and "progress_ok p" and "pg_tracking p = pre @ t # ts"
  shows "progress_ok (p'\<lparr>pg_tracking := pre @ t' # ts\<rparr>)" and "\<not> tr_ev_active t'"
  using assms by (auto simp: stop_progress_engine_def progress_simps split: if_splits)

lemma bind_engine_cases:
  assumes "bind_engine L g b rc p = Inr (rc', q)"
  obtains "q = p" "rc' = rc" "bind_engine L g b rc = (\<lambda>p. Inr (rc, p))"
  | f S where "setaffinity_np L = Some f" "q = emit (Op_setaffinity b S) p"
      "rc' = (if f (pg_ops p) S \<noteq> 0 \<and> g_bind_progress_thread_reqd g
              then DSCHED_ERR_NOT_SUPPORTED else DSCHED_SUCCESS)"
      "\<And>p. bind_engine L g b rc p = Inr (if f (pg_ops p) S \<noteq> 0 \<and> g_bind_progress_thread_reqd g
              then DSCHED_ERR_NOT_SUPPORTED else DSCHED_SUCCESS, emit (Op_setaffinity b S) p)"
proof (cases "setaffinity_np L")
  case None
  then show ?thesis using that(1) assms by (simp add: bind_engine_def fun_eq_iff)
next
  case (Some f)
  show ?thesis
  proof (cases "g_progress_thread_cpus g")
    case None
    then show ?thesis using Some that(1) assms by (simp add: bind_engine_def fun_eq_iff)
  next
    case (Some c)
    with \<open>setaffinity_np L = Some f\<close> assms obtain S
      where "res_fold cpu_range (argv_split L c CHR '','') {} = Inr S" by (auto simp: bind_engine_def)
    then show ?thesis using Some \<open>setaffinity_np L = Some f\<close> assms
      by (intro that(2) [of f S]) (simp_all add: bind_engine_def)
  qed
qed

lemma start_any_tracking:
  assumes "start_progress_engine L g t p = Inr (rc, t', q)"
  shows "start_progress_engine L g t (p\<lparr>pg_tracking := ts\<rparr>) = Inr (rc, t', q\<lparr>pg_tracking := ts\<rparr>)"
    and "pg_tracking q = pg_tracking p"
proof -
  obtain b where b: "\<not> tr_ev_active t" "tr_ev_base t = Some b" "t' = t\<lparr>tr_ev_active := True\<rparr>"
    "bind_engine L g b (thread_start L (pg_ops p)) (emit (Op_thread_start b) p) = Inr (rc, q)"
    using assms by (auto simp: start_progress_engine_def Let_def split: if_splits)
  from b(4) show "pg_tracking q = pg_tracking p"
    by (cases rule: bind_engine_cases) (simp_all add: emit_def)
  from b(4) show "start_progress_engine L g t (p\<lparr>pg_tracking := ts\<rparr>) = Inr (rc, t', q\<lparr>pg_tracking := ts\<rparr>)"
    by (cases rule: bind_engine_cases) (simp_all add: start_progress_engine_def b(1-3) emit_def)
qed

lemma destructor_ok:
  assumes "tracker_destructor t (p\<lparr>pg_tracking := pre @ ts\<rparr>) = Inr p'" and "progress_ok p"
    and "pg_tracking p = pre @ t # ts" and "\<not> tr_ev_active t"
  shows "progress_ok p'"
  using assms by (auto simp: tracker_destructor_def progress_simps split: if_splits option.splits)


subsection \<open>Safety of the interface\<close>

text \<open>
  The contract of the libraries under which the program's calls are in order:
  a new base is not one in use, threads start, and a binding that is required
  succeeds.
\<close>

locale thread_lib =
  fixes L :: thread_api and g :: dsched_globals
  assumes base_new: "base_create L ops = Some b \<Longrightarrow> ops_state ops = Some (live, run) \<Longrightarrow> b \<notin> live"
    and start_succeeds: "thread_start L ops = DSCHED_SUCCESS"
    and bind_succeeds: "g_bind_progress_thread_reqd g \<Longrightarrow> setaffinity_np L = Some f \<Longrightarrow> f ops S = 0"
begin

lemma start_ok:
  assumes "start_progress_engine L g t p = Inr (rc, t', p')" and "progress_ok p"
    and "pg_tracking p = pre @ t # ts"
  shows "progress_ok (p'\<lparr>pg_tracking := pre @ t' # ts\<rparr>)" and "rc = DSCHED_SUCCESS"
proof -
  obtain b where b: "\<not> tr_ev_active t" "tr_ev_base t = Some b" "t' = t\<lparr>tr_ev_active := True\<rparr>"
    "bind_engine L g b (thread_start L (pg_ops p)) (emit (Op_thread_start b) p) = Inr (rc, p')"
    using assms(1) by (auto simp: start_progress_engine_def Let_def split: if_splits)
  have ok: "progress_ok (emit (Op_thread_start b) p\<lparr>pg_tracking := pre @ t' # ts\<rparr>)"
    using assms(2,3) b by (auto simp: progress_simps)
  from b(4) show "progress_ok (p'\<lparr>pg_tracking := pre @ t' # ts\<rparr>)"
    by (cases rule: bind_engine_cases) (use ok b in \<open>auto simp: progress_simps\<close>)
  from b(4) show "rc = DSCHED_SUCCESS"
    by (cases rule: bind_engine_cases) (auto simp: start_succeeds bind_succeeds)
qed

lemma new_tracker_ok:
  assumes "new_tracker L g name p = Inr (r, p')" and "progress_ok p" and "pg_inited p"
    and "Some name \<notin> tr_name ` set (pg_tracking p)"
  shows "progress_ok p'"
proof (cases "base_create L (pg_ops p)")
  case None
  then show ?thesis using assms by (simp add: new_tracker_def tracker_destructor_def tracker_constructor_def)
next
  case (Some b)
  let ?t = "tracker_constructor\<lparr>tr_name := Some name, tr_ev_base := Some b, tr_block := True,
    tr_engine_constructed := True\<rparr>"
  let ?p = "emit (Op_event_add b) (emit (Op_event_set b) (emit (Op_base_create (Some b)) p))"
  have "b \<notin> set (bases (pg_tracking p))"
    using base_new [OF Some] assms(2) by (simp add: progress_ok_def)
  then have ok: "progress_ok (?p\<lparr>pg_tracking := pg_tracking p @ [?t]\<rparr>)"
    using assms(2-4) by (auto simp: progress_simps tracker_constructor_def)
  obtain rc t' q where q: "start_progress_engine L g ?t ?p = Inr (rc, t', q)"
    and p': "rc = DSCHED_SUCCESS \<Longrightarrow> p' = q\<lparr>pg_tracking := pg_tracking q @ [t']\<rparr>"
    using assms(1) Some by (auto simp: new_tracker_def Let_def split: if_splits)
  note r = start_any_tracking(1) [OF q, of "pg_tracking p @ [?t]"]
  have tr: "pg_tracking q = pg_tracking p" using start_any_tracking(2) [OF q] by (simp add: emit_def)
  have "rc = DSCHED_SUCCESS" "progress_ok (q\<lparr>pg_tracking := pg_tracking p @ [t']\<rparr>)"
    using start_ok(1,2) [OF r ok, of "pg_tracking p" "[]"] by simp_all
  with p' tr show ?thesis by simp
qed

lemma find_existing_None: "find_existing name ts = Inr None \<Longrightarrow> Some name \<notin> tr_name ` set ts"
  by (induction ts) (auto split: if_splits)

lemma find_existing_Some:
  "find_existing name ts = Inr (Some (b, us)) \<Longrightarrow> list_all tracker_ok ts \<Longrightarrow>
   map tr_name us = map tr_name ts \<and> bases us = bases ts
   \<and> bases (filter tr_ev_active us) = bases (filter tr_ev_active ts) \<and> list_all tracker_ok us"
proof (induction ts arbitrary: us)
  case (Cons t ts)
  show ?case
  proof (cases "tr_name t = Some name")
    case True
    then show ?thesis using Cons.prems by (auto simp: bases_def tracker_ok_def)
  next
    case False
    then obtain vs where "find_existing name ts = Inr (Some (b, vs))" "us = t # vs"
      using Cons.prems(1) by (auto split: if_splits)
    with Cons.IH [of vs] Cons.prems(2) show ?thesis by (simp add: bases_def)
  qed
qed simp

lemma init_ok:
  assumes "dsched_progress_thread_init L g name p = Inr (r, p')" and "progress_ok p"
  shows "progress_ok p'"
proof -
  let ?p = "if pg_inited p then p else p\<lparr>pg_tracking := [], pg_inited := True\<rparr>"
  have p: "progress_ok ?p" "pg_inited ?p" using assms(2) by (auto simp: progress_ok_def)
  obtain f where f: "find_existing (thread_name name) (pg_tracking ?p) = Inr f"
    "(case f of Some (base, ts) \<Rightarrow> Inr (base, ?p\<lparr>pg_tracking := ts\<rparr>) | None \<Rightarrow> new_tracker L g (thread_name name) ?p)
       = Inr (r, p')"
    using assms(1) by (auto simp: dsched_progress_thread_init_def Let_def)
  show ?thesis
  proof (cases f)
    case None
    then have "Some (thread_name name) \<notin> tr_name ` set (pg_tracking ?p)"
      using find_existing_None f(1) by simp
    with None new_tracker_ok [of "thread_name name" ?p r p'] f(2) p show ?thesis by simp
  next
    case (Some bu)
    obtain b us where bu: "bu = (b, us)" by (cases bu)
    have "p' = ?p\<lparr>pg_tracking := us\<rparr>" using f(2) Some bu by simp
    moreover have "list_all tracker_ok (pg_tracking ?p)" using p(1) by (simp only: progress_ok_def)
    note find_existing_Some [OF f(1) [unfolded Some bu] this]
    ultimately show ?thesis using p by (simp add: progress_ok_def)
  qed
qed

lemma resume_loop_ok:
  "resume_loop L g name pre ts p = Inr (rc, p') \<Longrightarrow> progress_ok p \<Longrightarrow> pg_tracking p = pre @ ts
   \<Longrightarrow> progress_ok p'"
proof (induction ts arbitrary: pre)
  case (Cons t ts)
  then show ?case
    using start_ok(1) by (auto split: if_splits)
qed simp

end

lemma finalize_loop_ok:
  "finalize_loop name pre ts p = Inr (rc, p') \<Longrightarrow> progress_ok p \<Longrightarrow> pg_tracking p = pre @ ts
   \<Longrightarrow> progress_ok p'"
proof (induction ts arbitrary: pre)
  case (Cons t ts)
  show ?case
  proof (cases "tr_name t = Some name")
    case True
    then obtain u q where u: "(if tr_ev_active t then stop_progress_engine t p else Inr (t, p)) = Inr (u, q)"
      "tracker_destructor u (q\<lparr>pg_tracking := pre @ ts\<rparr>) = Inr p'"
      using Cons.prems(1) by auto
    have "progress_ok (q\<lparr>pg_tracking := pre @ u # ts\<rparr>)" "\<not> tr_ev_active u"
      using u(1) stop_ok [of t p u q pre ts] Cons.prems(2,3) by (auto simp: progress_ok_def split: if_splits)
    from destructor_ok [OF _ this(1) _ this(2)] u(2) show ?thesis by simp
  qed (use Cons in \<open>auto split: if_splits\<close>)
qed simp

lemma pause_loop_ok:
  "pause_loop name pre ts p = Inr p' \<Longrightarrow> progress_ok (p\<lparr>pg_tracking := pre @ ts\<rparr>) \<Longrightarrow> progress_ok p'"
proof (induction ts arbitrary: pre p)
  case (Cons t ts)
  obtain hit where hit: "(case name of None \<Rightarrow> Inr True | Some s \<Rightarrow>
      res_bind (deref (tr_name t)) (\<lambda>n. Inr (s = n))) = (Inr hit :: bool res)"
    using Cons.prems(1) by auto
  show ?case
  proof (cases hit)
    case True
    obtain u q where u: "(if tr_ev_active t then stop_progress_engine t p else Inr (t, p)) = Inr (u, q)"
      using Cons.prems(1) hit True by auto
    have "stop_progress_engine t (p\<lparr>pg_tracking := pre @ t # ts\<rparr>) = Inr (u, q\<lparr>pg_tracking := pre @ t # ts\<rparr>)"
      if "tr_ev_active t" using u that by (auto simp: stop_progress_engine_def emit_def)
    then have ok: "progress_ok (q\<lparr>pg_tracking := pre @ u # ts\<rparr>)"
      using u stop_ok(1) [of t "p\<lparr>pg_tracking := pre @ t # ts\<rparr>" u _ pre ts] Cons.prems(2)
      by (auto split: if_splits)
    show ?thesis
      using Cons.prems(1) Cons.IH [of "pre @ [u]" q] ok u hit True by (auto split: if_splits)
  next
    case False
    then show ?thesis using Cons hit by auto
  qed
qed simp


text \<open>The loops pass over the trackers of other names.\<close>

definition other_names :: "string \<Rightarrow> dsched_progress_tracker list \<Rightarrow> bool" where
  "other_names name us \<longleftrightarrow> list_all (\<lambda>u. \<exists>n. tr_name u = Some n \<and> n \<noteq> name) us"

lemma other_names_simps [simp]:
  "other_names name []"
  "other_names name (u # us) \<longleftrightarrow> (\<exists>n. tr_name u = Some n \<and> n \<noteq> name) \<and> other_names name us"
  by (simp_all add: other_names_def)

lemma progress_ok_other_names:
  "progress_ok p \<Longrightarrow> pg_tracking p = pre @ t # ts \<Longrightarrow> tr_name t = Some name \<Longrightarrow> other_names name pre"
  by (force simp: progress_ok_def tracker_ok_def other_names_def list_all_iff)

lemma find_existing_skip:
  "other_names name us \<Longrightarrow> find_existing name (us @ ts) =
     res_bind (find_existing name ts) (\<lambda>r. Inr (map_option (\<lambda>x. (fst x, us @ snd x)) r))"
proof (induction us)
  case Nil
  show ?case by (cases "find_existing name ts") (simp_all add: option.map_ident)
next
  case (Cons u us)
  then show ?case by (cases "find_existing name ts") (auto simp: option.map_comp comp_def split_beta)
qed

lemma finalize_loop_hit:
  assumes "tracker_ok t" and "tr_name t = Some name" and "tr_ev_base t = Some b"
  shows "finalize_loop name pre (t # ts) p = Inr (DSCHED_SUCCESS,
     p\<lparr>pg_tracking := pre @ ts,
       pg_ops := pg_ops p @ (if tr_ev_active t then [Op_loopexit b, Op_thread_join b] else [])
         @ [Op_event_del (Some b), Op_base_free b, Op_thread_destruct (Some b)]\<rparr>)"
  using assms
  by (simp add: tracker_ok_def stop_progress_engine_def tracker_destructor_def emit_def)

lemma finalize_loop_skip:
  "other_names name us \<Longrightarrow> finalize_loop name acc (us @ ts) p = finalize_loop name (acc @ us) ts p"
  by (induction us arbitrary: acc) (auto simp del: finalize_loop.simps(2) simp: finalize_loop.simps(2) [of _ _ _ "_ @ _"])

lemma resume_loop_skip:
  "other_names name us \<Longrightarrow> resume_loop L g name acc (us @ ts) p = resume_loop L g name (acc @ us) ts p"
  by (induction us arbitrary: acc) (auto simp del: resume_loop.simps(2) simp: resume_loop.simps(2) [of _ _ _ _ _ "_ @ _"])

lemma pause_loop_skip:
  "other_names name us \<Longrightarrow> pause_loop (Some name) acc (us @ ts) p = pause_loop (Some name) (acc @ us) ts p"
  by (induction us arbitrary: acc) (auto simp del: pause_loop.simps(2) simp: pause_loop.simps(2) [of _ _ _ "_ @ _"])

text \<open>The states that sequences of calls lead to.\<close>

inductive pt_reachable :: "thread_api \<Rightarrow> dsched_globals \<Rightarrow> progress \<Rightarrow> bool" for L g where
  start: "pt_reachable L g progress_init"
| init: "pt_reachable L g p \<Longrightarrow> dsched_progress_thread_init L g name p = Inr (r, p') \<Longrightarrow> pt_reachable L g p'"
| finalize: "pt_reachable L g p \<Longrightarrow> dsched_progress_thread_finalize name p = Inr (rc, p') \<Longrightarrow> pt_reachable L g p'"
| pause: "pt_reachable L g p \<Longrightarrow> dsched_progress_thread_pause name p = Inr (rc, p') \<Longrightarrow> pt_reachable L g p'"
| resume: "pt_reachable L g p \<Longrightarrow> dsched_progress_thread_resume L g name p = Inr (rc, p') \<Longrightarrow> pt_reachable L g p'"
| timeout: "pt_reachable L g p \<Longrightarrow> t \<in> set (pg_tracking p) \<Longrightarrow> dummy_timeout_cb t p = Inr p' \<Longrightarrow> pt_reachable L g p'"

context thread_lib
begin

lemma reachable_progress_ok: "pt_reachable L g p \<Longrightarrow> progress_ok p"
proof (induction rule: pt_reachable.induct)
  case start
  show ?case by (simp add: progress_init_def progress_simps)
next
  case (init p name r p')
  then show ?case using init_ok by blast
next
  case (finalize p name rc p')
  then show ?case
    using finalize_loop_ok [of "thread_name name" "[]" "pg_tracking p" p rc p']
    by (auto simp: dsched_progress_thread_finalize_def split: if_splits)
next
  case (pause p name rc p')
  then show ?case
    using pause_loop_ok [of name "[]" "pg_tracking p" p]
    by (auto simp: dsched_progress_thread_pause_def split: if_splits)
next
  case (resume p name rc p')
  then show ?case
    using resume_loop_ok [of "thread_name name" "[]" "pg_tracking p" p rc p']
    by (auto simp: dsched_progress_thread_resume_def split: if_splits)
next
  case (timeout p t p')
  obtain b where b: "tr_ev_base t = Some b" "p' = emit (Op_event_add b) p"
    using timeout(3) by (auto simp: dummy_timeout_cb_def)
  have "b \<in> set (bases (pg_tracking p))" using timeout(2) b(1) by (force simp: bases_def)
  then show ?case using timeout.IH b(2) by (simp add: progress_ok_def emit_def)
qed

end

subsection \<open>A reference library\<close>

definition fresh_base :: "pt_op list \<Rightarrow> nat" where
  "fresh_base ops = foldl (\<lambda>n op. case op of Op_base_create (Some b) \<Rightarrow> max n (Suc b) | _ \<Rightarrow> n) 0 ops"

definition ref_threads :: thread_api where
  "ref_threads = \<lparr>base_create = (\<lambda>ops. Some (fresh_base ops)), thread_start = (\<lambda>ops. 0),
     setaffinity_np = Some (\<lambda>ops S. 0), argv_split = (\<lambda>s c. [s])\<rparr>"

lemma ops_state_below_fresh: "ops_state ops = Some (live, run) \<Longrightarrow> live \<subseteq> {..<fresh_base ops}"
proof (induction ops arbitrary: live run rule: rev_induct)
  case (snoc op ops)
  then obtain l r where "ops_state ops = Some (l, r)" "op_step op (l, r) = Some (live, run)"
    by (auto simp: Option.bind_eq_Some_conv)
  with snoc.IH [of l r] show ?case
    by (cases op) (force simp: fresh_base_def less_max_iff_disj split: if_splits option.splits)+
qed simp

interpretation ref_thread_lib: thread_lib ref_threads g
  by unfold_locales (use ops_state_below_fresh in \<open>auto simp: ref_threads_def DSCHED_SUCCESS_def DSCHED_ERR_BASE_def\<close>)

subsection \<open>Properties\<close>


definition sample_pt_globals :: dsched_globals where
  "sample_pt_globals = sample_globals\<lparr>g_progress_thread_cpus := Some ''2-4''\<rparr>"

lemmas pt_eval = dsched_progress_thread_init_def progress_init_def new_tracker_def tracker_constructor_def
  start_progress_engine_def bind_engine_def emit_def ref_threads_def fresh_base_def sample_pt_globals_def
  sample_globals_def dsched_globals_init_def thread_name_def cpu_range_def strtoul_def c_isspace_def
  c_isdigit_def int_of_u64_def CPU_SET_def DSCHED_SUCCESS_def DSCHED_ERR_BASE_def

lemma sample_pt_init:
  "\<exists>p t. dsched_progress_thread_init ref_threads sample_pt_globals (Some ''fifo'') progress_init = Inr (Some 0, p)
     \<and> pg_tracking p = [t] \<and> tr_name t = Some ''fifo'' \<and> tr_ev_base t = Some 0 \<and> tr_ev_active t
     \<and> pg_inited p
     \<and> pg_ops p = [Op_base_create (Some 0), Op_event_set 0, Op_event_add 0, Op_thread_start 0,
          Op_setaffinity 0 {2, 3}]"
  by (simp add: pt_eval upto.simps insert_commute Let_def)


text \<open>
  Asking for a thread that exists gives its base and counts the user, with
  no call into the libraries; but ending it for one of its users stops the
  thread and frees the base, however many users were counted.
\<close>

theorem finalize_ignores_users:
  assumes "progress_ok p" and "pg_inited p" and "pg_tracking p = pre @ t # ts"
    and "tr_name t = Some name" and "tr_ev_base t = Some b"
  shows "\<exists>p1 p2. dsched_progress_thread_init L g (Some name) p = Inr (Some b, p1)
     \<and> pg_ops p1 = pg_ops p \<and> pg_tracking p1 = pre @ t\<lparr>tr_refcount := tr_refcount t + 1\<rparr> # ts
     \<and> dsched_progress_thread_finalize (Some name) p1 = Inr (DSCHED_SUCCESS, p2)
     \<and> pg_tracking p2 = pre @ ts \<and> Op_base_free b \<in> set (pg_ops p2)
     \<and> progress_ok p2"
proof -
  note other = progress_ok_other_names [OF assms(1,3,4)]
  let ?t = "t\<lparr>tr_refcount := tr_refcount t + 1\<rparr>"
  let ?p1 = "p\<lparr>pg_tracking := pre @ ?t # ts\<rparr>"
  have p1: "dsched_progress_thread_init L g (Some name) p = Inr (Some b, ?p1)"
    using find_existing_skip [OF other, of "t # ts"] assms(2-5)
    by (simp add: dsched_progress_thread_init_def thread_name_def Let_def)
  have "tracker_ok t" using assms(1,3) by (simp add: progress_ok_def)
  then have "tracker_ok ?t" by (simp add: tracker_ok_def)
  from finalize_loop_hit [OF this, of name b pre ts ?p1] obtain p2
    where p2: "finalize_loop name pre (?t # ts) ?p1 = Inr (DSCHED_SUCCESS, p2)"
      "pg_tracking p2 = pre @ ts" "Op_base_free b \<in> set (pg_ops p2)"
    using assms(4,5) by simp
  have "progress_ok ?p1"
    using assms(1,3) by (simp add: progress_ok_def tracker_ok_def bases_def)
  then have "progress_ok p2" using finalize_loop_ok [OF p2(1)] by simp
  moreover have "dsched_progress_thread_finalize (Some name) ?p1 = Inr (DSCHED_SUCCESS, p2)"
    using p2(1) finalize_loop_skip [OF other, of "[]" "?t # ts" ?p1] assms(2)
    by (simp add: dsched_progress_thread_finalize_def thread_name_def del: finalize_loop.simps)
  ultimately show ?thesis using p1 p2 by (intro exI [of _ ?p1] exI [of _ p2]) simp
qed

theorem finalize_ignores_users_witness:
  "\<exists>p p1 p2. dsched_progress_thread_init ref_threads sample_pt_globals (Some ''fifo'') p = Inr (Some 0, p1)
     \<and> map tr_refcount (pg_tracking p1) = map (\<lambda>t. tr_refcount t + 1) (pg_tracking p)
     \<and> length (pg_tracking p1) = 1
     \<and> dsched_progress_thread_finalize (Some ''fifo'') p1 = Inr (DSCHED_SUCCESS, p2)
     \<and> pg_tracking p2 = [] \<and> Op_base_free 0 \<in> set (pg_ops p2)"
proof -
  obtain p t where p: "dsched_progress_thread_init ref_threads sample_pt_globals (Some ''fifo'') progress_init = Inr (Some 0, p)"
    "pg_tracking p = [] @ t # []" "tr_name t = Some ''fifo''" "tr_ev_base t = Some 0" "pg_inited p"
    using sample_pt_init by (metis append_Nil)
  have "progress_ok p"
    using ref_thread_lib.reachable_progress_ok [OF pt_reachable.init [OF pt_reachable.start p(1)]] .
  from finalize_ignores_users [OF this p(5,2-4), of ref_threads sample_pt_globals] obtain p1 p2
    where "dsched_progress_thread_init ref_threads sample_pt_globals (Some ''fifo'') p = Inr (Some 0, p1)"
      "pg_tracking p1 = [t\<lparr>tr_refcount := tr_refcount t + 1\<rparr>]"
      "dsched_progress_thread_finalize (Some ''fifo'') p1 = Inr (DSCHED_SUCCESS, p2)"
      "pg_tracking p2 = []" "Op_base_free 0 \<in> set (pg_ops p2)" by auto
  with p(2) show ?thesis by (intro exI [of _ p] exI [of _ p1] exI [of _ p2]) simp
qed




text \<open>
  C29. A cpu range \<open>a-b\<close> adds the cpus from \<open>a\<close> up to but not including \<open>b\<close>
  to the set the thread is bound to; a single number, which the comment
  announces as an alternative, makes the parser read past the end of the text.
\<close>

theorem cpu_range_excludes_end:
  assumes "list_all c_isdigit ds" and "ds \<noteq> []" and "digits_value 0 ds < 2 ^ 31"
    and "list_all c_isdigit es" and "es \<noteq> []" and "digits_value 0 es < 2 ^ 31"
  shows "cpu_range (ds @ CHR ''-'' # es) S
       = Inr (S \<union> ({int (digits_value 0 ds)..<int (digits_value 0 es)} \<inter> {0..<1024}))
     \<and> cpu_range ds S = Inl OutOfBounds"
proof
  have set: "fold CPU_SET ks S = S \<union> (set ks \<inter> {0..<1024})" for ks S
    by (induction ks arbitrary: S) (auto simp: CPU_SET_def)
  have "\<not> c_isdigit CHR ''-''" by (simp add: c_isdigit_def)
  then have "strtoul (ds @ CHR ''-'' # es) = (of_nat (digits_value 0 ds), CHR ''-'' # es)"
    "strtoul es = (of_nat (digits_value 0 es), [])" "strtoul ds = (of_nat (digits_value 0 ds), [])"
    using assms strtoul_digits [of ds "CHR ''-'' # es"] strtoul_digits [of es "[]"]
      strtoul_digits [of ds "[]"] by simp_all
  moreover have "{a..b - 1} = {a..<b}" for a b :: int by auto
  ultimately show "cpu_range (ds @ CHR ''-'' # es) S
       = Inr (S \<union> ({int (digits_value 0 ds)..<int (digits_value 0 es)} \<inter> {0..<1024}))"
    and "cpu_range ds S = Inl OutOfBounds"
    using assms(3,6) by (simp_all add: cpu_range_def set int_of_u64_small)
qed

theorem cpu_range_excludes_end_witness:
  "cpu_range ''2-4'' {} = Inr {2, 3} \<and> cpu_range ''2'' {} = Inl OutOfBounds"
proof -
  have "({int (digits_value 0 ''2'')..<int (digits_value 0 ''4'')} \<inter> {0..<1024}) = {2, 3}"
    by auto
  with cpu_range_excludes_end [of "''2''" "''4''" "{}"] show ?thesis
    by (simp add: c_isdigit_def)
qed

text \<open>
  When binding the new thread is required and fails, initialisation returns
  null after it has freed the event base of a thread that was started and never
  stopped: the calls break the discipline.
\<close>

theorem failed_binding_frees_running_base:
  assumes "progress_ok p" and "pg_inited p" and "other_names name (pg_tracking p)"
    and "base_create L (pg_ops p) = Some b" and "b \<notin> set (bases (pg_tracking p))"
    and "setaffinity_np L = Some f" and "\<forall>ops S. f ops S \<noteq> 0" and "g_bind_progress_thread_reqd g"
    and "g_progress_thread_cpus g = Some cpus"
    and "res_fold cpu_range (argv_split L cpus CHR '','') {} = Inr S"
  shows "\<exists>p'. dsched_progress_thread_init L g (Some name) p = Inr (None, p')
     \<and> pg_tracking p' = pg_tracking p \<and> Op_thread_join b \<notin> set (drop (length (pg_ops p)) (pg_ops p'))
     \<and> ops_state (pg_ops p') = None"
proof -
  let ?ops = "[Op_base_create (Some b), Op_event_set b, Op_event_add b, Op_thread_start b,
    Op_setaffinity b S, Op_event_del (Some b), Op_base_free b, Op_thread_destruct (Some b)]"
  have "find_existing name (pg_tracking p) = Inr None"
    using find_existing_skip [OF assms(3), of "[]"] by simp
  then have "dsched_progress_thread_init L g (Some name) p = new_tracker L g name p"
    using assms(2) by (simp add: dsched_progress_thread_init_def thread_name_def)
  also have "\<dots> = Inr (None, p\<lparr>pg_ops := pg_ops p @ ?ops\<rparr>)"
    using assms(4,6-10)
    by (simp add: new_tracker_def tracker_constructor_def start_progress_engine_def bind_engine_def emit_def
        tracker_destructor_def DSCHED_SUCCESS_def DSCHED_ERR_NOT_SUPPORTED_def DSCHED_ERR_BASE_def Let_def)
  finally show ?thesis using assms(1,5) by (auto simp: progress_ok_def)
qed

theorem failed_binding_frees_running_base_witness:
  "\<exists>p'. dsched_progress_thread_init (ref_threads\<lparr>setaffinity_np := Some (\<lambda>ops S. 22)\<rparr>)
       (sample_pt_globals\<lparr>g_bind_progress_thread_reqd := True\<rparr>) (Some ''fifo'')
       (progress_init\<lparr>pg_inited := True\<rparr>) = Inr (None, p')
     \<and> ops_state (pg_ops p') = None"
proof -
  let ?p = "progress_init\<lparr>pg_inited := True\<rparr>"
  let ?L = "ref_threads\<lparr>setaffinity_np := Some (\<lambda>ops S. 22)\<rparr>"
  let ?g = "sample_pt_globals\<lparr>g_bind_progress_thread_reqd := True\<rparr>"
  have p: "progress_ok ?p" "pg_inited ?p" "other_names ''fifo'' (pg_tracking ?p)" "0 \<notin> set (bases (pg_tracking ?p))"
    by (simp_all add: progress_simps progress_init_def)
  have base: "base_create ?L (pg_ops ?p) = Some 0"
    by (simp add: progress_init_def ref_threads_def fresh_base_def)
  have bind: "setaffinity_np ?L = Some (\<lambda>ops S. 22)" "\<forall>(ops :: pt_op list) (S :: int set). (22 :: int) \<noteq> 0"
    "g_bind_progress_thread_reqd ?g" "g_progress_thread_cpus ?g = Some ''2-4''"
    by (simp_all add: sample_pt_globals_def)
  have "res_fold cpu_range (argv_split ?L ''2-4'' CHR '','') {} = Inr {2, 3}"
    by (simp add: pt_eval upto.simps insert_commute)
  from failed_binding_frees_running_base [OF p(1-3) base p(4) bind this] show ?thesis by blast
qed

end
