(* ===== verification/Install_Dirs.thy ===== *)
theory Install_Dirs
  imports C_Strings Dsched_Constants Pmix_Types
begin

text \<open>
  Installation directories (\<open>mca/dinstalldirs\<close>): every directory is taken from
  the first component that has it (the environment, then the configuration),
  and references \<open>${name}\<close>, with a dollar or an at sign, to other directories are expanded.
\<close>

subsection \<open>Data\<close>

text \<open>
  The fields of \<open>pmix_pinstall_dirs_t\<close>, in the order in which the sources list
  them, with the name a reference uses.
\<close>

datatype dir_field =
    F_prefix | F_exec_prefix | F_bindir | F_sbindir | F_libexecdir | F_datarootdir | F_datadir
  | F_sysconfdir | F_sharedstatedir | F_localstatedir | F_libdir | F_includedir | F_infodir
  | F_mandir | F_pmixdatadir | F_pmixlibdir | F_pmixincludedir

definition all_fields :: "dir_field list" where
  "all_fields =
     [F_prefix, F_exec_prefix, F_bindir, F_sbindir, F_libexecdir, F_datarootdir, F_datadir,
      F_sysconfdir, F_sharedstatedir, F_localstatedir, F_libdir, F_includedir, F_infodir,
      F_mandir, F_pmixdatadir, F_pmixlibdir, F_pmixincludedir]"

fun field_name :: "dir_field \<Rightarrow> string" where
  "field_name F_prefix = ''prefix''"
| "field_name F_exec_prefix = ''exec_prefix''"
| "field_name F_bindir = ''bindir''"
| "field_name F_sbindir = ''sbindir''"
| "field_name F_libexecdir = ''libexecdir''"
| "field_name F_datarootdir = ''datarootdir''"
| "field_name F_datadir = ''datadir''"
| "field_name F_sysconfdir = ''sysconfdir''"
| "field_name F_sharedstatedir = ''sharedstatedir''"
| "field_name F_localstatedir = ''localstatedir''"
| "field_name F_libdir = ''libdir''"
| "field_name F_includedir = ''includedir''"
| "field_name F_infodir = ''infodir''"
| "field_name F_mandir = ''mandir''"
| "field_name F_pmixdatadir = ''pkgdatadir''"
| "field_name F_pmixlibdir = ''pkglibdir''"
| "field_name F_pmixincludedir = ''pkgincludedir''"

type_synonym install_dirs = "dir_field \<Rightarrow> string option"

definition dsched_dinstall_dirs_init :: install_dirs where
  "dsched_dinstall_dirs_init = (\<lambda>f. None)"

subsection \<open>Expansion\<close>

text \<open>A reference, with the character that introduces it.\<close>

definition ref_text :: "char \<Rightarrow> dir_field \<Rightarrow> string" where
  "ref_text sigil f = sigil # CHR ''{'' # field_name f @ ''}''"

text \<open>
  \<open>field + destdir_offset\<close> as a string: a null field is followed, and an offset
  beyond the end of the string reads outside it.
\<close>

definition field_from :: "install_dirs \<Rightarrow> nat \<Rightarrow> dir_field \<Rightarrow> string res" where
  "field_from D off f =
     (case D f of
        None \<Rightarrow> Inl NullDeref
      | Some s \<Rightarrow> if length s < off then Inl OutOfBounds else Inr (drop off s))"

definition EXPAND_STRING2 ::
  "install_dirs \<Rightarrow> nat \<Rightarrow> dir_field \<Rightarrow> string \<times> bool \<Rightarrow> (string \<times> bool) res" where
  "EXPAND_STRING2 D off f st =
     (let (retval, changed) = st
      in case strstr retval (ref_text CHR ''$'' f) of
           Some i \<Rightarrow>
             res_bind (field_from D off f) (\<lambda>v.
               Inr (take i retval @ v @ drop (i + length (ref_text CHR ''$'' f)) retval, True))
         | None \<Rightarrow>
             (case strstr retval (ref_text CHR ''@'' f) of
                Some i \<Rightarrow>
                  res_bind (field_from D off f) (\<lambda>v.
                    Inr (take i retval @ v @ drop (i + length (ref_text CHR ''@'' f)) retval, True))
              | None \<Rightarrow> Inr (retval, changed)))"

text \<open>The body of the loop, and the loop, which need not end.\<close>

definition expand_pass :: "install_dirs \<Rightarrow> nat \<Rightarrow> string \<Rightarrow> (string \<times> bool) res" where
  "expand_pass D off retval = res_fold (EXPAND_STRING2 D off) all_fields (retval, False)"

partial_function (option) expand_loop :: "install_dirs \<Rightarrow> nat \<Rightarrow> string \<Rightarrow> string res option" where
  [code]: "expand_loop D off retval =
     (let r = expand_pass D off retval
      in if isl r then Some (Inl (projl r))
         else if snd (projr r) then expand_loop D off (fst (projr r))
         else Some (Inr (fst (projr r))))"

text \<open>
  \<open>getenv\<close> and \<open>os_path\<close> (\<open>pmix_os_path\<close> of two components) are parameters;
  \<open>None\<close> is a call that does not return.
\<close>

record dirs_api =
  getenv :: "string \<Rightarrow> string option"
  os_path :: "string \<Rightarrow> string \<Rightarrow> string"

definition dsched_dinstall_dirs_expand_internal ::
  "dirs_api \<Rightarrow> install_dirs \<Rightarrow> string option \<Rightarrow> bool \<Rightarrow> string res option" where
  "dsched_dinstall_dirs_expand_internal A D input is_setup =
     (let destdir = (if is_setup then getenv A ''DSCHED_DESTDIR'' else None);
          off = (case destdir of None \<Rightarrow> 0 | Some d \<Rightarrow> length d)
      in case input of
           None \<Rightarrow> Some (Inl NullDeref)
         | Some s \<Rightarrow>
             Option.bind
               (if CHR ''$'' \<in> set s \<or> CHR ''@'' \<in> set s then expand_loop D off s else Some (Inr s))
               (\<lambda>r. Some (res_bind r (\<lambda>s.
                  Inr (case destdir of None \<Rightarrow> s | Some d \<Rightarrow> os_path A d s)))))"

definition dsched_dinstall_dirs_expand ::
  "dirs_api \<Rightarrow> install_dirs \<Rightarrow> string option \<Rightarrow> string res option" where
  "dsched_dinstall_dirs_expand A D input = dsched_dinstall_dirs_expand_internal A D input False"

definition dsched_dinstall_dirs_expand_setup ::
  "dirs_api \<Rightarrow> install_dirs \<Rightarrow> string option \<Rightarrow> string res option" where
  "dsched_dinstall_dirs_expand_setup A D input = dsched_dinstall_dirs_expand_internal A D input True"

subsection \<open>The framework\<close>

definition CONDITIONAL_COPY :: "install_dirs \<Rightarrow> dir_field \<Rightarrow> install_dirs \<Rightarrow> install_dirs" where
  "CONDITIONAL_COPY origin f target =
     (if origin f \<noteq> None \<and> target f = None then target(f := origin f) else target)"

definition copy_component :: "install_dirs \<Rightarrow> install_dirs \<Rightarrow> install_dirs" where
  "copy_component origin target = fold (CONDITIONAL_COPY origin) all_fields target"

fun expand_fields :: "dirs_api \<Rightarrow> dir_field list \<Rightarrow> install_dirs \<Rightarrow> install_dirs res option" where
  "expand_fields A [] D = Some (Inr D)"
| "expand_fields A (f # fs) D =
     Option.bind (dsched_dinstall_dirs_expand_setup A D (D f)) (\<lambda>r.
       case r of Inl e \<Rightarrow> Some (Inl e) | Inr s \<Rightarrow> expand_fields A fs (D(f \<mapsto> s)))"

text \<open>\<open>components\<close> are the data of the opened components in their order.\<close>

definition dsched_dinstalldirs_base_open ::
  "dirs_api \<Rightarrow> pmix_status \<Rightarrow> install_dirs list \<Rightarrow> install_dirs \<Rightarrow> (int \<times> install_dirs) res option" where
  "dsched_dinstalldirs_base_open A components_open components D =
     (if components_open \<noteq> PMIX_SUCCESS then Some (Inr (DSCHED_ERROR, D))
      else Option.bind (expand_fields A all_fields (fold copy_component components D)) (\<lambda>r.
        Some (res_bind r (\<lambda>D. Inr (DSCHED_SUCCESS, D)))))"

text \<open>\<open>closed\<close> is what closing the components returns.\<close>

definition dsched_dinstalldirs_base_close ::
  "pmix_status \<Rightarrow> install_dirs \<Rightarrow> pmix_status \<times> install_dirs" where
  "dsched_dinstalldirs_base_close closed D = (closed, \<lambda>f. None)"

subsection \<open>The components\<close>

text \<open>The environment variable of a directory, which is also its configuration macro.\<close>

fun env_name :: "dir_field \<Rightarrow> string" where
  "env_name F_prefix = ''DSCHED_PREFIX''"
| "env_name F_exec_prefix = ''DSCHED_EXEC_PREFIX''"
| "env_name F_bindir = ''DSCHED_BINDIR''"
| "env_name F_sbindir = ''DSCHED_SBINDIR''"
| "env_name F_libexecdir = ''DSCHED_LIBEXECDIR''"
| "env_name F_datarootdir = ''DSCHED_DATAROOTDIR''"
| "env_name F_datadir = ''DSCHED_DATADIR''"
| "env_name F_sysconfdir = ''DSCHED_SYSCONFDIR''"
| "env_name F_sharedstatedir = ''DSCHED_SHAREDSTATEDIR''"
| "env_name F_localstatedir = ''DSCHED_LOCALSTATEDIR''"
| "env_name F_libdir = ''DSCHED_LIBDIR''"
| "env_name F_includedir = ''DSCHED_INCLUDEDIR''"
| "env_name F_infodir = ''DSCHED_INFODIR''"
| "env_name F_mandir = ''DSCHED_MANDIR''"
| "env_name F_pmixdatadir = ''DSCHED_PKGDATADIR''"
| "env_name F_pmixlibdir = ''DSCHED_PKGLIBDIR''"
| "env_name F_pmixincludedir = ''DSCHED_PKGINCLUDEDIR''"

definition SET_FIELD :: "dirs_api \<Rightarrow> dir_field \<Rightarrow> install_dirs \<Rightarrow> install_dirs" where
  "SET_FIELD A f D =
     (let tmp = getenv A (env_name f) in D(f := if tmp = Some '''' then None else tmp))"

definition dinstalldirs_env_open :: "dirs_api \<Rightarrow> install_dirs \<Rightarrow> int \<times> install_dirs" where
  "dinstalldirs_env_open A D = (DSCHED_SUCCESS, fold (SET_FIELD A) all_fields D)"

text \<open>\<open>config\<close> gives the strings that the build configuration has for the macros.\<close>

definition config_component :: "(string \<Rightarrow> string) \<Rightarrow> install_dirs" where
  "config_component config =
     (\<lambda>f. Some (config (if f = F_prefix then ''DSCHED_INSTALL_PREFIX'' else env_name f)))"

subsection \<open>Texts and their references\<close>

text \<open>
  A text as a sequence of plain pieces and references, how it is written, and
  what it means for given directories (after the offset).
\<close>

datatype chunk = Lit string | Ref char dir_field

fun render :: "chunk list \<Rightarrow> string" where
  "render [] = []"
| "render (Lit s # cs) = s @ render cs"
| "render (Ref c f # cs) = ref_text c f @ render cs"

definition plain :: "string \<Rightarrow> bool" where
  "plain s \<longleftrightarrow> CHR ''$'' \<notin> set s \<and> CHR ''@'' \<notin> set s"

fun chunk_ok :: "chunk \<Rightarrow> bool" where
  "chunk_ok (Lit s) = plain s"
| "chunk_ok (Ref c f) = (c = CHR ''$'' \<or> c = CHR ''@'')"

fun meaning :: "(dir_field \<Rightarrow> string) \<Rightarrow> chunk list \<Rightarrow> string" where
  "meaning val [] = []"
| "meaning val (Lit s # cs) = s @ meaning val cs"
| "meaning val (Ref c f # cs) = val f @ meaning val cs"

definition refs :: "chunk list \<Rightarrow> dir_field set" where
  "refs cs = {f. \<exists>c. Ref c f \<in> set cs}"

lemma refs_simps [simp]:
  "refs [] = {}" "refs (Lit s # cs) = refs cs" "refs (Ref c f # cs) = insert f (refs cs)"
  by (auto simp: refs_def)

lemma render_append [simp]: "render (cs @ ds) = render cs @ render ds"
  by (induction cs rule: render.induct) simp_all

lemma meaning_append [simp]: "meaning val (cs @ ds) = meaning val cs @ meaning val ds"
  by (induction cs rule: render.induct) simp_all

lemma field_name_chars: "set (field_name f) \<inter> {CHR ''$'', CHR ''@'', CHR ''{'', CHR ''}''} = {}"
  by (cases f) auto

lemma field_name_inj: "field_name f = field_name f' \<Longrightarrow> f = f'"
  by (cases f; cases f') auto

lemma all_fields_complete: "f \<in> set all_fields"
  by (cases f) (simp_all add: all_fields_def)

lemma ref_text_prefix:
  assumes "take (length (ref_text c f)) (ref_text c' f' @ ys) = ref_text c f"
  shows "c = c' \<and> f = f'"
proof -
  obtain zs where "ref_text c' f' @ ys = ref_text c f @ zs"
    using assms by (metis append_take_drop_id)
  then have "c = c'" and eq: "field_name f' @ CHR ''}'' # ys = field_name f @ CHR ''}'' # zs"
    by (simp_all add: ref_text_def)
  have "takeWhile (\<lambda>x. x \<noteq> CHR ''}'') (field_name g @ CHR ''}'' # us) = field_name g" for g us
    using field_name_chars [of g] by (subst takeWhile_append2) auto
  with eq have "field_name f' = field_name f" by metis
  with \<open>c = c'\<close> field_name_inj show ?thesis by blast
qed

lemma strstr_other_ref:
  assumes "c = CHR ''$'' \<or> c = CHR ''@''" and "(c, f) \<noteq> (c', f')"
  shows "strstr (ref_text c' f' @ ys) (ref_text c f)
     = map_option ((+) (length (ref_text c' f'))) (strstr ys (ref_text c f))"
proof -
  let ?R = "tl (ref_text c' f')"
  have R: "ref_text c' f' @ ys = c' # (?R @ ys)" "length (ref_text c' f') = Suc (length ?R)"
    by (simp_all add: ref_text_def)
  have "take (length (ref_text c f)) (c' # (?R @ ys)) \<noteq> ref_text c f"
    using ref_text_prefix [of c f c' f' ys] assms(2) R(1) by auto
  then have "strstr (c' # (?R @ ys)) (ref_text c f) = map_option Suc (strstr (?R @ ys) (ref_text c f))"
    by (simp only: strstr.simps if_False)
  also have "hd (ref_text c f) \<notin> set ?R"
    using assms(1) field_name_chars [of f'] by (auto simp: ref_text_def)
  then have "strstr (?R @ ys) (ref_text c f) = map_option ((+) (length ?R)) (strstr ys (ref_text c f))"
    by (intro strstr_skip) (simp_all add: ref_text_def)
  finally show ?thesis unfolding R by (cases "strstr ys (ref_text c f)") simp_all
qed

lemma strstr_render:
  assumes "list_all chunk_ok cs" and "c = CHR ''$'' \<or> c = CHR ''@''"
  shows "strstr (render cs) (ref_text c f) = (if Ref c f \<in> set cs
     then Some (length (render (takeWhile (\<lambda>x. x \<noteq> Ref c f) cs))) else None)"
  using assms(1)
proof (induction cs rule: render.induct)
  case 1
  show ?case by (simp add: ref_text_def)
next
  case (2 s cs)
  have "hd (ref_text c f) \<notin> set s" "ref_text c f \<noteq> []"
    using 2(2) assms(2) by (auto simp: ref_text_def plain_def)
  then show ?case using 2 by (simp add: strstr_skip)
next
  case (3 c' f' cs)
  show ?case
  proof (cases "(c, f) = (c', f')")
    case True
    then show ?thesis by (simp add: strstr_here)
  next
    case False
    then show ?thesis using strstr_other_ref [OF assms(2) False] 3 by auto
  qed
qed

text \<open>One substitution, one pass and the whole loop on such a text.\<close>

definition nrefs :: "chunk list \<Rightarrow> nat" where
  "nrefs cs = length (filter (\<lambda>x. \<exists>c f. x = Ref c f) cs)"

definition usable :: "install_dirs \<Rightarrow> nat \<Rightarrow> (dir_field \<Rightarrow> string) \<Rightarrow> chunk list \<Rightarrow> bool" where
  "usable D off val cs \<longleftrightarrow> list_all chunk_ok cs
     \<and> (\<forall>f\<in>refs cs. field_from D off f = Inr (val f) \<and> plain (val f))"

lemma substitute_ref:
  assumes "usable D off val cs" and "Ref c f \<in> set cs"
  shows "\<exists>cs'. take (length (render (takeWhile (\<lambda>x. x \<noteq> Ref c f) cs))) (render cs) @ val f
       @ drop (length (render (takeWhile (\<lambda>x. x \<noteq> Ref c f) cs)) + length (ref_text c f)) (render cs) = render cs'
     \<and> usable D off val cs' \<and> meaning val cs' = meaning val cs \<and> nrefs cs' < nrefs cs \<and> refs cs' \<subseteq> refs cs"
proof -
  obtain pre post where cs: "cs = pre @ Ref c f # post" and "Ref c f \<notin> set pre"
    using split_list_first [OF assms(2)] by blast
  then have pre: "takeWhile (\<lambda>x. x \<noteq> Ref c f) cs = pre"
    unfolding cs by (subst takeWhile_append2) auto
  have sub: "refs (pre @ Lit (val f) # post) \<subseteq> refs cs" by (auto simp: refs_def cs)
  have "f \<in> refs cs" by (auto simp: refs_def cs)
  with assms(1) sub have "usable D off val (pre @ Lit (val f) # post)"
    by (auto simp: usable_def cs)
  then show ?thesis unfolding pre
    by (intro exI [of _ "pre @ Lit (val f) # post"]) (use sub in \<open>simp add: cs nrefs_def\<close>)
qed

lemma expand_string_render:
  assumes "usable D off val cs"
  shows "if f \<in> refs cs
     then \<exists>cs'. EXPAND_STRING2 D off f (render cs, ch) = Inr (render cs', True)
        \<and> usable D off val cs' \<and> meaning val cs' = meaning val cs \<and> nrefs cs' < nrefs cs \<and> refs cs' \<subseteq> refs cs
     else EXPAND_STRING2 D off f (render cs, ch) = Inr (render cs, ch)"
proof -
  note pos = strstr_render [of cs _ f]
  have ok: "list_all chunk_ok cs" using assms by (simp add: usable_def)
  show ?thesis
  proof (cases "f \<in> refs cs")
    case True
    then have val: "field_from D off f = Inr (val f)" using assms by (simp add: usable_def)
    from True ok have "Ref CHR ''$'' f \<in> set cs \<or> Ref CHR ''$'' f \<notin> set cs \<and> Ref CHR ''@'' f \<in> set cs"
      by (auto simp: refs_def list_all_iff dest!: bspec)
    then show ?thesis
      using True val pos [OF ok] substitute_ref [OF assms, of _ f]
      by (auto simp: EXPAND_STRING2_def)
  next
    case False
    then show ?thesis using pos [OF ok] by (simp add: EXPAND_STRING2_def refs_def)
  qed
qed

lemma expand_pass_render:
  assumes "usable D off val cs"
  shows "\<exists>cs' ch'. res_fold (EXPAND_STRING2 D off) fs (render cs, ch) = Inr (render cs', ch')
     \<and> usable D off val cs' \<and> meaning val cs' = meaning val cs \<and> nrefs cs' \<le> nrefs cs
     \<and> (ch \<longrightarrow> ch') \<and> (ch' \<longrightarrow> ch \<or> nrefs cs' < nrefs cs) \<and> (\<not> ch' \<longrightarrow> cs' = cs \<and> refs cs \<inter> set fs = {})"
  using assms
proof (induction fs arbitrary: cs ch)
  case (Cons f fs)
  show ?case
  proof (cases "f \<in> refs cs")
    case True
    with expand_string_render [OF Cons.prems, of f ch] obtain ds where ds:
      "EXPAND_STRING2 D off f (render cs, ch) = Inr (render ds, True)" "usable D off val ds"
      "meaning val ds = meaning val cs" "nrefs ds < nrefs cs" by auto
    obtain es ch' where es: "res_fold (EXPAND_STRING2 D off) fs (render ds, True) = Inr (render es, ch')"
      "usable D off val es" "meaning val es = meaning val ds" "nrefs es \<le> nrefs ds" "ch'"
      using Cons.IH [OF ds(2), of True] by blast
    with ds es show ?thesis by (intro exI [of _ es] exI [of _ ch']) simp
  next
    case False
    with expand_string_render [OF Cons.prems, of f ch] Cons.IH [OF Cons.prems, of ch] show ?thesis by simp
  qed
qed auto

lemma meaning_no_refs: "refs cs = {} \<Longrightarrow> meaning val cs = render cs"
  by (induction cs rule: render.induct) (auto simp: refs_def)

lemma expand_loop_render:
  "usable D off val cs \<Longrightarrow> expand_loop D off (render cs) = Some (Inr (meaning val cs))"
proof (induction "nrefs cs" arbitrary: cs rule: less_induct)
  case less
  obtain ds ch where ds: "expand_pass D off (render cs) = Inr (render ds, ch)"
    "usable D off val ds" "meaning val ds = meaning val cs" "ch \<longrightarrow> nrefs ds < nrefs cs"
    "\<not> ch \<longrightarrow> ds = cs \<and> refs cs \<inter> set all_fields = {}"
    using expand_pass_render [OF less.prems, of all_fields False] unfolding expand_pass_def by blast
  show ?case
  proof (cases ch)
    case True
    with ds less.hyps [of ds] show ?thesis by (subst expand_loop.simps) simp
  next
    case False
    with ds have "refs ds = {}" using all_fields_complete by auto
    with ds False show ?thesis by (subst expand_loop.simps) (simp add: meaning_no_refs)
  qed
qed

subsection \<open>Copying\<close>

lemma CONDITIONAL_COPY_apply:
  "CONDITIONAL_COPY origin f target g = (if g = f \<and> target g = None then origin g else target g)"
  by (auto simp: CONDITIONAL_COPY_def)

lemma copy_component_apply:
  "copy_component origin target g = (if target g = None then origin g else target g)"
proof -
  have "fold (CONDITIONAL_COPY origin) fs target g
      = (if g \<in> set fs \<and> target g = None then origin g else target g)" for fs
    by (induction fs arbitrary: target) (auto simp: CONDITIONAL_COPY_apply)
  then show ?thesis by (simp add: copy_component_def all_fields_complete)
qed

text \<open>The first component that has a directory.\<close>

fun first_has :: "install_dirs list \<Rightarrow> install_dirs" where
  "first_has [] f = None"
| "first_has (D # Ds) f = (case D f of None \<Rightarrow> first_has Ds f | Some s \<Rightarrow> Some s)"

lemma copy_components_apply:
  "fold copy_component Ds T f = (case T f of None \<Rightarrow> first_has Ds f | Some s \<Rightarrow> Some s)"
  by (induction Ds arbitrary: T) (auto simp: copy_component_apply split: option.splits)

lemma expand_loop_correct:
  assumes "list_all chunk_ok cs" and "\<forall>f\<in>refs cs. \<exists>s. D f = Some s \<and> plain s"
  shows "dsched_dinstall_dirs_expand A D (Some (render cs)) = Some (Inr (meaning (\<lambda>f. the (D f)) cs))"
proof -
  have "usable D 0 (\<lambda>f. the (D f)) cs"
    using assms by (auto simp: usable_def field_from_def)
  from expand_loop_render [OF this] have loop:
    "expand_loop D 0 (render cs) = Some (Inr (meaning (\<lambda>f. the (D f)) cs))" .
  have "refs cs = {}" if "CHR ''$'' \<notin> set (render cs)" "CHR ''@'' \<notin> set (render cs)"
    using that assms(1) by (induction cs rule: render.induct) (auto simp: refs_def ref_text_def)
  with loop show ?thesis
    by (auto simp: dsched_dinstall_dirs_expand_def dsched_dinstall_dirs_expand_internal_def meaning_no_refs)
qed

subsection \<open>Properties\<close>


definition sample_dirs :: install_dirs where
  "sample_dirs = (\<lambda>f. None)(F_prefix \<mapsto> ''/opt'', F_libdir \<mapsto> ''/opt/lib'')"

definition sample_dirs_api :: dirs_api where
  "sample_dirs_api = \<lparr>getenv = (\<lambda>v. None), os_path = (\<lambda>d s. d @ s)\<rparr>"


text \<open>The fields before a field in the order of expansion.\<close>

definition earlier :: "dir_field \<Rightarrow> dir_field set" where
  "earlier f = set (takeWhile (\<lambda>g. g \<noteq> f) all_fields)"

lemma earlier_split:
  assumes "all_fields = pre @ f # fs"
  shows "earlier f = set pre" and "f \<notin> set pre" and "f \<notin> set fs"
proof -
  have "distinct (pre @ f # fs)" unfolding assms [symmetric] by (simp add: all_fields_def)
  then have d: "f \<notin> set pre" "f \<notin> set fs" by simp_all
  then have "takeWhile (\<lambda>g. g \<noteq> f) all_fields = pre" unfolding assms by (subst takeWhile_append2) auto
  with d show "earlier f = set pre" "f \<notin> set pre" "f \<notin> set fs" by (simp_all add: earlier_def)
qed

lemma meaning_cong: "(\<And>f. f \<in> refs cs \<Longrightarrow> val f = val' f) \<Longrightarrow> meaning val cs = meaning val' cs"
  by (induction cs rule: render.induct) simp_all

lemma meaning_plain:
  "list_all chunk_ok cs \<Longrightarrow> (\<And>f. f \<in> refs cs \<Longrightarrow> plain (val f)) \<Longrightarrow> plain (meaning val cs)"
  by (induction cs rule: render.induct) (simp_all add: plain_def)

definition solved :: "(dir_field \<Rightarrow> chunk list) \<Rightarrow> install_dirs \<Rightarrow> dir_field \<Rightarrow> bool" where
  "solved ch D f \<longleftrightarrow> D f = Some (meaning (\<lambda>g. the (D g)) (ch f))
     \<and> plain (meaning (\<lambda>g. the (D g)) (ch f))"

lemma setup_without_destdir:
  "getenv A ''DSCHED_DESTDIR'' = None \<Longrightarrow>
   dsched_dinstall_dirs_expand_setup A D s = dsched_dinstall_dirs_expand A D s"
  by (simp add: dsched_dinstall_dirs_expand_setup_def dsched_dinstall_dirs_expand_def
      dsched_dinstall_dirs_expand_internal_def)

lemma expand_fields_solves:
  assumes "getenv A ''DSCHED_DESTDIR'' = None" and "\<And>f. list_all chunk_ok (ch f)"
    and "\<And>f. refs (ch f) \<subseteq> earlier f"
  shows "all_fields = pre @ fs \<Longrightarrow> (\<And>f. f \<in> set pre \<Longrightarrow> solved ch D f) \<Longrightarrow>
     (\<And>f. f \<in> set fs \<Longrightarrow> D f = Some (render (ch f))) \<Longrightarrow>
     \<exists>D'. expand_fields A fs D = Some (Inr D') \<and> (\<forall>f. solved ch D' f)"
proof (induction fs arbitrary: pre D)
  case Nil
  then show ?case using all_fields_complete by auto
next
  case (Cons f fs)
  note split = earlier_split [OF Cons.prems(1)]
  have known: "D g = Some (the (D g)) \<and> plain (the (D g))" if "g \<in> set pre" for g
    using Cons.prems(2) [OF that] by (auto simp: solved_def)
  let ?v = "meaning (\<lambda>g. the (D g)) (ch f)"
  have "dsched_dinstall_dirs_expand A D (Some (render (ch f))) = Some (Inr ?v)"
    using assms(3) [of f] known split(1) by (intro expand_loop_correct assms(2)) blast
  then have step: "expand_fields A (f # fs) D = expand_fields A fs (D(f \<mapsto> ?v))"
    using Cons.prems(3) [of f] by (simp add: setup_without_destdir [OF assms(1)])
  have same: "meaning (\<lambda>g. the ((D(f \<mapsto> ?v)) g)) (ch g) = meaning (\<lambda>g. the (D g)) (ch g)"
    if "f \<notin> refs (ch g)" for g
    using that by (intro meaning_cong) auto
  have "solved ch (D(f \<mapsto> ?v)) g" if g: "g \<in> set (pre @ [f])" for g
  proof (cases "g = f")
    case True
    have "f \<notin> refs (ch f)" using assms(3) [of f] split by blast
    moreover have "plain ?v" using assms(3) [of f] known split(1) by (intro meaning_plain assms(2)) blast
    ultimately show ?thesis using True same by (simp add: solved_def)
  next
    case False
    with g have "g \<in> set pre" by simp
    then obtain us vs where "pre = us @ g # vs" using split_list by metis
    then have "earlier g = set us" using earlier_split(1) [of us g "vs @ f # fs"] Cons.prems(1) by simp
    with assms(3) [of g] split(2) \<open>pre = us @ g # vs\<close> have "f \<notin> refs (ch g)" by auto
    with same Cons.prems(2) [OF \<open>g \<in> set pre\<close>] False show ?thesis by (simp add: solved_def)
  qed
  moreover have "(D(f \<mapsto> ?v)) g = Some (render (ch g))" if "g \<in> set fs" for g
    using Cons.prems(3) [of g] that split(3) by auto
  ultimately show ?case
    unfolding step using Cons.prems(1) by (intro Cons.IH [of "pre @ [f]"]) (simp_all del: fun_upd_apply)
qed


text \<open>The environment sets the prefix, the configuration the rest.\<close>

definition sample_config :: "string \<Rightarrow> string" where
  "sample_config mac =
     (if mac = ''DSCHED_EXEC_PREFIX'' then ''${prefix}''
      else if mac = ''DSCHED_BINDIR'' then ''${exec_prefix}/bin'' else ''/usr'')"

definition sample_env_api :: dirs_api where
  "sample_env_api =
     \<lparr>getenv = (\<lambda>v. if v = ''DSCHED_PREFIX'' then Some ''/opt'' else None), os_path = (\<lambda>d s. d @ s)\<rparr>"

definition sample_chunks :: "dir_field \<Rightarrow> chunk list" where
  "sample_chunks f =
     (if f = F_prefix then [Lit ''/opt''] else if f = F_exec_prefix then [Ref CHR ''$'' F_prefix]
      else if f = F_bindir then [Ref CHR ''$'' F_exec_prefix, Lit ''/bin''] else [Lit ''/usr''])"

lemma sample_components:
  "first_has [snd (dinstalldirs_env_open sample_env_api (\<lambda>f. None)), config_component sample_config] f
     = Some (render (sample_chunks f))"
  by (cases f) (simp_all add: dinstalldirs_env_open_def all_fields_def SET_FIELD_def sample_env_api_def
      config_component_def sample_config_def sample_chunks_def ref_text_def)

lemma sample_chunks_ordered: "list_all chunk_ok (sample_chunks f) \<and> refs (sample_chunks f) \<subseteq> earlier f"
  by (simp add: sample_chunks_def plain_def earlier_def all_fields_def)


lemma self_reference_pass:
  assumes "D F_prefix = Some ''${prefix}''"
  shows "expand_pass D 0 ''${prefix}'' = Inr (''${prefix}'', True)"
  using assms by (simp add: expand_pass_def all_fields_def EXPAND_STRING2_def ref_text_def field_from_def)

lemma self_reference_loop:
  "expand_loop D off s = Some y \<Longrightarrow> \<not> (D F_prefix = Some ''${prefix}'' \<and> off = 0 \<and> s = ''${prefix}'')"
  by (rule expand_loop.raw_induct
      [where P = "\<lambda>D off s y. \<not> (D F_prefix = Some ''${prefix}'' \<and> off = 0 \<and> s = ''${prefix}'')"])
    (auto simp: self_reference_pass, metis less_irrefl)



end
