(* ===== verification/Upcalls.thy ===== *)
theory Upcalls
  imports Sched_Objects
begin

text \<open>
  What the upcalls of the server library share that are answered outside the
  scheduling pipeline (tool connections and queries): the further members of
  the shift caddy, the state the two handlers change, and the answers they give.
\<close>

record pmix_query =
  q_keys :: "pmix_key list option"
  q_qualifiers :: "pmix_info list"

record upcall_caddy = dsched_shift_caddy +
  sc_status :: pmix_status
  sc_info :: "pmix_info list"
  sc_cbdata :: nat
  sc_target :: pmix_proc
  sc_uid :: u32
  sc_gid :: u32
  sc_pid :: u32
  sc_hostname :: "string option"
  sc_cmdline :: "string option"
  sc_launcher :: bool
  sc_scheduler :: bool
  sc_queries :: "pmix_query list"
  sc_infocbfunc :: "nat option"
  sc_toolcbfunc :: "nat option"

text \<open>\<open>invalid\<close> is what \<open>PMIx_Load_procid\<close> makes of a null namespace and the invalid rank.\<close>

definition upcall_scon :: "pmix_proc \<Rightarrow> upcall_caddy" where
  "upcall_scon invalid = dsched_shift_caddy.extend scon
     \<lparr>sc_status = PMIX_ERROR, sc_info = [], sc_cbdata = 0, sc_target = invalid, sc_uid = 0, sc_gid = 0,
      sc_pid = 0, sc_hostname = None, sc_cmdline = None, sc_launcher = False, sc_scheduler = False,
      sc_queries = [], sc_infocbfunc = None, sc_toolcbfunc = None\<rparr>"

text \<open>
  Entries of an info list: a key with a string, a number or an array of entries.
\<close>

datatype info_entry = E_string pmix_key "string option" | E_int pmix_key int | E_array pmix_key "info_entry list"

datatype answer =
    Tool_answer nat pmix_status "pmix_proc option" nat
  | Query_answer nat pmix_status "info_entry list" nat

datatype posted = P_query upcall_caddy | P_toolconn upcall_caddy

text \<open>
  \<open>u_procs\<close> has the entries of the list of tools, \<open>u_posted\<close> the events that
  were posted and have not run, \<open>u_answers\<close> the callbacks that were called.
\<close>

record upcall_state =
  u_glob :: dsched_globals
  u_nodes :: "ptr \<rightharpoonup> dsched_node"
  u_topologies :: "ptr \<rightharpoonup> dsched_topology"
  u_procs :: "ptr \<rightharpoonup> pmix_proc"
  u_fresh :: ptr
  u_posted :: "posted list"
  u_answers :: "answer list"

definition answer :: "answer \<Rightarrow> upcall_state \<Rightarrow> upcall_state" where
  "answer a u = u\<lparr>u_answers := u_answers u @ [a]\<rparr>"

text \<open>A loop that may be left with a status, as by \<open>goto done\<close>.\<close>

datatype 'a flow = Next 'a | Done pmix_status 'a

fun flow_value :: "'a flow \<Rightarrow> 'a" where
  "flow_value (Next x) = x"
| "flow_value (Done rc x) = x"

fun flow_loop :: "('b \<Rightarrow> 'a \<Rightarrow> 'a flow res) \<Rightarrow> 'b list \<Rightarrow> 'a \<Rightarrow> 'a flow res" where
  "flow_loop f [] s = Inr (Next s)"
| "flow_loop f (x # xs) s =
     res_bind (f x s) (\<lambda>r. case r of Next s \<Rightarrow> flow_loop f xs s | Done rc s \<Rightarrow> Inr (Done rc s))"

lemma flow_loop_append:
  "flow_loop f (xs @ ys) s = res_bind (flow_loop f xs s)
     (\<lambda>r. case r of Next s \<Rightarrow> flow_loop f ys s | Done rc s \<Rightarrow> Inr (Done rc s))"
proof (induction xs arbitrary: s)
  case (Cons x xs)
  show ?case
  proof (cases "f x s")
    case (Inr r)
    then show ?thesis using Cons by (cases r) simp_all
  qed simp
qed simp

lemma flow_loop_invariant:
  assumes "\<And>x s r. x \<in> set xs \<Longrightarrow> P s \<Longrightarrow> f x s = Inr r \<Longrightarrow> P (flow_value r)"
    and "P s" and "flow_loop f xs s = Inr r"
  shows "P (flow_value r)"
  using assms
proof (induction xs arbitrary: s)
  case (Cons x xs)
  then obtain r' where r': "f x s = Inr r'" by auto
  show ?case
  proof (cases r')
    case (Next s')
    have "P s'" using Cons.prems(1) [OF _ Cons.prems(2) r'] Next by simp
    moreover have "flow_loop f xs s' = Inr r" using Cons.prems(3) r' Next by simp
    moreover have "P (flow_value q)" if "y \<in> set xs" "P t" "f y t = Inr q" for y t q
      using Cons.prems(1) [of y t q] that by simp
    ultimately show ?thesis using Cons.IH [of s'] by blast
  next
    case (Done rc s')
    have "P s'" using Cons.prems(1) [OF _ Cons.prems(2) r'] Done by simp
    with Cons.prems(3) r' Done show ?thesis by auto
  qed
qed auto

lemma flow_loop_Next:
  "flow_loop f (x # xs) s = Inr (Next t) \<longleftrightarrow> (\<exists>s'. f x s = Inr (Next s') \<and> flow_loop f xs s' = Inr (Next t))"
  by (auto split: flow.split_asm)

lemma flow_loop_Done:
  "flow_loop f xs s = Inr (Done rc t) \<Longrightarrow> \<exists>x\<in>set xs. \<exists>s'. f x s' = Inr (Done rc t)"
proof (induction xs arbitrary: s)
  case (Cons x xs)
  then obtain r where r: "f x s = Inr r" by auto
  show ?case
  proof (cases r)
    case (Next s')
    with Cons r show ?thesis by auto
  next
    case (Done rc' t')
    with Cons.prems r show ?thesis by auto
  qed
qed simp

text \<open>A state with no nodes and no tools yet, for the witnesses.\<close>

definition upcall_start :: "dsched_globals \<Rightarrow> upcall_state" where
  "upcall_start g = \<lparr>u_glob = g, u_nodes = Map.empty, u_topologies = Map.empty, u_procs = Map.empty,
     u_fresh = 0, u_posted = [], u_answers = []\<rparr>"

end
