(* ===== verification/Tool_Connect.thy ===== *)
theory Tool_Connect
  imports Upcalls
begin

text \<open>
  Tool connections (\<open>tools/dsched/backend.c\<close>): a tool that attaches to the
  daemon is registered under the name it gave itself, and the system controller
  is remembered.
\<close>

text \<open>
  The functions of the server library beside \<open>pmix_api\<close>. \<open>register_nspace\<close>
  gives the status the call returns and the one its callback reports.
\<close>

record tool_api = pmix_api +
  load_ns :: "string option \<Rightarrow> string"
  nspace_invalid :: "string \<Rightarrow> bool"
  rank_invalid :: u32
  register_nspace :: "string \<Rightarrow> pmix_status \<times> pmix_status"

definition register_tool :: "tool_api \<Rightarrow> string \<Rightarrow> upcall_state \<Rightarrow> pmix_status \<times> upcall_state" where
  "register_tool A nspace u =
     (let tl = u_fresh u;
          u = u\<lparr>u_fresh := Suc tl,
                u_procs := (u_procs u)(tl \<mapsto> \<lparr>p_nspace = load_ns A (Some nspace), p_rank = 0\<rparr>),
                u_glob := (u_glob u)\<lparr>g_tools := g_tools (u_glob u) @ [tl]\<rparr>\<rparr>;
          (ret, status) = register_nspace A nspace
      in if ret \<noteq> PMIX_SUCCESS then (ret, u) else (status, u))"

text \<open>A string member as a pointer: it may be null.\<close>

fun string_member :: "pmix_val \<Rightarrow> string option res" where
  "string_member (VString s) = Inr s"
| "string_member _ = Inl UnionMismatch"

definition set_number ::
  "pmix_status \<times> u32 \<Rightarrow> (u32 \<Rightarrow> upcall_caddy \<Rightarrow> upcall_caddy) \<Rightarrow> upcall_caddy \<Rightarrow> upcall_caddy flow" where
  "set_number r upd cd =
     (let (xrc, x) = r in if xrc \<noteq> PMIX_SUCCESS then Done xrc (upd x cd) else Next (upd x cd))"

text \<open>The body of the loop over the directives.\<close>

definition toolconn_directive :: "tool_api \<Rightarrow> pmix_info \<Rightarrow> upcall_caddy \<Rightarrow> upcall_caddy flow res" where
  "toolconn_directive A i cd =
     (if i_key i = PMIX_EVENT_SILENT_TERMINATION then
        Inr (Next (cd\<lparr>sc_flag := val_true A (i_val i)\<rparr>))
      else if i_key i = PMIX_VERSION_INFO then Inr (Next cd)
      else if i_key i = PMIX_USERID then
        Inr (set_number (get_u32 A (i_val i) (sc_uid cd)) (\<lambda>x. sc_uid_update (\<lambda>_. x)) cd)
      else if i_key i = PMIX_GRPID then
        Inr (set_number (get_u32 A (i_val i) (sc_gid cd)) (\<lambda>x. sc_gid_update (\<lambda>_. x)) cd)
      else if i_key i = PMIX_NSPACE then
        res_bind (string_member (i_val i)) (\<lambda>s.
          Inr (Next (cd\<lparr>sc_target := (sc_target cd)\<lparr>p_nspace := load_ns A s\<rparr>\<rparr>)))
      else if i_key i = PMIX_RANK then
        res_bind (data_rank (i_val i)) (\<lambda>r.
          Inr (Next (cd\<lparr>sc_target := (sc_target cd)\<lparr>p_rank := r\<rparr>\<rparr>)))
      else if i_key i = PMIX_HOSTNAME then
        res_bind (data_string (i_val i)) (\<lambda>s. Inr (Next (cd\<lparr>sc_hostname := Some s\<rparr>)))
      else if i_key i = PMIX_CMD_LINE then
        res_bind (data_string (i_val i)) (\<lambda>s. Inr (Next (cd\<lparr>sc_cmdline := Some s\<rparr>)))
      else if i_key i = PMIX_LAUNCHER then Inr (Next (cd\<lparr>sc_launcher := val_true A (i_val i)\<rparr>))
      else if i_key i = PMIX_SERVER_SYS_CONTROLLER then
        Inr (Next (cd\<lparr>sc_scheduler := val_true A (i_val i)\<rparr>))
      else if i_key i = PMIX_PROC_PID then
        Inr (set_number (get_pid A (i_val i) (sc_pid cd)) (\<lambda>x. sc_pid_update (\<lambda>_. x)) cd)
      else Inr (Next cd))"

definition tool_reply :: "upcall_caddy \<Rightarrow> pmix_status \<Rightarrow> pmix_proc option \<Rightarrow> upcall_state \<Rightarrow> upcall_state" where
  "tool_reply cd xrc proc u =
     (case sc_toolcbfunc cd of
        None \<Rightarrow> u
      | Some f \<Rightarrow> answer (Tool_answer f xrc proc (sc_cbdata cd)) u)"

definition toolconn :: "tool_api \<Rightarrow> upcall_caddy \<Rightarrow> upcall_state \<Rightarrow> upcall_state res" where
  "toolconn A cd u =
     res_bind (flow_loop (toolconn_directive A) (sc_info cd) cd) (\<lambda>r.
       case r of
         Done xrc cd \<Rightarrow> Inr (tool_reply cd xrc None u)
       | Next cd \<Rightarrow>
           (let u = (if sc_scheduler cd
                     then u\<lparr>u_glob := (u_glob u)\<lparr>g_controller_connected := True,
                            g_syscontroller := \<lparr>p_nspace = load_ns A (Some (p_nspace (sc_target cd))),
                                                p_rank = p_rank (sc_target cd)\<rparr>\<rparr>\<rparr>
                     else u);
                (xrc, u) = (if nspace_invalid A (p_nspace (sc_target cd))
                               \<or> rank_invalid A = p_rank (sc_target cd)
                            then (PMIX_ERR_BAD_PARAM, u)
                            else register_tool A (p_nspace (sc_target cd)) u)
            in Inr (tool_reply cd xrc (Some (sc_target cd)) u)))"

definition dsched_tool_connected_fn ::
  "pmix_proc \<Rightarrow> pmix_info list \<Rightarrow> nat option \<Rightarrow> nat \<Rightarrow> upcall_state \<Rightarrow> pmix_status \<times> upcall_state" where
  "dsched_tool_connected_fn invalid info cbfunc cbdata u =
     (let cd = (upcall_scon invalid)
            \<lparr>sc_info := info, sc_toolcbfunc := cbfunc, sc_cbdata := cbdata,
             sc_target := invalid\<lparr>p_rank := 0\<rparr>\<rparr>
      in (PMIX_SUCCESS, u\<lparr>u_posted := u_posted u @ [P_toolconn cd]\<rparr>))"

subsection \<open>What the directives determine\<close>

text \<open>The value of the last directive with a key.\<close>

fun last_val :: "pmix_key \<Rightarrow> pmix_info list \<Rightarrow> pmix_val option" where
  "last_val k [] = None"
| "last_val k (i # is) =
     (case last_val k is of
        Some v \<Rightarrow> Some v
      | None \<Rightarrow> if i_key i = k then Some (i_val i) else None)"

fun nspace_of :: "tool_api \<Rightarrow> string \<Rightarrow> pmix_val option \<Rightarrow> string" where
  "nspace_of A d (Some (VString s)) = load_ns A s"
| "nspace_of A d _ = d"

fun rank_of :: "u32 \<Rightarrow> pmix_val option \<Rightarrow> u32" where
  "rank_of d (Some (VRank r)) = r"
| "rank_of d _ = d"

definition flag_of :: "tool_api \<Rightarrow> bool \<Rightarrow> pmix_val option \<Rightarrow> bool" where
  "flag_of A d v = (case v of None \<Rightarrow> d | Some x \<Rightarrow> val_true A x)"

lemma string_member_Inr [simp]: "string_member v = Inr s \<longleftrightarrow> v = VString s"
  by (cases v) simp_all

lemma data_rank_Inr [simp]: "data_rank v = Inr r \<longleftrightarrow> v = VRank r"
  by (cases v) simp_all

lemma toolconn_directive_Next:
  assumes "toolconn_directive A i cd = Inr (Next cd')"
  shows "p_nspace (sc_target cd') = (if i_key i = PMIX_NSPACE
           then nspace_of A (p_nspace (sc_target cd)) (Some (i_val i)) else p_nspace (sc_target cd))"
    and "p_rank (sc_target cd') = (if i_key i = PMIX_RANK
           then rank_of (p_rank (sc_target cd)) (Some (i_val i)) else p_rank (sc_target cd))"
    and "sc_scheduler cd' = (if i_key i = PMIX_SERVER_SYS_CONTROLLER
           then val_true A (i_val i) else sc_scheduler cd)"
  using assms
  by (auto simp: toolconn_directive_def set_number_def split_beta split: if_splits)

lemma toolconn_directive_keeps:
  assumes "toolconn_directive A i cd = Inr r"
  shows "sc_toolcbfunc (flow_value r) = sc_toolcbfunc cd \<and> sc_cbdata (flow_value r) = sc_cbdata cd"
  using assms by (auto simp: toolconn_directive_def set_number_def split_beta split: if_splits)

lemma toolconn_directive_Done: "toolconn_directive A i cd = Inr (Done xrc cd') \<Longrightarrow> xrc \<noteq> PMIX_SUCCESS"
  by (auto simp: toolconn_directive_def set_number_def split_beta split: if_splits)

lemma directives_keep:
  assumes "flow_loop (toolconn_directive A) is cd = Inr r"
  shows "sc_toolcbfunc (flow_value r) = sc_toolcbfunc cd \<and> sc_cbdata (flow_value r) = sc_cbdata cd"
  by (rule flow_loop_invariant [OF _ _ assms]) (use toolconn_directive_keeps in auto)

lemma toolconn_directive_typed:
  assumes "toolconn_directive A i cd = Inr (Next cd')"
  shows "i_key i = PMIX_NSPACE \<Longrightarrow> \<exists>s. i_val i = VString s" and "i_key i = PMIX_RANK \<Longrightarrow> \<exists>r. i_val i = VRank r"
  using assms by (auto simp: toolconn_directive_def)

lemma directives_typed:
  assumes "flow_loop (toolconn_directive A) is cd = Inr (Next cd')"
  shows "(last_val PMIX_NSPACE is = Some v \<longrightarrow> (\<exists>s. v = VString s))
     \<and> (last_val PMIX_RANK is = Some v \<longrightarrow> (\<exists>r. v = VRank r))"
  using assms
proof (induction "is" arbitrary: cd)
  case (Cons i "is")
  then obtain cd1 where cd1: "toolconn_directive A i cd = Inr (Next cd1)"
    "flow_loop (toolconn_directive A) is cd1 = Inr (Next cd')"
    unfolding flow_loop_Next by blast
  show ?case
    using Cons.IH [OF cd1(2)] toolconn_directive_typed [OF cd1(1)] by (auto split: option.splits)
qed simp

lemma directives_determine:
  assumes "flow_loop (toolconn_directive A) is cd = Inr (Next cd')"
  shows "p_nspace (sc_target cd') = nspace_of A (p_nspace (sc_target cd)) (last_val PMIX_NSPACE is)
     \<and> p_rank (sc_target cd') = rank_of (p_rank (sc_target cd)) (last_val PMIX_RANK is)
     \<and> sc_scheduler cd' = flag_of A (sc_scheduler cd) (last_val PMIX_SERVER_SYS_CONTROLLER is)"
  using assms
proof (induction "is" arbitrary: cd)
  case Nil
  then show ?case by (simp add: flag_of_def)
next
  case (Cons i "is")
  obtain cd1 where cd1: "toolconn_directive A i cd = Inr (Next cd1)"
    "flow_loop (toolconn_directive A) is cd1 = Inr (Next cd')"
    using Cons.prems unfolding flow_loop_Next by blast
  note typed = directives_typed [OF cd1(2)]
  have "nspace_of A d (last_val PMIX_NSPACE is) = nspace_of A d' (last_val PMIX_NSPACE is)"
    if "last_val PMIX_NSPACE is \<noteq> None" for d d' using typed that by fastforce
  moreover have "rank_of d (last_val PMIX_RANK is) = rank_of d' (last_val PMIX_RANK is)"
    if "last_val PMIX_RANK is \<noteq> None" for d d' using typed that by fastforce
  ultimately show ?case
    using Cons.IH [OF cd1(2)] toolconn_directive_Next [OF cd1(1)]
    by (auto simp: flag_of_def split: option.splits)
qed

text \<open>What a connection whose directives were all understood changes.\<close>

lemma toolconn_answers:
  assumes "toolconn A cd u = Inr u'" and "flow_loop (toolconn_directive A) (sc_info cd) cd = Inr (Next cd')"
    and "sc_toolcbfunc cd' = Some f" and "sc_target cd' = p"
  shows "\<exists>xrc. u_answers u' = u_answers u @ [Tool_answer f xrc (Some p) (sc_cbdata cd')]
     \<and> (if nspace_invalid A (p_nspace p) \<or> rank_invalid A = p_rank p
        then xrc = PMIX_ERR_BAD_PARAM \<and> g_tools (u_glob u') = g_tools (u_glob u)
        else xrc = (let (ret, status) = register_nspace A (p_nspace p)
                    in if ret \<noteq> PMIX_SUCCESS then ret else status)
          \<and> g_tools (u_glob u') = g_tools (u_glob u) @ [u_fresh u]
          \<and> u_procs u' (u_fresh u) = Some \<lparr>p_nspace = load_ns A (Some (p_nspace p)), p_rank = 0\<rparr>)
     \<and> (if sc_scheduler cd'
        then g_controller_connected (u_glob u')
          \<and> g_syscontroller (u_glob u') = \<lparr>p_nspace = load_ns A (Some (p_nspace p)), p_rank = p_rank p\<rparr>
        else g_controller_connected (u_glob u') = g_controller_connected (u_glob u)
          \<and> g_syscontroller (u_glob u') = g_syscontroller (u_glob u))"
proof (cases "nspace_invalid A (p_nspace p) \<or> rank_invalid A = p_rank p")
  case True
  with assms show ?thesis
    by (cases "sc_scheduler cd'") (auto simp: toolconn_def tool_reply_def answer_def)
next
  case False
  with assms show ?thesis
    by (cases "sc_scheduler cd'") (auto simp: toolconn_def tool_reply_def answer_def register_tool_def Let_def split_beta)
qed

subsection \<open>Properties\<close>


definition sample_tool_api :: tool_api where
  "sample_tool_api = pmix_api.extend (pmix_api.truncate ref_env)
     \<lparr>load_ns = (\<lambda>s. case s of None \<Rightarrow> [] | Some t \<Rightarrow> take 255 t), nspace_invalid = (\<lambda>s. s = []),
      rank_invalid = - 1, register_nspace = (\<lambda>s. (PMIX_SUCCESS, PMIX_SUCCESS))\<rparr>"

definition sample_tool_info :: "pmix_info list" where
  "sample_tool_info =
     [\<lparr>i_key = PMIX_NSPACE, i_val = VString (Some ''ctl'')\<rparr>,
      \<lparr>i_key = PMIX_SERVER_SYS_CONTROLLER, i_val = VBool True\<rparr>]"

lemmas tool_eval = sample_tool_api_def sample_tool_info_def pmix_api.defs ref_env_def


end
