(* ===== verification/Query_Server.thy ===== *)
theory Query_Server
  imports Tool_Connect
begin

text \<open>
  Queries (\<open>tools/dsched/queries.c\<close>): a list of queries, each with keys and
  qualifiers that may name a node, is answered by one callback with what was
  found.
\<close>

subsection \<open>Data\<close>

text \<open>
  The libraries: adding to an info list (status and new list), converting it to
  an array (status and what the array then holds), exporting a topology in one
  of two formats (null on failure), joining strings; whether verbose output is
  on.
\<close>

record query_api = pmix_api +
  info_list_add :: "info_entry list \<Rightarrow> info_entry \<Rightarrow> pmix_status \<times> info_entry list"
  info_list_convert :: "info_entry list \<Rightarrow> pmix_status \<times> info_entry list"
  export_xml :: "nat option \<Rightarrow> bool \<Rightarrow> string option"
  argv_join :: "string list \<Rightarrow> char \<Rightarrow> string"
  verbose :: bool

text \<open>
  The variables that outlive one query: the list of results and the node of the
  last qualifier.
\<close>

record query_vars =
  qv_results :: "info_entry list"
  qv_node :: "ptr option"

text \<open>The variables of one query's qualifiers.\<close>

record qualifiers =
  ql_hostname :: "string option"
  ql_nodeid :: u32

subsection \<open>Processing\<close>

definition qualifier :: "query_api \<Rightarrow> pmix_info \<Rightarrow> qualifiers \<Rightarrow> qualifiers flow res" where
  "qualifier A i q =
     (if i_key i = PMIX_HOSTNAME then
        res_bind (string_member (i_val i)) (\<lambda>s. Inr (Next (q\<lparr>ql_hostname := s\<rparr>)))
      else if i_key i = PMIX_NODEID then
        (let (ret, x) = get_u32 A (i_val i) (ql_nodeid q); q = q\<lparr>ql_nodeid := x\<rparr>
         in Inr (if ret \<noteq> PMIX_SUCCESS then Done ret q else Next q))
      else Inr (Next q))"

text \<open>
  The qualifiers of a query. When the node is unknown the verbose output reads
  the qualifier after the last one.
\<close>

definition find_node ::
  "query_api \<Rightarrow> upcall_state \<Rightarrow> pmix_query \<Rightarrow> query_vars \<Rightarrow> query_vars flow res" where
  "find_node A u q v =
     (if q_qualifiers q = [] then Inr (Next v)
      else
        res_bind (flow_loop (qualifier A) (q_qualifiers q) \<lparr>ql_hostname = None, ql_nodeid = UINT32_MAX\<rparr>)
          (\<lambda>r. case r of
             Done ret _ \<Rightarrow> Inr (Done ret v)
           | Next ql \<Rightarrow>
               if ql_hostname ql \<noteq> None \<or> UINT32_MAX \<noteq> ql_nodeid ql then
                 res_bind (dsched_node_match (u_glob u) (u_nodes u) None (ql_hostname ql) (ql_nodeid ql))
                   (\<lambda>node. case node of
                      None \<Rightarrow>
                        if verbose A then Inl OutOfBounds
                        else Inr (Done PMIX_ERR_BAD_PARAM (v\<lparr>qv_node := None\<rparr>))
                    | Some p \<Rightarrow> Inr (Next (v\<lparr>qv_node := Some p\<rparr>)))
               else Inr (Next v)))"

text \<open>The topology of the query's node in one of the two formats.\<close>

definition query_topology ::
  "query_api \<Rightarrow> upcall_state \<Rightarrow> pmix_key \<Rightarrow> bool \<Rightarrow> query_vars \<Rightarrow> query_vars flow res" where
  "query_topology A u key v1 v =
     (case qv_node v of
        None \<Rightarrow> Inr (Done PMIX_ERR_BAD_PARAM v)
      | Some p \<Rightarrow>
          res_bind (deref (u_nodes u p)) (\<lambda>node.
            case n_topology node of
              None \<Rightarrow> Inr (Done PMIX_ERR_BAD_PARAM v)
            | Some t \<Rightarrow>
                res_bind (deref (u_topologies u t)) (\<lambda>topo.
                  if tp_topo topo = None then Inr (Done PMIX_ERR_BAD_PARAM v)
                  else (case export_xml A (tp_topo topo) v1 of
                      None \<Rightarrow> Inr (Next v)
                    | Some xml \<Rightarrow>
                        (let (rc, results) = info_list_add A (qv_results v) (E_string key (Some xml));
                             v = v\<lparr>qv_results := results\<rparr>
                         in Inr (if rc \<noteq> PMIX_SUCCESS then Done rc v else Next v))))))"

text \<open>
  The allocation: an entry for every node of the pool and every topology is
  collected in a list, which is released before the result is added to it.
\<close>

definition node_entry :: "query_api \<Rightarrow> upcall_state \<Rightarrow> dsched_node \<Rightarrow> info_entry list res" where
  "node_entry A u node =
     (let l = snd (info_list_add A [] (E_string PMIX_HOSTNAME (n_name node)));
          l = (case n_aliases node of
                 None \<Rightarrow> l
               | Some as \<Rightarrow> snd (info_list_add A l
                   (E_string PMIX_HOSTNAME_ALIASES (Some (argv_join A as CHR '','')))))
      in res_bind (deref (n_topology node)) (\<lambda>t.
         res_bind (deref (u_topologies u t)) (\<lambda>topo.
           let l = snd (info_list_add A l (E_int PMIX_TOPOLOGY_INDEX (tp_index topo)))
           in Inr (snd (info_list_convert A l)))))"

definition query_allocation :: "query_api \<Rightarrow> upcall_state \<Rightarrow> query_vars \<Rightarrow> query_vars flow res" where
  "query_allocation A u v =
     res_bind (res_fold (\<lambda>p nodelist.
         res_bind (deref (u_nodes u p)) (\<lambda>node.
         res_bind (node_entry A u node) (\<lambda>dry.
           Inr (snd (info_list_add A nodelist (E_array PMIX_NODE_INFO dry))))))
       (pa_items (g_nodes (u_glob u))) []) (\<lambda>nodelist.
     res_bind (res_fold (\<lambda>t nodelist.
         res_bind (deref (u_topologies u t)) (\<lambda>topo.
           case export_xml A (tp_topo topo) False of
             None \<Rightarrow> Inr nodelist
           | Some str \<Rightarrow> Inr (snd (info_list_add A nodelist (E_string PMIX_HWLOC_XML_V2 (Some str))))))
       (pa_items (g_topologies (u_glob u))) nodelist) (\<lambda>nodelist.
     Inl UseAfterFree))"

definition query_key :: "query_api \<Rightarrow> upcall_state \<Rightarrow> pmix_key \<Rightarrow> query_vars \<Rightarrow> query_vars flow res" where
  "query_key A u key v =
     (if key = PMIX_HWLOC_XML_V1 then query_topology A u PMIX_HWLOC_XML_V1 True v
      else if key = PMIX_HWLOC_XML_V2 then query_topology A u PMIX_HWLOC_XML_V2 False v
      else if key = PMIX_QUERY_ALLOCATION then query_allocation A u v
      else Inr (Next v))"

definition one_query :: "query_api \<Rightarrow> upcall_state \<Rightarrow> pmix_query \<Rightarrow> query_vars \<Rightarrow> query_vars flow res" where
  "one_query A u q v =
     res_bind (find_node A u q v) (\<lambda>r.
       case r of
         Done ret v \<Rightarrow> Inr (Done ret v)
       | Next v \<Rightarrow> res_bind (deref (q_keys q)) (\<lambda>keys. flow_loop (query_key A u) keys v))"

text \<open>The status of the answer; \<open>ninfo\<close> is that of the caddy.\<close>

definition query_status :: "pmix_status \<Rightarrow> nat \<Rightarrow> nat \<Rightarrow> pmix_status" where
  "query_status ret nentries ninfo =
     (if ret = PMIX_SUCCESS then
        (if nentries = 0 then PMIX_ERR_NOT_FOUND
         else if nentries < ninfo then PMIX_QUERY_PARTIAL_SUCCESS else PMIX_SUCCESS)
      else ret)"

definition query :: "query_api \<Rightarrow> upcall_caddy \<Rightarrow> upcall_state \<Rightarrow> upcall_state res" where
  "query A cd u =
     res_bind (flow_loop (one_query A u) (sc_queries cd) \<lparr>qv_results = [], qv_node = None\<rparr>) (\<lambda>r.
       let (ret, v) = (case r of Next v \<Rightarrow> (PMIX_SUCCESS, v) | Done ret v \<Rightarrow> (ret, v));
           (rc, dry) = info_list_convert A (qv_results v);
           ret = (if rc \<noteq> PMIX_SUCCESS then rc else ret);
           ret = query_status ret (length dry) (length (sc_info cd))
       in case sc_infocbfunc cd of
            None \<Rightarrow> Inl NullCall
          | Some f \<Rightarrow> Inr (answer (Query_answer f ret dry (sc_cbdata cd)) u))"

definition dsched_query_fn ::
  "pmix_proc \<Rightarrow> pmix_proc \<Rightarrow> pmix_query list option \<Rightarrow> nat option \<Rightarrow> nat \<Rightarrow> upcall_state
     \<Rightarrow> pmix_status \<times> upcall_state" where
  "dsched_query_fn invalid proct queries cbfunc cbdata u =
     (case (queries, cbfunc) of
        (Some qs, Some f) \<Rightarrow>
          (let cd = (upcall_scon invalid)\<lparr>sc_target := proct, sc_queries := qs,
                 sc_infocbfunc := cbfunc, sc_cbdata := cbdata\<rparr>
           in (PMIX_SUCCESS, u\<lparr>u_posted := u_posted u @ [P_query cd]\<rparr>))
      | _ \<Rightarrow> (PMIX_ERR_BAD_PARAM, u))"

subsection \<open>What the library's lists do\<close>

text \<open>The entries that the keys of a query produce for a node with a topology.\<close>

definition topology_entries :: "query_api \<Rightarrow> nat option \<Rightarrow> pmix_key list \<Rightarrow> info_entry list" where
  "topology_entries A h keys = concat (map (\<lambda>k.
     if k = PMIX_HWLOC_XML_V1 \<or> k = PMIX_HWLOC_XML_V2 then
       (case export_xml A h (k = PMIX_HWLOC_XML_V1) of None \<Rightarrow> [] | Some s \<Rightarrow> [E_string k (Some s)])
     else []) keys)"

locale info_lists =
  fixes A :: query_api
  assumes add_appends: "info_list_add A l e = (PMIX_SUCCESS, l @ [e])"
    and convert_list: "l \<noteq> [] \<Longrightarrow> info_list_convert A l = (PMIX_SUCCESS, l)"
    and convert_empty: "snd (info_list_convert A []) = []"
begin

lemma topology_keys:
  assumes "qv_node v = Some p" and "u_nodes u p = Some node" and "n_topology node = Some t"
    and "u_topologies u t = Some topo" and "tp_topo topo = Some h"
    and "PMIX_QUERY_ALLOCATION \<notin> set keys"
  shows "flow_loop (query_key A u) keys v
     = Inr (Next (v\<lparr>qv_results := qv_results v @ topology_entries A (Some h) keys\<rparr>))"
  using assms(1,6)
proof (induction keys arbitrary: v)
  case Nil
  show ?case by (simp add: topology_entries_def)
next
  case (Cons k keys)
  have "query_key A u k v = Inr (Next (v\<lparr>qv_results := qv_results v @ topology_entries A (Some h) [k]\<rparr>))"
    using assms(2-5) Cons.prems
    by (auto simp: query_key_def query_topology_def topology_entries_def add_appends split: option.split)
  moreover have "topology_entries A (Some h) (k # keys) = topology_entries A (Some h) [k] @ topology_entries A (Some h) keys"
    by (simp add: topology_entries_def)
  ultimately show ?case using Cons.IH [of "v\<lparr>qv_results := qv_results v @ topology_entries A (Some h) [k]\<rparr>"] Cons.prems
    by simp
qed

lemma answer_list:
  assumes "flow_loop (one_query A u) (sc_queries cd) \<lparr>qv_results = [], qv_node = None\<rparr> = Inr (Next v)"
    and "sc_infocbfunc cd = Some f" and "sc_info cd = []"
    and "qv_results v \<noteq> []"
  shows "query A cd u = Inr (answer (Query_answer f PMIX_SUCCESS (qv_results v) (sc_cbdata cd)) u)"
  using assms convert_list [OF assms(4)] by (simp add: query_def query_status_def)

end

lemma nodeid_qualifier:
  assumes "q_qualifiers q = [\<lparr>i_key = PMIX_NODEID, i_val = x\<rparr>]"
    and "get_u32 A x UINT32_MAX = (PMIX_SUCCESS, nodeid)" and "nodeid \<noteq> UINT32_MAX"
    and "pa_get (g_nodes (u_glob u)) (sint nodeid) = Some p"
  shows "find_node A u q v = Inr (Next (v\<lparr>qv_node := Some p\<rparr>))"
  using assms by (simp add: find_node_def qualifier_def dsched_node_match_def match_names_def)

subsection \<open>A reference library\<close>

definition ref_query_api :: query_api where
  "ref_query_api = pmix_api.extend (pmix_api.truncate ref_env)
     \<lparr>info_list_add = (\<lambda>l e. (PMIX_SUCCESS, l @ [e])),
      info_list_convert = (\<lambda>l. (if l = [] then PMIX_OTHER 0 else PMIX_SUCCESS, l)),
      export_xml = (\<lambda>h v1. if v1 then Some ''v1'' else Some ''v2''),
      argv_join = (\<lambda>ss c. concat (map (\<lambda>s. s @ [c]) ss)), verbose = False\<rparr>"

interpretation ref_info_lists: info_lists ref_query_api
  by unfold_locales (simp_all add: ref_query_api_def pmix_api.defs)

subsection \<open>Properties\<close>


definition sample_query :: pmix_query where
  "sample_query = \<lparr>q_keys = Some [PMIX_HWLOC_XML_V2, OtherKey ''x'', PMIX_HWLOC_XML_V1],
     q_qualifiers = [\<lparr>i_key = PMIX_NODEID, i_val = VNumber 1\<rparr>]\<rparr>"

definition sample_node :: dsched_node where
  "sample_node = dsched_node_construct\<lparr>n_name := Some ''n1'', n_topology := Some 5\<rparr>"

definition sample_topology :: dsched_topology where
  "sample_topology = \<lparr>tp_index = 0, tp_topo = Some 7, tp_sig = None\<rparr>"

definition sample_query_state :: upcall_state where
  "sample_query_state = (upcall_start sample_globals)
     \<lparr>u_nodes := sample_nodes(1 \<mapsto> sample_node), u_topologies := Map.empty(5 \<mapsto> sample_topology)\<rparr>"

lemma sample_query_facts:
  "get_u32 ref_query_api (VNumber 1) UINT32_MAX = (PMIX_SUCCESS, 1)" "(1 :: u32) \<noteq> UINT32_MAX"
  "pa_get (g_nodes (u_glob sample_query_state)) (sint (1 :: u32)) = Some 1"
  "u_nodes sample_query_state 1 = Some sample_node" "n_topology sample_node = Some 5"
  "u_topologies sample_query_state 5 = Some sample_topology" "tp_topo sample_topology = Some 7"
  by (simp_all add: sample_query_state_def sample_node_def sample_topology_def ref_query_api_def pmix_api.defs
      ref_env_def upcall_start_def sample_globals_def dsched_globals_init_def pa_get_def UINT32_MAX_def)

lemma sample_query_entries:
  "topology_entries ref_query_api (Some 7) [PMIX_HWLOC_XML_V2, OtherKey ''x'', PMIX_HWLOC_XML_V1]
     = [E_string PMIX_HWLOC_XML_V2 (Some ''v2''), E_string PMIX_HWLOC_XML_V1 (Some ''v1'')]"
  by (simp add: topology_entries_def ref_query_api_def pmix_api.defs)


text \<open>
  The node of a qualifier is not forgotten between queries: a query without
  qualifiers that follows one with a qualifier is answered for the earlier
  query's node instead of being refused.
\<close>

theorem query_node_persists:
  assumes "info_lists A"
    and "sc_queries cd = [q1, q2]" "sc_infocbfunc cd = Some f" "sc_info cd = []"
    and "q_qualifiers q1 = [\<lparr>i_key = PMIX_NODEID, i_val = x\<rparr>]" "q_keys q1 = Some []"
    and "q_qualifiers q2 = []" "q_keys q2 = Some keys"
    and "get_u32 A x UINT32_MAX = (PMIX_SUCCESS, nodeid)" "nodeid \<noteq> UINT32_MAX"
    and "pa_get (g_nodes (u_glob u)) (sint nodeid) = Some p" and "u_nodes u p = Some node"
    and "n_topology node = Some t" and "u_topologies u t = Some topo" and "tp_topo topo = Some h"
    and "PMIX_QUERY_ALLOCATION \<notin> set keys" and "topology_entries A (Some h) keys \<noteq> []"
  shows "query A cd u = Inr (answer (Query_answer f PMIX_SUCCESS (topology_entries A (Some h) keys) (sc_cbdata cd)) u)"
proof -
  let ?v = "\<lparr>qv_results = [], qv_node = Some p\<rparr>"
  have "one_query A u q1 \<lparr>qv_results = [], qv_node = None\<rparr> = Inr (Next ?v)"
    using nodeid_qualifier [OF assms(5,9,10,11)] assms(6) by (simp add: one_query_def)
  moreover have "one_query A u q2 ?v = Inr (Next (?v\<lparr>qv_results := topology_entries A (Some h) keys\<rparr>))"
    using info_lists.topology_keys [OF assms(1), of ?v p u node t topo h keys] assms(7,8,12-16)
    by (simp add: one_query_def find_node_def)
  ultimately have "flow_loop (one_query A u) (sc_queries cd) \<lparr>qv_results = [], qv_node = None\<rparr>
      = Inr (Next (?v\<lparr>qv_results := topology_entries A (Some h) keys\<rparr>))"
    using assms(2) by simp
  from info_lists.answer_list [OF assms(1) this assms(3,4)] assms(17) show ?thesis by simp
qed

definition sample_two_queries :: upcall_caddy where
  "sample_two_queries = (upcall_scon \<lparr>p_nspace = [], p_rank = - 1\<rparr>)
     \<lparr>sc_queries := [sample_query\<lparr>q_keys := Some []\<rparr>, sample_query\<lparr>q_qualifiers := []\<rparr>],
      sc_infocbfunc := Some 3\<rparr>"

theorem query_node_persists_witness:
  "query ref_query_api sample_two_queries sample_query_state
     = Inr (answer (Query_answer 3 PMIX_SUCCESS
         [E_string PMIX_HWLOC_XML_V2 (Some ''v2''), E_string PMIX_HWLOC_XML_V1 (Some ''v1'')] 0) sample_query_state)"
proof -
  have "query ref_query_api sample_two_queries sample_query_state = Inr (answer (Query_answer 3 PMIX_SUCCESS
      (topology_entries ref_query_api (Some 7) [PMIX_HWLOC_XML_V2, OtherKey ''x'', PMIX_HWLOC_XML_V1])
      (sc_cbdata sample_two_queries)) sample_query_state)"
    by (rule query_node_persists [OF ref_info_lists.info_lists_axioms _ _ _ _ _ _ _ sample_query_facts],
        simp_all add: sample_query_entries sample_two_queries_def sample_query_def upcall_scon_def
        dsched_shift_caddy.defs, simp_all)
  then show ?thesis unfolding sample_query_entries
    by (simp add: sample_two_queries_def upcall_scon_def dsched_shift_caddy.defs)
qed

text \<open>
  A query for the allocation never gets an answer: whatever the nodes and
  topologies are, the collected list is used after it was released.
\<close>

theorem allocation_query_faults:
  assumes "sc_queries cd = q # qs" and "q_qualifiers q = []"
    and "q_keys q = Some (ks @ PMIX_QUERY_ALLOCATION # ks')"
    and "\<forall>k\<in>set ks. k \<noteq> PMIX_HWLOC_XML_V1 \<and> k \<noteq> PMIX_HWLOC_XML_V2"
  shows "\<exists>e. query A cd u = Inl e"
proof -
  have no: "query_allocation A u v \<noteq> Inr r" for v r by (auto simp: query_allocation_def)
  have "flow_loop (query_key A u) (ks @ PMIX_QUERY_ALLOCATION # ks') v \<noteq> Inr r" for v r
    using assms(4) no by (induction ks) (auto simp: query_key_def)
  then have "one_query A u q v \<noteq> Inr r" for v r
    using assms(2,3) by (simp add: one_query_def find_node_def)
  then have "query A cd u \<noteq> Inr r" for r using assms(1) by (simp add: query_def)
  then show ?thesis by (cases "query A cd u") auto
qed

theorem allocation_query_faults_witness:
  "\<exists>e. query ref_query_api ((upcall_scon \<lparr>p_nspace = [], p_rank = - 1\<rparr>)
     \<lparr>sc_queries := [\<lparr>q_keys = Some [PMIX_QUERY_ALLOCATION], q_qualifiers = []\<rparr>], sc_infocbfunc := Some 3\<rparr>)
     sample_query_state = Inl e"
  by (rule allocation_query_faults [of _ "\<lparr>q_keys = Some [PMIX_QUERY_ALLOCATION], q_qualifiers = []\<rparr>" "[]" "[]" "[]"])
    simp_all

end
