(* ===== verification/Mca_Params.thy ===== *)
theory Mca_Params
  imports C_Strings Globals Install_Dirs
begin

text \<open>
  Parameters (\<open>runtime/dsched_mca_params.c\<close>): the registration of the daemon's
  variables, the defaults read from parameter files, and the parameters of the
  command line; the last two reach the program through the environment.
\<close>

subsection \<open>Data\<close>

type_synonym environ = "string \<Rightarrow> string option"

record file_value =
  fv_var :: string
  fv_value :: "string option"

text \<open>
  The library: the registration of a variable gives the value it has
  afterwards; \<open>parse_paramfile\<close> appends the entries of a file to a list;
  \<open>path_of\<close> is \<open>pmix_os_path\<close>, which stops at the first null component; opening
  an output stream gives its number.
\<close>

record params_api =
  reg_string :: "string \<Rightarrow> string option \<Rightarrow> string option"
  reg_int :: "string \<Rightarrow> int \<Rightarrow> int"
  reg_bool :: "string \<Rightarrow> bool \<Rightarrow> bool"
  output_open :: "nat \<Rightarrow> int"
  home_directory :: "string option"
  parse_paramfile :: "string \<Rightarrow> file_value list \<Rightarrow> pmix_status \<times> file_value list"
  path_of :: "string option list \<Rightarrow> string"
  params_split :: "string \<Rightarrow> char \<Rightarrow> string list"
  check_pmix_param :: "string \<Rightarrow> bool"

text \<open>\<open>setenv\<close>: it refuses a name that is empty or has an equals sign.\<close>

definition setenv :: "string \<Rightarrow> string \<Rightarrow> bool \<Rightarrow> environ \<Rightarrow> environ" where
  "setenv name val overwrite env =
     (if name = [] \<or> CHR ''='' \<in> set name then env
      else if env name \<noteq> None \<and> \<not> overwrite then env
      else env(name \<mapsto> val))"

subsection \<open>Registration\<close>

text \<open>
  The static variables, the globals, the number of streams opened so far and
  the levels that were set, in order.
\<close>

record params_state =
  ps_passed_thru :: bool
  ps_gen_verbose :: int
  ps_glob :: dsched_globals
  ps_opened :: nat
  ps_levels :: "(int \<times> int) list"

definition open_stream :: "params_api \<Rightarrow> params_state \<Rightarrow> int \<times> params_state" where
  "open_stream A s = (output_open A (ps_opened s), s\<lparr>ps_opened := Suc (ps_opened s)\<rparr>)"

definition set_verbosity :: "int \<Rightarrow> int \<Rightarrow> params_state \<Rightarrow> params_state" where
  "set_verbosity st level s = s\<lparr>ps_levels := ps_levels s @ [(st, level)]\<rparr>"

text \<open>The streams of the daemon's own verbosity; the second result is \<open>opened\<close>.\<close>

definition open_verbose :: "params_api \<Rightarrow> params_state \<Rightarrow> bool \<times> params_state" where
  "open_verbose A s =
     (let v = g_verbosity (ps_glob s)
      in if 0 < v then
           (let (o1, s) = open_stream A s;
                s = set_verbosity o1 v (s\<lparr>ps_glob := (ps_glob s)\<lparr>g_output := o1\<rparr>\<rparr>);
                (o2, s) = open_stream A s;
                s = set_verbosity o2 v (s\<lparr>ps_glob := (ps_glob s)\<lparr>g_pmix_output := o2\<rparr>\<rparr>)
            in (True, s))
         else (False, s))"

definition open_server_verbose :: "params_api \<Rightarrow> bool \<Rightarrow> params_state \<Rightarrow> params_state" where
  "open_server_verbose A opened s =
     (if 0 < ps_gen_verbose s \<and> g_verbosity (ps_glob s) < ps_gen_verbose s then
        (let s = (if opened then s
                  else let (o2, s) = open_stream A s
                       in s\<lparr>ps_glob := (ps_glob s)\<lparr>g_pmix_output := o2\<rparr>\<rparr>)
         in set_verbosity (g_pmix_output (ps_glob s)) (ps_gen_verbose s) s)
      else s)"

definition default_param_files :: "params_api \<Rightarrow> install_dirs \<Rightarrow> string res" where
  "default_param_files A D =
     res_bind (deref (home_directory A)) (\<lambda>home.
     res_bind (deref (D F_sysconfdir)) (\<lambda>sysconfdir.
       Inr (home @ ''/.dsched/mca-params.conf,'' @ sysconfdir @ ''/dsched-mca-params.conf'')))"

text \<open>The variables registered before and after the streams are opened.\<close>

definition register_files :: "params_api \<Rightarrow> string \<Rightarrow> dsched_globals \<Rightarrow> dsched_globals" where
  "register_files A files g =
     g\<lparr>g_param_files := reg_string A ''param_files'' (Some files),
       g_override_param_file := reg_string A ''override_param_file'' (g_override_param_file g),
       g_suppress_override_warning := reg_bool A ''suppress_override_warning'' (g_suppress_override_warning g),
       g_verbosity := reg_int A ''verbose'' (g_verbosity g)\<rparr>"

definition register_threads :: "params_api \<Rightarrow> dsched_globals \<Rightarrow> dsched_globals" where
  "register_threads A g =
     g\<lparr>g_progress_thread_cpus := reg_string A ''progress_thread_cpus'' (g_progress_thread_cpus g),
       g_bind_progress_thread_reqd := reg_bool A ''bind_progress_thread_reqd'' (g_bind_progress_thread_reqd g),
       g_keep_fqdn_hostnames := reg_bool A ''keep_fqdn_hostnames'' (g_keep_fqdn_hostnames g),
       g_strip_prefixes := reg_string A ''strip_prefix'' (g_strip_prefixes g)\<rparr>"

definition dsched_register_params ::
  "params_api \<Rightarrow> install_dirs \<Rightarrow> params_state \<Rightarrow> (int \<times> params_state) res" where
  "dsched_register_params A D s =
     (if ps_passed_thru s then Inr (DSCHED_SUCCESS, s)
      else
        let s = s\<lparr>ps_passed_thru := True\<rparr>;
            (clean, s) = open_stream A s;
            g = (ps_glob s)\<lparr>g_clean_output := clean, g_tmpdir := reg_string A ''tmpdir'' None\<rparr>
        in res_bind (default_param_files A D) (\<lambda>files.
             let (opened, s) = open_verbose A (s\<lparr>ps_glob := register_files A files g\<rparr>);
                 s = s\<lparr>ps_gen_verbose := reg_int A ''server_verbose'' (ps_gen_verbose s)\<rparr>;
                 s = open_server_verbose A opened s
             in Inr (DSCHED_SUCCESS, s\<lparr>ps_glob := register_threads A (ps_glob s)\<rparr>)))"

subsection \<open>Parameter files\<close>

definition okay :: "pmix_status \<Rightarrow> bool" where
  "okay rc \<longleftrightarrow> rc = PMIX_SUCCESS \<or> rc = PMIX_ERR_NOT_FOUND"

text \<open>The files of a list of paths, until one cannot be read.\<close>

fun parse_paths ::
  "params_api \<Rightarrow> string list \<Rightarrow> file_value list \<Rightarrow> pmix_status \<times> file_value list" where
  "parse_paths A [] params = (PMIX_SUCCESS, params)"
| "parse_paths A (p # ps) params =
     (let (rc, params) = parse_paramfile A p params
      in if okay rc then parse_paths A ps params else (rc, params))"

text \<open>The two lists, of the system and of the user.\<close>

definition read_defaults ::
  "params_api \<Rightarrow> install_dirs \<Rightarrow> dsched_globals \<Rightarrow> pmix_status \<times> file_value list \<times> file_value list" where
  "read_defaults A D g =
     (case g_param_files g of
        None \<Rightarrow>
          (let (rc, params) = parse_paramfile A (path_of A [D F_sysconfdir, Some ''dsched-mca-params.conf'']) []
           in if \<not> okay rc then (rc, params, [])
              else let (rc, params2) =
                         parse_paramfile A (path_of A [home_directory A, Some ''.dsched'', Some ''mca-params.conf'']) []
                   in (if okay rc then PMIX_SUCCESS else rc, params, params2))
      | Some files \<Rightarrow>
          (let (rc, params) = parse_paths A (params_split A files CHR '','') [] in (rc, params, [])))"

fun take_match :: "string \<Rightarrow> file_value list \<Rightarrow> (file_value \<times> file_value list) option" where
  "take_match var [] = None"
| "take_match var (fv2 # rest) =
     (if var = fv_var fv2 then Some (fv2, rest)
      else map_option (\<lambda>(m, others). (m, fv2 # others)) (take_match var rest))"

fun merge_params :: "file_value list \<Rightarrow> file_value list \<Rightarrow> file_value list" where
  "merge_params [] params2 = params2"
| "merge_params (fv # params) params2 =
     (case take_match (fv_var fv) params2 of
        Some (fv2, rest) \<Rightarrow> fv2 # merge_params params rest
      | None \<Rightarrow> fv # merge_params params params2)"

text \<open>
  The override file: matching entries of the final list take its value, and its
  variables are set in the environment whatever they were. Warnings are
  collected unless they are suppressed.
\<close>

definition param_env_name :: "params_api \<Rightarrow> string \<Rightarrow> string" where
  "param_env_name A var = (if check_pmix_param A var then ''PMIX_MCA_'' @ var else ''DSCHED_MCA_'' @ var)"

fun override_entry ::
  "dsched_globals \<Rightarrow> file_value list \<Rightarrow> file_value \<Rightarrow> string list \<Rightarrow> (file_value \<times> string list) res" where
  "override_entry g [] fv ws = Inr (fv, ws)"
| "override_entry g (fv2 # params) fv ws =
     (if fv_var fv = fv_var fv2 then
        res_bind (deref (fv_value fv2)) (\<lambda>v.
          Inr (fv\<lparr>fv_var := fv_var fv2, fv_value := Some v\<rparr>,
               if g_suppress_override_warning g then ws else ws @ [fv_var fv]))
      else override_entry g params fv ws)"

fun override_final ::
  "dsched_globals \<Rightarrow> file_value list \<Rightarrow> file_value list \<Rightarrow> string list
     \<Rightarrow> (file_value list \<times> string list) res" where
  "override_final g params [] ws = Inr ([], ws)"
| "override_final g params (fv # pfinal) ws =
     res_bind (override_entry g params fv ws) (\<lambda>(fv, ws).
     res_bind (override_final g params pfinal ws) (\<lambda>(pfinal, ws). Inr (fv # pfinal, ws)))"

definition override_env ::
  "params_api \<Rightarrow> dsched_globals \<Rightarrow> file_value \<Rightarrow> environ \<times> string list \<Rightarrow> (environ \<times> string list) res" where
  "override_env A g fv st =
     (let (env, ws) = st; tmp = param_env_name A (fv_var fv);
          ws = (if \<not> g_suppress_override_warning g \<and> env tmp \<noteq> None then ws @ [tmp] else ws)
      in res_bind (deref (fv_value fv)) (\<lambda>v. Inr (setenv tmp v True env, ws)))"

definition default_env :: "params_api \<Rightarrow> file_value \<Rightarrow> environ \<Rightarrow> environ res" where
  "default_env A fv env =
     res_bind (deref (fv_value fv)) (\<lambda>v. Inr (setenv (param_env_name A (fv_var fv)) v False env))"

text \<open>The result: the status, the environment and the warnings.\<close>

definition dsched_preload_default_mca_params ::
  "params_api \<Rightarrow> install_dirs \<Rightarrow> dsched_globals \<Rightarrow> environ \<Rightarrow> (pmix_status \<times> environ \<times> string list) res" where
  "dsched_preload_default_mca_params A D g env =
     (let (rc, params, params2) = read_defaults A D g
      in if rc \<noteq> PMIX_SUCCESS then Inr (rc, env, [])
         else
           let pfinal = merge_params params params2
           in case g_override_param_file g of
                None \<Rightarrow> res_bind (res_fold (default_env A) pfinal env) (\<lambda>env. Inr (PMIX_SUCCESS, env, []))
              | Some file \<Rightarrow>
                  (let (rc, params) = parse_paramfile A file []
                   in if \<not> okay rc then Inr (rc, env, [])
                      else
                        res_bind (override_final g params pfinal []) (\<lambda>(pfinal, ws).
                        res_bind (res_fold (override_env A g) params (env, ws)) (\<lambda>(env, ws).
                        res_bind (res_fold (default_env A) pfinal env) (\<lambda>env.
                          Inr (PMIX_SUCCESS, env, ws))))))"

subsection \<open>The command line\<close>

definition cli_param :: "string \<Rightarrow> string \<Rightarrow> environ \<Rightarrow> environ res" where
  "cli_param prefix arg env =
     (if CHR ''='' \<in> set arg then
        (let name = takeWhile (\<lambda>c. c \<noteq> CHR ''='') arg
         in Inr (setenv (prefix @ name) (drop (Suc (length name)) arg) True env))
      else Inl NullDeref)"

text \<open>\<open>get_param\<close> gives the values of an option, null when it was not given.\<close>

definition cli_option ::
  "(string \<Rightarrow> string list option) \<Rightarrow> string \<Rightarrow> string \<Rightarrow> environ \<Rightarrow> environ res" where
  "cli_option get_param name prefix env =
     (case get_param name of None \<Rightarrow> Inr env | Some vs \<Rightarrow> res_fold (cli_param prefix) vs env)"

definition dsched_process_cli_mca_params ::
  "(string \<Rightarrow> string list option) \<Rightarrow> environ \<Rightarrow> (int \<times> environ) res" where
  "dsched_process_cli_mca_params get_param env =
     res_bind (cli_option get_param ''pmixmca'' ''PMIX_MCA_'' env) (\<lambda>env.
     res_bind (cli_option get_param ''mca'' ''DSCHED_MCA_'' env) (\<lambda>env.
     res_bind (cli_option get_param ''dmca'' ''DSCHED_MCA_'' env) (\<lambda>env.
       Inr (DSCHED_SUCCESS, env))))"

subsection \<open>Looking up values\<close>

definition first_entry :: "string \<Rightarrow> file_value list \<Rightarrow> file_value option" where
  "first_entry v fvs = List.find (\<lambda>fv. fv_var fv = v) fvs"

definition first_value :: "string \<Rightarrow> file_value list \<Rightarrow> string option" where
  "first_value v fvs = Option.bind (first_entry v fvs) fv_value"

definition last_value :: "string \<Rightarrow> file_value list \<Rightarrow> string option" where
  "last_value v fvs = first_value v (rev fvs)"

fun first_some :: "'a option list \<Rightarrow> 'a option" where
  "first_some [] = None"
| "first_some (None # xs) = first_some xs"
| "first_some (Some x # xs) = Some x"

lemma first_entry_simps [simp]:
  "first_entry v [] = None"
  "first_entry v (fv # fvs) = (if fv_var fv = v then Some fv else first_entry v fvs)"
  by (simp_all add: first_entry_def)

lemma first_entry_append:
  "first_entry v (xs @ ys) = (case first_entry v xs of None \<Rightarrow> first_entry v ys | Some x \<Rightarrow> Some x)"
  unfolding first_entry_def by (rule find_append)

lemma take_match_first:
  "take_match var fvs = Some (m, rest) \<Longrightarrow> first_entry var fvs = Some m
     \<and> (v \<noteq> var \<longrightarrow> first_entry v rest = first_entry v fvs)"
  by (induction fvs arbitrary: m rest) (auto split: if_splits)

lemma take_match_None: "take_match var fvs = None \<Longrightarrow> first_entry var fvs = None"
  by (induction fvs) (auto split: if_splits)

lemma merge_first_entry:
  "first_entry v (merge_params params params2)
     = (case first_entry v params2 of None \<Rightarrow> first_entry v params | Some fv \<Rightarrow> Some fv)"
proof (induction params arbitrary: params2)
  case (Cons fv params)
  show ?case
  proof (cases "take_match (fv_var fv) params2")
    case None
    with Cons take_match_None [OF None] show ?thesis by (auto split: option.splits)
  next
    case (Some mr)
    obtain m rest where mr: "mr = (m, rest)" by (cases mr)
    have "fv_var m = fv_var fv" using take_match_first [OF Some [unfolded mr]]
      by (auto simp: first_entry_def find_Some_iff)
    with Cons.IH [of rest] take_match_first [OF Some [unfolded mr], of v] Some mr show ?thesis
      by (auto split: option.splits)
  qed
qed (simp split: option.split)

lemma param_env_name_inj: "param_env_name A v = param_env_name A w \<longleftrightarrow> v = w"
  by (auto simp: param_env_name_def)

lemma setenv_param:
  assumes "CHR ''='' \<notin> set v"
  shows "setenv (param_env_name A w) val ow env (param_env_name A v)
     = (if v = w \<and> (ow \<or> env (param_env_name A v) = None) then Some val else env (param_env_name A v))"
proof -
  have "CHR ''='' \<notin> set (param_env_name A v)" "param_env_name A v \<noteq> []"
    using assms by (simp_all add: param_env_name_def)
  then show ?thesis by (auto simp: setenv_def param_env_name_inj)
qed

lemma default_env_Inr:
  "default_env A fv env = Inr env' \<longleftrightarrow>
     (\<exists>val. fv_value fv = Some val \<and> env' = setenv (param_env_name A (fv_var fv)) val False env)"
  by (auto simp: default_env_def)

lemma override_env_Inr:
  "override_env A g fv (env, ws) = Inr (env', ws') \<Longrightarrow>
     \<exists>val. fv_value fv = Some val \<and> env' = setenv (param_env_name A (fv_var fv)) val True env"
  by (auto simp: override_env_def Let_def)

lemma default_env_fold:
  assumes "res_fold (default_env A) fvs env = Inr env'" and "CHR ''='' \<notin> set v"
  shows "env' (param_env_name A v)
     = (case env (param_env_name A v) of None \<Rightarrow> first_value v fvs | Some x \<Rightarrow> Some x)"
  using assms
proof (induction fvs arbitrary: env)
  case Nil
  then show ?case by (simp add: first_value_def split: option.split)
next
  case (Cons fv fvs)
  then obtain val where val: "fv_value fv = Some val"
    "res_fold (default_env A) fvs (setenv (param_env_name A (fv_var fv)) val False env) = Inr env'"
    by (auto simp: default_env_Inr)
  from Cons.IH [OF val(2) Cons.prems(2)] val(1) show ?case
    by (auto simp: setenv_param [OF Cons.prems(2)] first_value_def split: option.splits)
qed

lemma first_entry_in: "first_entry v fvs = Some fv \<Longrightarrow> fv \<in> set fvs \<and> fv_var fv = v"
  by (induction fvs) (auto split: if_splits)

lemma override_env_values:
  "res_fold (override_env A g) fvs (env, ws) = Inr r \<Longrightarrow> fv \<in> set fvs \<Longrightarrow> fv_value fv \<noteq> None"
proof (induction fvs arbitrary: env ws)
  case (Cons f fvs)
  then obtain env1 ws1 where "override_env A g f (env, ws) = Inr (env1, ws1)"
    "res_fold (override_env A g) fvs (env1, ws1) = Inr r" by auto
  with Cons override_env_Inr show ?case by fastforce
qed simp

lemma override_env_fold:
  assumes "res_fold (override_env A g) fvs (env, ws) = Inr (env', ws')" and "CHR ''='' \<notin> set v"
  shows "env' (param_env_name A v)
     = (case last_value v fvs of None \<Rightarrow> env (param_env_name A v) | Some x \<Rightarrow> Some x)"
  using assms
proof (induction fvs arbitrary: env ws)
  case Nil
  then show ?case by (simp add: last_value_def first_value_def)
next
  case (Cons fv fvs)
  then obtain val ws1 where val: "fv_value fv = Some val"
    "res_fold (override_env A g) fvs (setenv (param_env_name A (fv_var fv)) val True env, ws1) = Inr (env', ws')"
    by (auto dest: override_env_Inr)
  have "first_entry v (rev fvs) = Some x \<Longrightarrow> fv_value x \<noteq> None" for x
    using override_env_values [OF val(2), of x] first_entry_in [of v "rev fvs" x] by simp
  with Cons.IH [OF val(2) Cons.prems(2)] val(1) show ?case
    by (auto simp: setenv_param [OF Cons.prems(2)] last_value_def first_value_def first_entry_append split: option.splits)
qed

lemma override_entry_other:
  "override_entry g params fv ws = Inr (fv', ws') \<Longrightarrow> fv_var fv' = fv_var fv
     \<and> (first_entry (fv_var fv) params = None \<longrightarrow> fv' = fv)"
  by (induction params) (auto split: if_splits)

lemma override_final_other:
  "override_final g params fvs ws = Inr (fvs', ws') \<Longrightarrow> first_entry v params = None \<Longrightarrow>
     first_entry v fvs' = first_entry v fvs"
proof (induction fvs arbitrary: ws fvs' ws')
  case (Cons fv fvs)
  then obtain fv1 ws1 fvs1 where e: "override_entry g params fv ws = Inr (fv1, ws1)"
    "override_final g params fvs ws1 = Inr (fvs1, ws')" "fvs' = fv1 # fvs1" by auto
  show ?case using Cons.IH [OF e(2) Cons.prems(2)] override_entry_other [OF e(1)] e(3) Cons.prems(2) by auto
qed simp

lemma last_value_None:
  assumes "\<And>fv. fv \<in> set fvs \<Longrightarrow> fv_value fv \<noteq> None"
  shows "last_value v fvs = None \<longleftrightarrow> first_entry v fvs = None"
proof -
  have "first_entry v (rev fvs) = None \<longleftrightarrow> first_entry v fvs = None"
    by (auto simp: first_entry_def find_None_iff)
  moreover have "last_value v fvs = None \<longleftrightarrow> first_entry v (rev fvs) = None"
  proof (cases "first_entry v (rev fvs)")
    case (Some fv)
    then have "fv_value fv \<noteq> None" using assms first_entry_in [of v "rev fvs" fv] by simp
    with Some show ?thesis by (auto simp: last_value_def first_value_def)
  qed (simp add: last_value_def first_value_def)
  ultimately show ?thesis by simp
qed

lemma merge_first_value:
  "first_value v (merge_params params params2)
     = (case first_entry v params2 of None \<Rightarrow> first_value v params | Some fv \<Rightarrow> fv_value fv)"
  by (simp add: first_value_def merge_first_entry split: option.split)

text \<open>What the override file contributes.\<close>

definition overrides :: "params_api \<Rightarrow> dsched_globals \<Rightarrow> file_value list" where
  "overrides A g = (case g_override_param_file g of None \<Rightarrow> [] | Some f \<Rightarrow> snd (parse_paramfile A f []))"

lemma preload_cases:
  assumes "dsched_preload_default_mca_params A D g env = Inr (PMIX_SUCCESS, env', ws)"
  obtains params params2 pfinal env1 ws0 ws1 where
    "read_defaults A D g = (PMIX_SUCCESS, params, params2)"
    "override_final g (overrides A g) (merge_params params params2) [] = Inr (pfinal, ws0)"
    "res_fold (override_env A g) (overrides A g) (env, ws0) = Inr (env1, ws1)"
    "res_fold (default_env A) pfinal env1 = Inr env'"
proof -
  have none: "override_final g [] fvs ws = Inr (fvs, ws)" for fvs ws
    by (induction fvs) simp_all
  obtain rc params params2 where rd: "read_defaults A D g = (rc, params, params2)"
    by (cases "read_defaults A D g") auto
  have rc: "rc = PMIX_SUCCESS"
    using assms rd by (auto simp: dsched_preload_default_mca_params_def split: if_splits)
  show ?thesis
  proof (cases "g_override_param_file g")
    case None
    then show ?thesis
      using assms rd rc none
      by (intro that) (auto simp: dsched_preload_default_mca_params_def overrides_def)
  next
    case (Some path)
    obtain rc' ovr where parse: "parse_paramfile A path [] = (rc', ovr)"
      by (cases "parse_paramfile A path []")
    have "okay rc'"
      using assms rd rc Some parse
      by (auto simp: dsched_preload_default_mca_params_def okay_def split: if_splits)
    then obtain pfinal ws0 env1 ws1 where "override_final g ovr (merge_params params params2) [] = Inr (pfinal, ws0)"
      "res_fold (override_env A g) ovr (env, ws0) = Inr (env1, ws1)" "res_fold (default_env A) pfinal env1 = Inr env'"
      using assms rd rc Some parse by (auto simp: dsched_preload_default_mca_params_def)
    then show ?thesis using rd rc Some parse by (intro that) (simp_all add: overrides_def)
  qed
qed

lemma preload_value:
  assumes "dsched_preload_default_mca_params A D g env = Inr (PMIX_SUCCESS, env', ws)"
    and "read_defaults A D g = (PMIX_SUCCESS, params, params2)" and "CHR ''='' \<notin> set v"
  shows "env' (param_env_name A v) = first_some
     [last_value v (overrides A g), env (param_env_name A v), first_value v params2, first_value v params]"
proof -
  obtain pfinal env1 ws0 ws1 where
    fin: "override_final g (overrides A g) (merge_params params params2) [] = Inr (pfinal, ws0)"
    and ovr: "res_fold (override_env A g) (overrides A g) (env, ws0) = Inr (env1, ws1)"
    and dflt: "res_fold (default_env A) pfinal env1 = Inr env'"
    using preload_cases [OF assms(1)] assms(2) by (metis Pair_inject)
  note env1 = override_env_fold [OF ovr assms(3)]
  note env' = default_env_fold [OF dflt assms(3)]
  have vals: "fv \<in> set pfinal \<Longrightarrow> fv_value fv \<noteq> None" for fv
    using dflt by (induction pfinal arbitrary: env1) (auto simp: default_env_Inr)
  show ?thesis
  proof (cases "last_value v (overrides A g)")
    case None
    then have no: "first_entry v (overrides A g) = None"
      using last_value_None [of "overrides A g" v] override_env_values [OF ovr] by blast
    note same = override_final_other [OF fin no]
    have "first_value v pfinal = first_some [first_value v params2, first_value v params]"
    proof (cases "first_entry v params2")
      case (Some fv)
      then have "first_entry v pfinal = Some fv" by (simp add: same merge_first_entry)
      then have "fv_value fv \<noteq> None" using first_entry_in vals by blast
      with Some \<open>first_entry v pfinal = Some fv\<close> show ?thesis by (auto simp: first_value_def)
    qed (cases "first_value v params"; simp add: first_value_def same merge_first_entry)
    with None env1 env' show ?thesis by (cases "env (param_env_name A v)") simp_all
  qed (use env1 env' in simp)
qed

text \<open>The last value the command line has for a name.\<close>

definition cli_split :: "string \<Rightarrow> string \<times> string" where
  "cli_split arg = (let name = takeWhile (\<lambda>c. c \<noteq> CHR ''='') arg in (name, drop (Suc (length name)) arg))"

definition cli_last :: "string \<Rightarrow> string list \<Rightarrow> string option" where
  "cli_last n args = map_option snd (List.find (\<lambda>p. fst p = n) (rev (map cli_split args)))"

definition option_args :: "(string \<Rightarrow> string list option) \<Rightarrow> string \<Rightarrow> string list" where
  "option_args get_param name = (case get_param name of None \<Rightarrow> [] | Some vs \<Rightarrow> vs)"

lemma cli_last_Cons: "cli_last n (a # args)
     = (case cli_last n args of None \<Rightarrow> if fst (cli_split a) = n then Some (snd (cli_split a)) else None | Some x \<Rightarrow> Some x)"
  by (simp add: cli_last_def find_append split: option.split)

lemma cli_last_append: "cli_last n (xs @ ys) = (case cli_last n ys of None \<Rightarrow> cli_last n xs | Some x \<Rightarrow> Some x)"
  by (simp add: cli_last_def find_append split: option.split)

lemma cli_param_fold:
  assumes "res_fold (cli_param prefix) args env = Inr env'" and "CHR ''='' \<notin> set n" and "CHR ''='' \<notin> set prefix"
    and "prefix \<noteq> []"
  shows "env' (prefix @ n) = (case cli_last n args of None \<Rightarrow> env (prefix @ n) | Some x \<Rightarrow> Some x)"
    and "\<forall>m. x \<noteq> prefix @ m \<Longrightarrow> env' x = env x"
proof -
  have "(prefix @ n = x \<longrightarrow> env' x = (case cli_last n args of None \<Rightarrow> env x | Some y \<Rightarrow> Some y))
     \<and> ((\<forall>m. x \<noteq> prefix @ m) \<longrightarrow> env' x = env x)" for x
    using assms(1)
  proof (induction args arbitrary: env)
    case Nil
    then show ?case by (simp add: cli_last_def)
  next
    case (Cons a args)
    then obtain env1 where env1: "cli_param prefix a env = Inr env1" "res_fold (cli_param prefix) args env1 = Inr env'"
      by auto
    have "CHR ''='' \<notin> set (fst (cli_split a))" by (auto simp: cli_split_def Let_def dest: set_takeWhileD)
    then have "env1 = env(prefix @ fst (cli_split a) \<mapsto> snd (cli_split a))"
      using env1(1) assms(3,4) by (auto simp: cli_param_def cli_split_def setenv_def Let_def split: if_splits)
    with Cons.IH [OF env1(2)] show ?case by (auto simp: cli_last_Cons split: option.splits)
  qed
  then show "env' (prefix @ n) = (case cli_last n args of None \<Rightarrow> env (prefix @ n) | Some x \<Rightarrow> Some x)"
    and "\<forall>m. x \<noteq> prefix @ m \<Longrightarrow> env' x = env x" by blast+
qed

lemma cli_option_args:
  "cli_option get_param name prefix env = res_fold (cli_param prefix) (option_args get_param name) env"
  by (simp add: cli_option_def option_args_def split: option.split)

lemma cli_value:
  assumes "dsched_process_cli_mca_params get_param env = Inr (rc, env')" and "CHR ''='' \<notin> set n"
  shows "env' (''DSCHED_MCA_'' @ n)
       = (case cli_last n (option_args get_param ''mca'' @ option_args get_param ''dmca'') of
            None \<Rightarrow> env (''DSCHED_MCA_'' @ n) | Some x \<Rightarrow> Some x)"
    and "env' (''PMIX_MCA_'' @ n)
       = (case cli_last n (option_args get_param ''pmixmca'') of
            None \<Rightarrow> env (''PMIX_MCA_'' @ n) | Some x \<Rightarrow> Some x)"
proof -
  obtain env1 env2 where e:
    "res_fold (cli_param ''PMIX_MCA_'') (option_args get_param ''pmixmca'') env = Inr env1"
    "res_fold (cli_param ''DSCHED_MCA_'') (option_args get_param ''mca'') env1 = Inr env2"
    "res_fold (cli_param ''DSCHED_MCA_'') (option_args get_param ''dmca'') env2 = Inr env'"
    using assms(1) by (auto simp: dsched_process_cli_mca_params_def cli_option_args)
  note f = cli_param_fold [OF _ assms(2)]
  show "env' (''DSCHED_MCA_'' @ n)
       = (case cli_last n (option_args get_param ''mca'' @ option_args get_param ''dmca'') of
            None \<Rightarrow> env (''DSCHED_MCA_'' @ n) | Some x \<Rightarrow> Some x)"
    using f(1) [OF e(3)] f(1) [OF e(2)] f(2) [OF e(1), of "''DSCHED_MCA_'' @ n"]
    by (simp add: cli_last_append split: option.split)
  show "env' (''PMIX_MCA_'' @ n)
       = (case cli_last n (option_args get_param ''pmixmca'') of
            None \<Rightarrow> env (''PMIX_MCA_'' @ n) | Some x \<Rightarrow> Some x)"
    using f(1) [OF e(1)] f(2) [OF e(3), of "''PMIX_MCA_'' @ n"] f(2) [OF e(2), of "''PMIX_MCA_'' @ n"]
    by simp
qed

subsection \<open>Properties\<close>


definition sample_params_api :: params_api where
  "sample_params_api =
     \<lparr>reg_string = (\<lambda>n v. v), reg_int = (\<lambda>n v. v), reg_bool = (\<lambda>n v. v), output_open = int,
      home_directory = Some ''/home/u'',
      parse_paramfile = (\<lambda>f fvs.
        if f = ''/home/u/.dsched/mca-params.conf'' then
          (PMIX_SUCCESS, fvs @ [\<lparr>fv_var = ''a'', fv_value = Some ''user''\<rparr>])
        else if f = ''/etc/dsched-mca-params.conf'' then
          (PMIX_SUCCESS, fvs @ [\<lparr>fv_var = ''a'', fv_value = Some ''system''\<rparr>,
                                \<lparr>fv_var = ''b'', fv_value = Some ''system''\<rparr>])
        else (PMIX_ERR_NOT_FOUND, fvs)),
      path_of = (\<lambda>cs. concat (map (\<lambda>c. case c of None \<Rightarrow> [] | Some s \<Rightarrow>
        if s = ''/home/u'' \<or> s = ''/etc'' then s else CHR ''/'' # s) cs)),
      params_split = (\<lambda>s c. [s]), check_pmix_param = (\<lambda>v. False)\<rparr>"

definition sample_cli :: "string \<Rightarrow> string list option" where
  "sample_cli name = (if name = ''mca'' then Some [''b=cli''] else None)"


text \<open>
  A parameter of the command line without an equals sign, in any of the
  three options, makes the daemon follow a null pointer.
\<close>

theorem cli_without_value_faults:
  assumes "name \<in> {''pmixmca'', ''mca'', ''dmca''}" and "get_param name = Some vs" and "arg \<in> set vs"
    and "CHR ''='' \<notin> set arg"
  shows "dsched_process_cli_mca_params get_param env = Inl NullDeref"
proof -
  have only: "res_fold (cli_param p) args e \<noteq> Inl f" if "f \<noteq> NullDeref" for p args e f
    using that by (induction args arbitrary: e) (auto simp: cli_param_def res_bind_def Let_def split: sum.splits if_splits)
  have bad: "res_fold (cli_param p) vs e \<noteq> Inr e'" for p e e'
    using assms(3,4) by (induction vs arbitrary: e) (auto simp: cli_param_def)
  have arg: "option_args get_param name = vs" using assms(2) by (simp add: option_args_def)
  have "dsched_process_cli_mca_params get_param env \<noteq> Inr r" for r
    using assms(1) arg bad by (auto simp: dsched_process_cli_mca_params_def cli_option_args)
  moreover have "dsched_process_cli_mca_params get_param env \<noteq> Inl f" if "f \<noteq> NullDeref" for f
    using only [OF that]
    by (auto simp: dsched_process_cli_mca_params_def cli_option_args res_bind_def split: sum.splits)
  ultimately show ?thesis by (cases "dsched_process_cli_mca_params get_param env") auto
qed

theorem cli_without_value_faults_witness:
  "dsched_process_cli_mca_params (\<lambda>n. if n = ''mca'' then Some [''plm''] else None) (\<lambda>x. None) = Inl NullDeref"
  by (rule cli_without_value_faults [of "''mca''" _ "[''plm'']" "''plm''"]) simp_all

definition level_of :: "int \<Rightarrow> (int \<times> int) list \<Rightarrow> int option" where
  "level_of st ls = map_option snd (List.find (\<lambda>p. fst p = st) (rev ls))"

text \<open>The level of the server's stream for the two verbosities.\<close>

definition stream_level :: "int \<Rightarrow> params_state \<Rightarrow> bool" where
  "stream_level before s \<longleftrightarrow>
     (let v = g_verbosity (ps_glob s); sv = ps_gen_verbose s
      in if 0 < v \<or> 0 < sv then level_of (g_pmix_output (ps_glob s)) (ps_levels s) = Some (max v sv)
         else ps_levels s = [] \<and> g_pmix_output (ps_glob s) = before)"

lemma stream_level_threads:
  "stream_level before (s\<lparr>ps_glob := register_threads A (ps_glob s)\<rparr>) = stream_level before s"
  by (simp add: stream_level_def register_threads_def)

lemma open_keeps_passed:
  "open_verbose A s = (opened, s1) \<Longrightarrow>
     ps_passed_thru (open_server_verbose A opened (s1\<lparr>ps_gen_verbose := sv\<rparr>)) = ps_passed_thru s"
  by (auto simp: open_verbose_def open_server_verbose_def open_stream_def set_verbosity_def Let_def split: if_splits)

lemma streams_opened:
  assumes "open_verbose A s = (opened, s1)" and "ps_levels s = []"
  shows "stream_level (g_pmix_output (ps_glob s)) (open_server_verbose A opened (s1\<lparr>ps_gen_verbose := sv\<rparr>))"
proof -
  consider "0 < g_verbosity (ps_glob s)" "g_verbosity (ps_glob s) < sv" | "0 < g_verbosity (ps_glob s)" "\<not> g_verbosity (ps_glob s) < sv"
    | "\<not> 0 < g_verbosity (ps_glob s)" "0 < sv" | "\<not> 0 < g_verbosity (ps_glob s)" "\<not> 0 < sv" by blast
  then show ?thesis
    using assms
    by cases (auto simp: open_verbose_def open_server_verbose_def open_stream_def set_verbosity_def
        stream_level_def level_of_def max_def Let_def)
qed

text \<open>
  Registering the parameters opens the stream for the server's messages
  exactly when the daemon's or the server's verbosity is positive, and its level
  is then the larger of the two. A second registration changes nothing.
\<close>

theorem server_verbosity_is_larger:
  assumes "dsched_register_params A D s = Inr (rc, s')" and "\<not> ps_passed_thru s" and "ps_levels s = []"
  shows "(let v = g_verbosity (ps_glob s'); sv = ps_gen_verbose s'
          in if 0 < v \<or> 0 < sv
             then level_of (g_pmix_output (ps_glob s')) (ps_levels s') = Some (max v sv)
             else ps_levels s' = [] \<and> g_pmix_output (ps_glob s') = g_pmix_output (ps_glob s))
     \<and> dsched_register_params A D s' = Inr (DSCHED_SUCCESS, s')"
proof -
  obtain files where "default_param_files A D = Inr files"
    using assms(1,2) by (auto simp: dsched_register_params_def open_stream_def Let_def)
  define t where "t = s\<lparr>ps_passed_thru := True, ps_opened := Suc (ps_opened s),
    ps_glob := register_files A files ((ps_glob s)\<lparr>g_clean_output := output_open A (ps_opened s),
      g_tmpdir := reg_string A ''tmpdir'' None\<rparr>)\<rparr>"
  obtain opened s1 where o: "open_verbose A t = (opened, s1)" by (cases "open_verbose A t")
  let ?s2 = "open_server_verbose A opened (s1\<lparr>ps_gen_verbose := reg_int A ''server_verbose'' (ps_gen_verbose s1)\<rparr>)"
  have s': "s' = ?s2\<lparr>ps_glob := register_threads A (ps_glob ?s2)\<rparr>"
    using assms(1,2) \<open>default_param_files A D = Inr files\<close> o
    by (simp add: dsched_register_params_def open_stream_def t_def Let_def)
  have t: "ps_levels t = []" "g_pmix_output (ps_glob t) = g_pmix_output (ps_glob s)" "ps_passed_thru t"
    using assms(3) by (simp_all add: t_def register_files_def)
  have "stream_level (g_pmix_output (ps_glob s)) s'"
    using streams_opened [OF o t(1)] t(2) by (simp only: s' stream_level_threads)
  moreover have "ps_passed_thru s'"
    using t(3) open_keeps_passed [OF o] by (simp add: s')
  ultimately show ?thesis by (simp add: stream_level_def dsched_register_params_def)
qed

theorem server_verbosity_is_larger_witness:
  "\<exists>s'. dsched_register_params (sample_params_api\<lparr>reg_int := \<lambda>n v. if n = ''verbose'' then 2 else 5\<rparr>) (\<lambda>f. Some ''/etc'')
       \<lparr>ps_passed_thru = False, ps_gen_verbose = - 1, ps_glob = sample_globals, ps_opened = 0, ps_levels = []\<rparr>
       = Inr (DSCHED_SUCCESS, s')
     \<and> level_of (g_pmix_output (ps_glob s')) (ps_levels s') = Some 5"
proof -
  let ?A = "sample_params_api\<lparr>reg_int := \<lambda>n v. if n = ''verbose'' then 2 else 5\<rparr>"
  let ?s = "\<lparr>ps_passed_thru = False, ps_gen_verbose = - 1, ps_glob = sample_globals, ps_opened = 0, ps_levels = []\<rparr>"
  have "\<exists>s'. dsched_register_params ?A (\<lambda>f. Some ''/etc'') ?s = Inr (DSCHED_SUCCESS, s')
      \<and> g_verbosity (ps_glob s') = 2 \<and> ps_gen_verbose s' = 5"
    by (simp add: dsched_register_params_def open_stream_def open_verbose_def open_server_verbose_def set_verbosity_def
        default_param_files_def sample_params_api_def register_files_def register_threads_def Let_def)
  then obtain s' where s': "dsched_register_params ?A (\<lambda>f. Some ''/etc'') ?s = Inr (DSCHED_SUCCESS, s')"
    "g_verbosity (ps_glob s') = 2" "ps_gen_verbose s' = 5" by blast
  from server_verbosity_is_larger [OF s'(1)] s' show ?thesis by (intro exI [of _ s']) simp
qed

end
