(* ===== verification/Session_Dir.thy ===== *)
theory Session_Dir
  imports Globals
begin

text \<open>
  The session directory (\<open>util/dsched_session_dir.c\<close>): it is created once,
  unless its location is prohibited, and removed at the end if it was created
  here.
\<close>

datatype dir_op = Dir_create string | Dir_destroy string | Dir_rmdir string

record session_dir =
  sd_tmpdir_created :: bool
  sd_setup_base_complete :: bool
  sd_glob :: dsched_globals
  sd_ops :: "dir_op list"

text \<open>\<open>dirpath_create\<close> may depend on what was done before.\<close>

record dir_api =
  tmp_directory :: string
  dirpath_create :: "dir_op list \<Rightarrow> string \<Rightarrow> pmix_status"
  dirs_split :: "string \<Rightarrow> char \<Rightarrow> string list"

text \<open>\<open>0 == strncmp (s, p, strlen (p))\<close>\<close>

definition has_prefix :: "string \<Rightarrow> string \<Rightarrow> bool" where
  "has_prefix s p \<longleftrightarrow> take (length p) s = p"

definition dsched_session_dir_init :: "dir_api \<Rightarrow> session_dir \<Rightarrow> pmix_status \<times> session_dir" where
  "dsched_session_dir_init A s =
     (if sd_setup_base_complete s then (PMIX_SUCCESS, s)
      else
        let tmpdir = (case g_tmpdir (sd_glob s) of None \<Rightarrow> tmp_directory A | Some d \<Rightarrow> d);
            s = s\<lparr>sd_setup_base_complete := True, sd_glob := (sd_glob s)\<lparr>g_tmpdir := Some tmpdir\<rparr>\<rparr>
        in if (case g_prohibited_session_dirs (sd_glob s) of
                 None \<Rightarrow> False
               | Some ps \<Rightarrow> list_ex (has_prefix tmpdir) (dirs_split A ps CHR '',''))
           then (PMIX_ERR_FATAL, s)
           else
             let rc = dirpath_create A (sd_ops s) tmpdir;
                 s = s\<lparr>sd_ops := sd_ops s @ [Dir_create tmpdir]\<rparr>
             in if rc \<noteq> PMIX_SUCCESS \<and> rc \<noteq> PMIX_ERR_EXISTS then (rc, s)
                else (PMIX_SUCCESS,
                      if rc \<noteq> PMIX_ERR_EXISTS then s\<lparr>sd_tmpdir_created := True\<rparr> else s))"

definition dsched_session_dir_finalize :: "session_dir \<Rightarrow> session_dir" where
  "dsched_session_dir_finalize s =
     (case g_tmpdir (sd_glob s) of
        None \<Rightarrow> s
      | Some d \<Rightarrow>
          if sd_tmpdir_created s
          then s\<lparr>sd_ops := sd_ops s @ [Dir_destroy d, Dir_rmdir d],
                 sd_glob := (sd_glob s)\<lparr>g_tmpdir := None\<rparr>\<rparr>
          else s)"

definition session_dir_start :: "dsched_globals \<Rightarrow> session_dir" where
  "session_dir_start g =
     \<lparr>sd_tmpdir_created = False, sd_setup_base_complete = False, sd_glob = g, sd_ops = []\<rparr>"

subsection \<open>Properties\<close>

text \<open>The directory that initialisation uses, and whether it is prohibited.\<close>

definition wanted_dir :: "dir_api \<Rightarrow> dsched_globals \<Rightarrow> string" where
  "wanted_dir A g = (case g_tmpdir g of None \<Rightarrow> tmp_directory A | Some d \<Rightarrow> d)"

definition prohibited :: "dir_api \<Rightarrow> dsched_globals \<Rightarrow> bool" where
  "prohibited A g \<longleftrightarrow> (\<exists>ps. g_prohibited_session_dirs g = Some ps
     \<and> (\<exists>p\<in>set (dirs_split A ps CHR '',''). has_prefix (wanted_dir A g) p))"

lemma session_dir_init_cases:
  "dsched_session_dir_init A (session_dir_start g) =
     (let d = wanted_dir A g; rc = dirpath_create A [] d;
          s = (session_dir_start g)\<lparr>sd_setup_base_complete := True, sd_glob := g\<lparr>g_tmpdir := Some d\<rparr>\<rparr>
      in if prohibited A g then (PMIX_ERR_FATAL, s)
         else (if rc = PMIX_ERR_EXISTS then PMIX_SUCCESS else rc,
               s\<lparr>sd_ops := [Dir_create d], sd_tmpdir_created := (rc = PMIX_SUCCESS)\<rparr>))"
  by (auto simp: dsched_session_dir_init_def session_dir_start_def wanted_dir_def prohibited_def Let_def
      list_ex_iff split: option.splits)

text \<open>
  C24. Over a whole life of the daemon the directory is removed exactly when
  initialisation created it: one that existed before is left alone, and a
  prohibited location (one that begins with an entry of the list) is neither
  created nor removed and reported as fatal.
\<close>

theorem session_dir_lifecycle:
  assumes "dsched_session_dir_init A (session_dir_start g) = (rc, s)"
  shows "sd_ops (dsched_session_dir_finalize s) =
       (if prohibited A g then []
        else if dirpath_create A [] (wanted_dir A g) = PMIX_SUCCESS
        then [Dir_create (wanted_dir A g), Dir_destroy (wanted_dir A g), Dir_rmdir (wanted_dir A g)]
        else [Dir_create (wanted_dir A g)])
     \<and> (prohibited A g \<longrightarrow> rc = PMIX_ERR_FATAL)
     \<and> (\<not> prohibited A g \<longrightarrow>
          rc = (if dirpath_create A [] (wanted_dir A g) = PMIX_ERR_EXISTS then PMIX_SUCCESS
                else dirpath_create A [] (wanted_dir A g)))"
  using assms unfolding session_dir_init_cases Let_def
  by (auto simp: dsched_session_dir_finalize_def session_dir_start_def split: if_splits)

definition sample_dir_api :: dir_api where
  "sample_dir_api = \<lparr>tmp_directory = ''/tmp'', dirpath_create = (\<lambda>ops d. PMIX_SUCCESS), dirs_split = (\<lambda>s c. [s])\<rparr>"

theorem session_dir_lifecycle_witness:
  "\<exists>rc s. dsched_session_dir_init sample_dir_api (session_dir_start sample_globals) = (rc, s)
     \<and> rc = PMIX_SUCCESS
     \<and> sd_ops (dsched_session_dir_finalize s) = [Dir_create ''/tmp'', Dir_destroy ''/tmp'', Dir_rmdir ''/tmp'']"
proof -
  obtain rc s where s: "dsched_session_dir_init sample_dir_api (session_dir_start sample_globals) = (rc, s)"
    by (cases "dsched_session_dir_init sample_dir_api (session_dir_start sample_globals)")
  have "\<not> prohibited sample_dir_api sample_globals" "wanted_dir sample_dir_api sample_globals = ''/tmp''"
    "dirpath_create sample_dir_api [] ''/tmp'' = PMIX_SUCCESS"
    by (simp_all add: prohibited_def wanted_dir_def sample_dir_api_def sample_globals_def dsched_globals_init_def)
  with session_dir_lifecycle [OF s] s show ?thesis by simp
qed

text \<open>
  A failed initialisation is not repeated: the next call reports success
  although the directory was refused or could not be created.
\<close>

theorem failed_session_dir_forgotten:
  assumes "dsched_session_dir_init A (session_dir_start g) = (rc, s)" and "rc \<noteq> PMIX_SUCCESS"
  shows "dsched_session_dir_init A s = (PMIX_SUCCESS, s) \<and> \<not> sd_tmpdir_created s"
proof -
  have "sd_setup_base_complete s" "\<not> sd_tmpdir_created s"
    using assms unfolding session_dir_init_cases Let_def by (auto simp: session_dir_start_def split: if_splits)
  then show ?thesis by (simp add: dsched_session_dir_init_def)
qed

theorem failed_session_dir_forgotten_witness:
  "\<exists>s. dsched_session_dir_init (sample_dir_api\<lparr>dirpath_create := \<lambda>ops d. PMIX_ERROR\<rparr>) (session_dir_start sample_globals)
       = (PMIX_ERROR, s)
     \<and> dsched_session_dir_init (sample_dir_api\<lparr>dirpath_create := \<lambda>ops d. PMIX_ERROR\<rparr>) s = (PMIX_SUCCESS, s)"
proof -
  let ?A = "sample_dir_api\<lparr>dirpath_create := \<lambda>ops d. PMIX_ERROR\<rparr>"
  obtain rc s where s: "dsched_session_dir_init ?A (session_dir_start sample_globals) = (rc, s)"
    by (cases "dsched_session_dir_init ?A (session_dir_start sample_globals)")
  have rc: "rc = PMIX_ERROR"
    using s by (simp add: session_dir_init_cases prohibited_def sample_globals_def dsched_globals_init_def Let_def)
  with failed_session_dir_forgotten [OF s] s show ?thesis by (intro exI [of _ s]) simp
qed

end
