(* ===== verification/Runtime_Init.thy ===== *)
theory Runtime_Init
  imports C_Strings Install_Dirs Session_Dir "HOL-Library.Product_Lexorder"
begin

text \<open>
  Start-up of the runtime (\<open>runtime/dsched_rte.c\<close>, \<open>event/event.c\<close>): the
  version of the PMIx library is checked, the installation directories, the
  library, its parameters and output are initialised in this order, the host
  name is determined and the event library opened.
\<close>

subsection \<open>The event base\<close>

record event_state =
  ev_initialized :: bool
  ev_glob :: dsched_globals
  ev_freed :: "nat option list"

text \<open>\<open>event_base_new\<close> is what libevent gives.\<close>

definition dsched_event_base_open :: "nat option \<Rightarrow> event_state \<Rightarrow> int \<times> event_state" where
  "dsched_event_base_open event_base_new e =
     (if ev_initialized e then (DSCHED_SUCCESS, e)
      else
        let e = e\<lparr>ev_glob := (ev_glob e)\<lparr>g_evbase := event_base_new\<rparr>\<rparr>
        in if event_base_new = None then (DSCHED_ERROR, e)
           else (DSCHED_SUCCESS, e\<lparr>ev_initialized := True\<rparr>))"

definition dsched_event_base_close :: "event_state \<Rightarrow> int \<times> event_state" where
  "dsched_event_base_close e =
     (if \<not> ev_initialized e then (DSCHED_SUCCESS, e)
      else (DSCHED_SUCCESS, e\<lparr>ev_freed := ev_freed e @ [g_evbase (ev_glob e)], ev_initialized := False\<rparr>))"

subsection \<open>Versions\<close>

definition check_range :: "u32 \<Rightarrow> u32 \<Rightarrow> u32 \<Rightarrow> u32 \<Rightarrow> u32 \<Rightarrow> u32 \<Rightarrow> bool" where
  "check_range major minor release limmajor limminor limrelease =
     (if major > limmajor then True else if major < limmajor then False
      else if minor > limminor then True else if minor < limminor then False
      else if release < limrelease then False else True)"

definition make_version_string :: "int \<Rightarrow> int \<Rightarrow> int \<Rightarrow> string option \<Rightarrow> string option \<Rightarrow> string" where
  "make_version_string major minor release greek repo =
     (let str = int_dec major @ ''.'' @ int_dec minor;
          str = (if release \<ge> 0 then str @ ''.'' @ int_dec release else str);
          str = (case greek of None \<Rightarrow> str | Some g \<Rightarrow> str @ g)
      in case repo of None \<Rightarrow> str | Some r \<Rightarrow> str @ r)"

text \<open>
  \<open>sscanf (rvers, "%s %u.%u.%u", ...)\<close>: a word into 100 characters, then the
  triple. A number that is missing leaves its variable uninitialised.
\<close>

definition scan_pmix_version :: "string \<Rightarrow> (u32 \<times> u32 \<times> u32) res" where
  "scan_pmix_version s =
     (let t = dropWhile c_isspace s; token = takeWhile (\<lambda>c. \<not> c_isspace c) t
      in if 100 \<le> length token then Inl OutOfBounds
         else (case scan_triple (dropWhile c_isspace (drop (length token) t)) of
             None \<Rightarrow> Inl Uninitialised
           | Some v \<Rightarrow> if token = [] then Inl Uninitialised else Inr v))"

definition scan_limit :: "string \<Rightarrow> (u32 \<times> u32 \<times> u32) res" where
  "scan_limit s = (case scan_triple s of None \<Rightarrow> Inl Uninitialised | Some v \<Rightarrow> Inr v)"

subsection \<open>The host name\<close>

record host_api =
  isaddr :: "string \<Rightarrow> bool"
  host_split :: "string \<Rightarrow> char \<Rightarrow> string list"
  append_unique :: "string list option \<Rightarrow> string \<Rightarrow> string list option"

text \<open>Remove the first prefix that matches, and what comes before a non-zero digit.\<close>

definition skip_zeroes :: "string \<Rightarrow> string \<Rightarrow> string" where
  "skip_zeroes hostname prefix =
     (let rest = drop (length prefix) hostname;
          tail = dropWhile (\<lambda>c. \<not> (c_isdigit c \<and> c \<noteq> CHR ''0'')) rest
      in if tail = [] then rest else tail)"

fun strip_loop :: "string list \<Rightarrow> string \<Rightarrow> string option" where
  "strip_loop [] hostname = None"
| "strip_loop (p # ps) hostname =
     (if has_prefix hostname p then Some (skip_zeroes hostname p) else strip_loop ps hostname)"

definition strip_prefixes :: "host_api \<Rightarrow> string \<Rightarrow> dsched_globals \<Rightarrow> dsched_globals" where
  "strip_prefixes A hostname g =
     (case g_strip_prefixes g of
        None \<Rightarrow> g\<lparr>g_hostname := Some hostname\<rparr>
      | Some ps \<Rightarrow>
          if isaddr A hostname then g\<lparr>g_hostname := Some hostname\<rparr>
          else (case strip_loop (host_split A ps CHR '','') hostname of
              Some h \<Rightarrow> g\<lparr>g_hostname := Some h, g_aliases := append_unique A (g_aliases g) h\<rparr>
            | None \<Rightarrow> g\<lparr>g_hostname := Some hostname\<rparr>))"

definition strip_fqdn :: "host_api \<Rightarrow> dsched_globals \<Rightarrow> dsched_globals res" where
  "strip_fqdn A g =
     res_bind (deref (g_hostname g)) (\<lambda>h.
       if \<not> isaddr A h \<and> CHR ''.'' \<in> set h then
         (let short = takeWhile (\<lambda>c. c \<noteq> CHR ''.'') h
          in Inr (if g_keep_fqdn_hostnames g then g\<lparr>g_aliases := append_unique A (g_aliases g) short\<rparr>
                  else g\<lparr>g_aliases := append_unique A (g_aliases g) h, g_hostname := Some short\<rparr>))
       else Inr g)"

subsection \<open>Start-up\<close>

text \<open>The calls into the library, in order, and the two kinds of result.\<close>

datatype rt_call = C_init_util "string option" | C_add_help | C_var_init | C_output_init

datatype rcode = DS int | PX pmix_status

record rt_state =
  rt_util_initialized :: bool
  rt_dirs :: install_dirs
  rt_event :: event_state
  rt_tool_version :: "string option"
  rt_tool_basename :: "string option"
  rt_calls :: "rt_call list"

text \<open>
  The platform: the version of the library and its limits, the version of the
  program, the components of the directories framework and what opening them
  gives, which files exist, the results of the library's initialisers, the host
  name and its aliases.
\<close>

record rt_api =
  get_version :: string
  min_version :: string
  max_version :: string
  own_version :: "int \<times> int \<times> int \<times> string option"
  dirs :: dirs_api
  dirs_open :: pmix_status
  dirs_components :: "install_dirs list"
  file_exists :: "string \<Rightarrow> bool"
  init_util :: "string option \<Rightarrow> pmix_status"
  var_init :: pmix_status
  gethostname :: string
  ifgetaliases :: "string list option \<Rightarrow> string list option"
  host :: host_api
  event_new :: "nat option"

definition check_exist :: "rt_api \<Rightarrow> string option \<Rightarrow> bool" where
  "check_exist A path = (case path of None \<Rightarrow> False | Some p \<Rightarrow> file_exists A p)"

text \<open>The host name, its aliases and the event library.\<close>

definition init_host :: "rt_api \<Rightarrow> rt_state \<Rightarrow> (rcode \<times> rt_state) res" where
  "init_host A s =
     (let g = ev_glob (rt_event s);
          g = strip_prefixes (host A) (gethostname A) (g\<lparr>g_aliases := ifgetaliases A (g_aliases g)\<rparr>)
      in res_bind (strip_fqdn (host A) g) (\<lambda>g.
           let (ret, e) = dsched_event_base_open (event_new A) ((rt_event s)\<lparr>ev_glob := g\<rparr>)
           in if ret \<noteq> DSCHED_SUCCESS then Inr (DS ret, s\<lparr>rt_event := e\<rparr>)
              else Inr (DS DSCHED_SUCCESS, s\<lparr>rt_event := e\<lparr>ev_glob := (ev_glob e)\<lparr>g_evactive := True\<rparr>\<rparr>\<rparr>)))"

text \<open>From the library's initialisation on.\<close>

definition init_library :: "rt_api \<Rightarrow> rt_state \<Rightarrow> (rcode \<times> rt_state) res" where
  "init_library A s =
     (let path = (if check_exist A (rt_dirs s F_pmixlibdir)
                  then map_option (\<lambda>d. ''dsched@'' @ d) (rt_dirs s F_pmixlibdir) else None);
          ret = init_util A path;
          s = s\<lparr>rt_calls := rt_calls s @ [C_init_util path]\<rparr>
      in if ret \<noteq> PMIX_SUCCESS then Inr (PX ret, s)
         else
           let s = s\<lparr>rt_calls := rt_calls s @ [C_add_help, C_var_init]\<rparr>
           in if var_init A \<noteq> PMIX_SUCCESS then Inr (PX (var_init A), s)
              else init_host A (s\<lparr>rt_calls := rt_calls s @ [C_output_init]\<rparr>))"

text \<open>
  The version check: the minimum is inclusive, the maximum exclusive, and the
  maximum is only looked at when the minimum is met.
\<close>

definition version_allowed :: "rt_api \<Rightarrow> bool res" where
  "version_allowed A =
     res_bind (scan_pmix_version (get_version A)) (\<lambda>(major, minor, release).
     res_bind (scan_limit (min_version A)) (\<lambda>(reqmajor, reqminor, reqrelease).
       if \<not> check_range major minor release reqmajor reqminor reqrelease then Inr False
       else res_bind (scan_limit (max_version A)) (\<lambda>(maxmajor, maxminor, maxrelease).
         Inr (\<not> check_range major minor release maxmajor maxminor maxrelease))))"

definition dsched_init_util :: "rt_api \<Rightarrow> rt_state \<Rightarrow> (rcode \<times> rt_state) res option" where
  "dsched_init_util A s =
     (if rt_util_initialized s then Some (Inr (DS DSCHED_SUCCESS, s))
      else
        let s = s\<lparr>rt_util_initialized := True\<rparr>
        in case version_allowed A of
             Inl e \<Rightarrow> Some (Inl e)
           | Inr ok \<Rightarrow>
               if \<not> ok then Some (Inr (DS DSCHED_ERR_SILENT, s))
               else
                 (let (major, minor, release, greek) = own_version A;
                      s = s\<lparr>rt_tool_version := Some (make_version_string major minor release greek None),
                            rt_tool_basename := g_basename (ev_glob (rt_event s))\<rparr>
                  in Option.bind (dsched_dinstalldirs_base_open (dirs A) (dirs_open A) (dirs_components A) (rt_dirs s))
                       (\<lambda>r. Some (res_bind r (\<lambda>(ret, D).
                          let s = s\<lparr>rt_dirs := D\<rparr>
                          in if ret \<noteq> DSCHED_SUCCESS then Inr (DS ret, s) else init_library A s)))))"

subsection \<open>Properties\<close>

lemma check_range_lexicographic:
  "check_range a b c la lb lc \<longleftrightarrow> (la, lb, lc) \<le> (a, b, c)"
  by (auto simp: check_range_def less_eq_prod_def less_prod_def)

definition dotted :: "nat \<times> nat \<times> nat \<Rightarrow> string" where
  "dotted v = (case v of (a, b, c) \<Rightarrow> nat_dec a @ CHR ''.'' # nat_dec b @ CHR ''.'' # nat_dec c)"

definition word_triple :: "nat \<times> nat \<times> nat \<Rightarrow> bool" where
  "word_triple v \<longleftrightarrow> (case v of (a, b, c) \<Rightarrow> a < 2 ^ 32 \<and> b < 2 ^ 32 \<and> c < 2 ^ 32)"

lemma scan_limit_dotted:
  "word_triple (a, b, c) \<Longrightarrow> scan_limit (dotted (a, b, c)) = Inr (of_nat a, of_nat b, of_nat c)"
  using scan_triple_dec [of a b c "[]"] by (simp add: scan_limit_def dotted_def word_triple_def)

lemma scan_pmix_version_dotted:
  assumes "word_triple (a, b, c)" and "name \<noteq> []" and "length name < 100" and "list_all (\<lambda>x. \<not> c_isspace x) name"
    and "rest = [] \<or> \<not> c_isdigit (hd rest)"
  shows "scan_pmix_version (name @ '' '' @ dotted (a, b, c) @ rest) = Inr (of_nat a, of_nat b, of_nat c)"
proof -
  have sp: "c_isspace CHR '' ''" by (simp add: c_isspace_def)
  obtain x xs where name: "name = x # xs" using assms(2) by (cases name) auto
  have token: "takeWhile (\<lambda>c. \<not> c_isspace c) (name @ '' '' @ t) = name" for t
    using assms(4) sp by (subst takeWhile_append2) (auto simp: list_all_iff)
  have skip: "dropWhile c_isspace (name @ t) = name @ t" for t
    using assms(4) by (simp add: name)
  have "c_isdigit (hd (nat_dec a))" "nat_dec a \<noteq> []"
    using nat_dec_digits [of a] by (cases "nat_dec a"; simp)+
  then have num: "dropWhile c_isspace (nat_dec a @ t) = nat_dec a @ t" for t
    using c_isdigit_cases by (cases "nat_dec a") auto
  have "scan_triple (dotted (a, b, c) @ rest) = Some (of_nat a, of_nat b, of_nat c)"
    using scan_triple_dec [of a b c rest] assms(1,5) by (simp add: dotted_def word_triple_def)
  then show ?thesis
    using assms(2,3) token skip sp num by (simp add: scan_pmix_version_def Let_def dotted_def)
qed

lemma of_nat_triple_le:
  assumes "word_triple u" and "word_triple v"
  shows "(case (u, v) of ((a, b, c), (d, e, f)) \<Rightarrow>
     ((of_nat a, of_nat b, of_nat c) :: u32 \<times> u32 \<times> u32) \<le> (of_nat d, of_nat e, of_nat f)) \<longleftrightarrow> u \<le> v"
proof -
  have le: "(of_nat x :: u32) \<le> of_nat y \<longleftrightarrow> x \<le> y" and lt: "(of_nat x :: u32) < of_nat y \<longleftrightarrow> x < y"
    if "x < 2 ^ 32" "y < 2 ^ 32" for x y
    using that by (simp_all add: word_le_nat_alt word_less_nat_alt unat_of_nat)
  show ?thesis using assms by (auto simp: word_triple_def less_eq_prod_def less_prod_def le lt split: prod.splits)
qed

lemma version_allowed_range:
  assumes "get_version A = name @ '' '' @ dotted v @ rest" and "min_version A = dotted lo" and "max_version A = dotted hi"
    and "word_triple v" and "word_triple lo" and "word_triple hi"
    and "name \<noteq> []" and "length name < 100" and "list_all (\<lambda>x. \<not> c_isspace x) name"
    and "rest = [] \<or> \<not> c_isdigit (hd rest)"
  shows "version_allowed A = Inr (lo \<le> v \<and> v < hi)"
proof -
  obtain a b c d e f h i j where t: "v = (a, b, c)" "lo = (d, e, f)" "hi = (h, i, j)" by (metis prod_cases3)
  have r: "check_range (of_nat a) (of_nat b) (of_nat c) (of_nat d) (of_nat e) (of_nat f) \<longleftrightarrow> lo \<le> v"
    "check_range (of_nat a) (of_nat b) (of_nat c) (of_nat h) (of_nat i) (of_nat j) \<longleftrightarrow> hi \<le> v"
    using of_nat_triple_le [OF assms(5,4)] of_nat_triple_le [OF assms(6,4)]
    unfolding check_range_lexicographic t by simp_all
  have scan: "scan_pmix_version (get_version A) = Inr (of_nat a, of_nat b, of_nat c)"
    "scan_limit (min_version A) = Inr (of_nat d, of_nat e, of_nat f)"
    "scan_limit (max_version A) = Inr (of_nat h, of_nat i, of_nat j)"
    using assms(4-6) unfolding assms(1-3) t
    by (simp_all only: scan_limit_dotted scan_pmix_version_dotted [OF _ assms(7-10)])
  have "version_allowed A = Inr (lo \<le> v \<and> \<not> hi \<le> v)"
    unfolding version_allowed_def by (simp only: scan res_bind_Inr prod.case r) simp
  then show ?thesis by (simp add: not_le)
qed

text \<open>
  C25. The daemon starts only with a library whose version is at least the
  minimum and below the maximum, compared component by component; otherwise it
  fails silently before any directory or library is initialised.
\<close>

theorem version_gate:
  assumes "get_version A = name @ '' '' @ dotted v @ rest" and "min_version A = dotted lo" and "max_version A = dotted hi"
    and "word_triple v" and "word_triple lo" and "word_triple hi"
    and "name \<noteq> []" and "length name < 100" and "list_all (\<lambda>x. \<not> c_isspace x) name"
    and "rest = [] \<or> \<not> c_isdigit (hd rest)" and "\<not> rt_util_initialized s"
  shows "version_allowed A = Inr (lo \<le> v \<and> v < hi)
     \<and> (\<not> (lo \<le> v \<and> v < hi) \<longrightarrow>
          dsched_init_util A s = Some (Inr (DS DSCHED_ERR_SILENT, s\<lparr>rt_util_initialized := True\<rparr>)))"
  using version_allowed_range [OF assms(1-10)] assms(11) by (simp add: dsched_init_util_def)

definition sample_host_api :: host_api where
  "sample_host_api = \<lparr>isaddr = (\<lambda>h. False), host_split = (\<lambda>s c. [s]),
     append_unique = (\<lambda>l s. Some (case l of None \<Rightarrow> [s] | Some xs \<Rightarrow> if s \<in> set xs then xs else xs @ [s]))\<rparr>"

definition sample_rt_api :: rt_api where
  "sample_rt_api = \<lparr>get_version = ''OpenPMIx 4.2.9rc1 (PMIx Standard: 4.1)'', min_version = ''5.0.0'', max_version = ''6.0.0'',
     own_version = (1, 0, 0, None), dirs = sample_dirs_api, dirs_open = PMIX_SUCCESS, dirs_components = [],
     file_exists = (\<lambda>p. False), init_util = (\<lambda>p. PMIX_SUCCESS), var_init = PMIX_SUCCESS,
     gethostname = ''node007.cluster'', ifgetaliases = id, host = sample_host_api, event_new = Some 1\<rparr>"

definition sample_rt_state :: rt_state where
  "sample_rt_state = \<lparr>rt_util_initialized = False, rt_dirs = dsched_dinstall_dirs_init,
     rt_event = \<lparr>ev_initialized = False, ev_glob = sample_globals, ev_freed = []\<rparr>,
     rt_tool_version = None, rt_tool_basename = None, rt_calls = []\<rparr>"

theorem version_gate_witness:
  "dsched_init_util sample_rt_api sample_rt_state
     = Some (Inr (DS DSCHED_ERR_SILENT, sample_rt_state\<lparr>rt_util_initialized := True\<rparr>))"
proof -
  let ?v = "(4, 2, 9) :: nat \<times> nat \<times> nat"
  have vers: "get_version sample_rt_api = ''OpenPMIx'' @ '' '' @ dotted ?v @ ''rc1 (PMIx Standard: 4.1)''"
    "min_version sample_rt_api = dotted (5, 0, 0)" "max_version sample_rt_api = dotted (6, 0, 0)"
    by (simp_all only: sample_rt_api_def rt_api.simps dotted_def prod.case) code_simp+
  have "word_triple ?v" "word_triple (5, 0, 0)" "word_triple (6, 0, 0)" by (simp_all add: word_triple_def)
  moreover have "list_all (\<lambda>x. \<not> c_isspace x) ''OpenPMIx''" "\<not> c_isdigit (hd ''rc1 (PMIx Standard: 4.1)'')"
    by code_simp+
  moreover have "\<not> rt_util_initialized sample_rt_state" by (simp add: sample_rt_state_def)
  moreover have "\<not> (5, 0, 0) \<le> ?v" by simp
  ultimately show ?thesis using version_gate [OF vers] by simp
qed

subsection \<open>The names of the local host\<close>

text \<open>What \<open>PMIx_Argv_append_unique_nosize\<close> does to the array of aliases.\<close>

definition appends_unique :: "host_api \<Rightarrow> bool" where
  "appends_unique A \<longleftrightarrow>
     (\<forall>l s. \<exists>l'. append_unique A l s = Some l' \<and> set l' = insert s (case l of None \<Rightarrow> {} | Some xs \<Rightarrow> set xs))"

definition short_name :: "string \<Rightarrow> string" where
  "short_name h = takeWhile (\<lambda>c. c \<noteq> CHR ''.'') h"

definition stripped_name :: "host_api \<Rightarrow> dsched_globals \<Rightarrow> string \<Rightarrow> string" where
  "stripped_name A g hostname =
     (case g_strip_prefixes g of
        None \<Rightarrow> hostname
      | Some ps \<Rightarrow> if isaddr A hostname then hostname
          else case_option hostname id (strip_loop (host_split A ps CHR '','') hostname))"

text \<open>The name after the prefixes were removed.\<close>

lemma strip_prefixes_name: "g_hostname (strip_prefixes A hostname g) = Some (stripped_name A g hostname)"
  by (simp add: strip_prefixes_def stripped_name_def split: option.splits)

lemma appends_uniqueE:
  assumes "appends_unique A"
  obtains l' where "append_unique A l s = Some l'" and "s \<in> set l'"
  using assms unfolding appends_unique_def by (metis insertI1)

text \<open>
  After the host name was determined the daemon takes both the full name
  and the name up to the first dot for itself, whether it keeps full names or
  not, unless the name is a network address.
\<close>

theorem host_known_by_both_names:
  assumes "appends_unique A" and "h = stripped_name A g hostname" and "\<not> isaddr A h"
  shows "\<exists>g'. strip_fqdn A (strip_prefixes A hostname g) = Inr g'
     \<and> g_hostname g' = Some (if g_keep_fqdn_hostnames g then h else short_name h)
     \<and> dsched_check_host_is_local g' h = Inr True
     \<and> dsched_check_host_is_local g' (short_name h) = Inr True"
proof -
  let ?g = "strip_prefixes A hostname g"
  have name: "g_hostname ?g = Some h" using assms(2) strip_prefixes_name by simp
  have keep: "g_keep_fqdn_hostnames ?g = g_keep_fqdn_hostnames g"
    by (simp add: strip_prefixes_def split: option.splits)
  show ?thesis
  proof (cases "CHR ''.'' \<in> set h")
    case False
    then have "short_name h = h" by (auto simp: short_name_def takeWhile_eq_all_conv)
    with False name show ?thesis
      by (simp add: strip_fqdn_def check_host_is_local_iff is_local_def)
  next
    case True
    obtain l where "append_unique A (g_aliases ?g) h = Some l" "h \<in> set l" using assms(1) by (rule appends_uniqueE)
    moreover obtain k where "append_unique A (g_aliases ?g) (short_name h) = Some k" "short_name h \<in> set k"
      using assms(1) by (rule appends_uniqueE)
    ultimately show ?thesis using True name keep assms(3)
      by (cases "g_keep_fqdn_hostnames g")
        (simp_all add: strip_fqdn_def check_host_is_local_iff is_local_def short_name_def)
  qed
qed

theorem host_known_by_both_names_witness:
  "\<exists>g'. strip_fqdn sample_host_api (strip_prefixes sample_host_api ''node007.cluster''
          (sample_globals\<lparr>g_strip_prefixes := Some ''node''\<rparr>)) = Inr g'
     \<and> dsched_check_host_is_local g' ''7.cluster'' = Inr True
     \<and> dsched_check_host_is_local g' ''7'' = Inr True"
proof -
  let ?g = "sample_globals\<lparr>g_strip_prefixes := Some ''node''\<rparr>"
  have "appends_unique sample_host_api"
    by (auto simp: appends_unique_def sample_host_api_def split: option.splits)
  moreover have "''7.cluster'' = stripped_name sample_host_api ?g ''node007.cluster''"
    by (simp add: stripped_name_def sample_host_api_def has_prefix_def skip_zeroes_def c_isdigit_def)
  moreover have "\<not> isaddr sample_host_api ''7.cluster''" by (simp add: sample_host_api_def)
  ultimately show ?thesis
    using host_known_by_both_names [of sample_host_api "''7.cluster''" ?g "''node007.cluster''"]
    by (auto simp: short_name_def)
qed

end
