(* ===== verification/Dynamic_Loading.thy ===== *)
theory Dynamic_Loading
  imports C_Strings Dsched_Constants Pmix_Types "HOL-Library.Multiset"
begin

text \<open>
  Dynamic loading (\<open>mca/ddl\<close>): two modules that open libraries, look up symbols
  and close libraries, one over \<open>dlopen\<close> (\<open>ddlopen\<close>) and one over libltdl
  (\<open>dlibltdl\<close>), the scan of a search path for plug-ins, and the wrappers of the
  framework that call the selected module.
\<close>

subsection \<open>State\<close>

datatype rtld = RTLD_LAZY | RTLD_LOCAL | RTLD_GLOBAL

text \<open>
  How a library is opened: the flags of \<open>dlopen\<close>, the advice given to libltdl
  (private, extensions), or its two functions without advice.
\<close>

datatype open_how = Flags "rtld list" | Advise bool bool | Lt_openext | Lt_open

text \<open>The calls into the loader, the opening ones with their result.\<close>

datatype dl_op = Op_open open_how "string option" "nat option" | Op_sym nat string | Op_close nat

record dsched_ddl_handle =
  h_lib :: nat
  h_filename :: "string option"

record ddl_state =
  dl_ops :: "dl_op list"
  dl_handles :: "ptr \<rightharpoonup> dsched_ddl_handle"
  dl_fresh :: ptr
  dl_suffixes :: "string list option"
  dl_suffixes_storage :: string

text \<open>
  The platform. \<open>ld_open\<close>, \<open>ld_sym\<close>, \<open>ld_close\<close> and \<open>ld_error\<close> are the functions
  of the loader after the calls so far; \<open>stat_reg\<close> tells whether a path can be
  examined and whether it is a regular file; \<open>readdir\<close> gives the entries of a
  directory that can be opened. \<open>ddl_split\<close> is \<open>PMIx_Argv_split\<close>.
\<close>

record ddl_api =
  ld_open :: "dl_op list \<Rightarrow> open_how \<Rightarrow> string option \<Rightarrow> nat option"
  ld_sym :: "dl_op list \<Rightarrow> nat \<Rightarrow> string \<Rightarrow> nat option"
  ld_close :: "dl_op list \<Rightarrow> nat \<Rightarrow> int"
  ld_error :: "dl_op list \<Rightarrow> string option"
  stat_reg :: "string \<Rightarrow> bool option"
  readdir :: "string \<Rightarrow> string list option"
  ddl_split :: "string \<Rightarrow> char \<Rightarrow> string list"
  enable_debug :: bool
  have_advise :: bool

text \<open>
  An error message goes through a pointer that may be null: \<open>None\<close> is the null
  pointer, otherwise the value is what it points to.
\<close>

type_synonym err_msg = "string option option"

definition set_err :: "string option \<Rightarrow> err_msg \<Rightarrow> err_msg" where
  "set_err m err = map_option (\<lambda>_. m) err"

definition dl_emit :: "dl_op \<Rightarrow> ddl_state \<Rightarrow> ddl_state" where
  "dl_emit x s = s\<lparr>dl_ops := dl_ops s @ [x]\<rparr>"

text \<open>A handle with the library's own handle and, in debug builds, the name.\<close>

definition new_handle :: "ddl_api \<Rightarrow> string option \<Rightarrow> nat \<Rightarrow> ddl_state \<Rightarrow> ptr \<times> ddl_state" where
  "new_handle A fname lib s =
     (dl_fresh s, s\<lparr>dl_fresh := Suc (dl_fresh s), dl_handles := (dl_handles s)(dl_fresh s \<mapsto>
        \<lparr>h_lib = lib, h_filename =
           if enable_debug A then Some (case fname of Some f \<Rightarrow> f | None \<Rightarrow> ''(null)'') else None\<rparr>)\<rparr>)"

text \<open>Following a handle: it must not be null nor freed.\<close>

definition live_handle :: "ptr option \<Rightarrow> ddl_state \<Rightarrow> (ptr \<times> dsched_ddl_handle) res" where
  "live_handle handle s =
     (case handle of
        None \<Rightarrow> Inl AssertFailed
      | Some p \<Rightarrow> (case dl_handles s p of None \<Rightarrow> Inl UseAfterFree | Some h \<Rightarrow> Inr (p, h)))"

subsection \<open>The module over dlopen\<close>

definition do_ddlopen ::
  "ddl_api \<Rightarrow> string option \<Rightarrow> rtld list \<Rightarrow> err_msg \<Rightarrow> ddl_state \<Rightarrow> nat option \<times> err_msg \<times> ddl_state" where
  "do_ddlopen A fname flags err s =
     (let lib = ld_open A (dl_ops s) (Flags flags) fname;
          s = dl_emit (Op_open (Flags flags) fname lib) s
      in (lib, set_err (if lib \<noteq> None then None else ld_error A (dl_ops s)) err, s))"

text \<open>The first suffix for which a file exists is tried, and no other after it.\<close>

fun try_suffixes ::
  "ddl_api \<Rightarrow> string \<Rightarrow> rtld list \<Rightarrow> string list \<Rightarrow> err_msg \<Rightarrow> ddl_state \<Rightarrow> nat option \<times> err_msg \<times> ddl_state" where
  "try_suffixes A fname flags [] err s = (None, err, s)"
| "try_suffixes A fname flags (ext # exts) err s =
     (let name = fname @ ext
      in if stat_reg A name = None
         then try_suffixes A fname flags exts (set_err (Some (''File '' @ name @ '' not found'')) err) s
         else do_ddlopen A (Some name) flags err s)"

text \<open>The end of the function: a new handle when the library was opened.\<close>

definition opened_handle ::
  "ddl_api \<Rightarrow> string option \<Rightarrow> nat option \<Rightarrow> err_msg \<Rightarrow> ddl_state \<Rightarrow> int \<times> ptr option \<times> err_msg \<times> ddl_state" where
  "opened_handle A fname lib err s =
     (case lib of
        None \<Rightarrow> (DSCHED_ERROR, None, err, s)
      | Some l \<Rightarrow> (let (h, s) = new_handle A fname l s in (DSCHED_SUCCESS, Some h, err, s)))"

text \<open>With extensions when the caller wants them and gives a name, else the name as it is.\<close>

definition ddlopen_call ::
  "ddl_api \<Rightarrow> string option \<Rightarrow> bool \<Rightarrow> rtld list \<Rightarrow> err_msg \<Rightarrow> ddl_state
     \<Rightarrow> (nat option \<times> err_msg \<times> ddl_state) res" where
  "ddlopen_call A fname use_ext flags err s =
     (if use_ext \<and> fname \<noteq> None
      then res_bind (deref (dl_suffixes s)) (\<lambda>exts. Inr (try_suffixes A (the fname) flags exts err s))
      else Inr (do_ddlopen A fname flags err s))"

definition ddlopen_open ::
  "ddl_api \<Rightarrow> string option \<Rightarrow> bool \<Rightarrow> bool \<Rightarrow> err_msg \<Rightarrow> ddl_state \<Rightarrow> (int \<times> ptr option \<times> err_msg \<times> ddl_state) res" where
  "ddlopen_open A fname use_ext private_namespace err s =
     res_bind (ddlopen_call A fname use_ext [RTLD_LAZY, if private_namespace then RTLD_LOCAL else RTLD_GLOBAL] err s)
       (\<lambda>(lib, err, s). Inr (opened_handle A fname lib err s))"

definition ddlopen_lookup ::
  "ddl_api \<Rightarrow> ptr option \<Rightarrow> string \<Rightarrow> err_msg \<Rightarrow> ddl_state \<Rightarrow> (int \<times> nat option \<times> err_msg \<times> ddl_state) res" where
  "ddlopen_lookup A handle symbol err s =
     res_bind (live_handle handle s) (\<lambda>(p, h).
       let adr = ld_sym A (dl_ops s) (h_lib h) symbol; s = dl_emit (Op_sym (h_lib h) symbol) s
       in Inr (if adr \<noteq> None then (DSCHED_SUCCESS, adr, err, s)
               else (DSCHED_ERROR, None, set_err (ld_error A (dl_ops s)) err, s)))"

definition ddlopen_close :: "ddl_api \<Rightarrow> ptr option \<Rightarrow> ddl_state \<Rightarrow> (int \<times> ddl_state) res" where
  "ddlopen_close A handle s =
     res_bind (live_handle handle s) (\<lambda>(p, h).
       let ret = ld_close A (dl_ops s) (h_lib h); s = dl_emit (Op_close (h_lib h)) s
       in Inr (ret, s\<lparr>dl_handles := (dl_handles s)(p := None)\<rparr>))"

subsection \<open>The scan of a search path\<close>

text \<open>
  The name that is reported for a file: its absolute name up to the last dot.
  Files of libtool and object files are skipped.
\<close>

definition base_name :: "string \<Rightarrow> string option" where
  "base_name abs_name =
     (case strrchr abs_name CHR ''.'' of
        None \<Rightarrow> Some abs_name
      | Some i \<Rightarrow>
          (let suffix = drop i abs_name
           in if suffix = ''.la'' \<or> suffix = ''.lo'' \<or> suffix = ''.o'' then None else Some (take i abs_name)))"

fun scan_entries :: "ddl_api \<Rightarrow> string \<Rightarrow> string list \<Rightarrow> string list \<Rightarrow> int + string list" where
  "scan_entries A dir [] good_files = Inr good_files"
| "scan_entries A dir (d_name # entries) good_files =
     (let abs_name = dir @ ''/'' @ d_name
      in case stat_reg A abs_name of
           None \<Rightarrow> Inl DSCHED_ERR_IN_ERRNO
         | Some reg \<Rightarrow>
             if \<not> reg then scan_entries A dir entries good_files
             else (case base_name abs_name of
                 None \<Rightarrow> scan_entries A dir entries good_files
               | Some b \<Rightarrow>
                   scan_entries A dir entries (if List.member good_files b then good_files else good_files @ [b])))"

fun scan_dirs :: "ddl_api \<Rightarrow> string list \<Rightarrow> string list \<Rightarrow> int + string list" where
  "scan_dirs A [] good_files = Inr good_files"
| "scan_dirs A (dir # dirs) good_files =
     (case readdir A dir of
        None \<Rightarrow> Inl DSCHED_ERR_IN_ERRNO
      | Some entries \<Rightarrow>
          (case scan_entries A dir entries good_files of
             Inl ret \<Rightarrow> Inl ret
           | Inr good_files \<Rightarrow> scan_dirs A dirs good_files))"

fun call_files :: "(string \<Rightarrow> 'd \<Rightarrow> int \<times> 'd) \<Rightarrow> string list \<Rightarrow> 'd \<Rightarrow> int \<times> 'd" where
  "call_files func [] data = (DSCHED_SUCCESS, data)"
| "call_files func (f # fs) data =
     (let (ret, data) = func f data in if ret \<noteq> DSCHED_SUCCESS then (ret, data) else call_files func fs data)"

definition DSCHED_ENV_SEP :: char where
  "DSCHED_ENV_SEP = CHR '':''"

definition ddlopen_foreachfile ::
  "ddl_api \<Rightarrow> string \<Rightarrow> (string \<Rightarrow> 'd \<Rightarrow> int \<times> 'd) \<Rightarrow> 'd \<Rightarrow> int \<times> 'd" where
  "ddlopen_foreachfile A search_path func data =
     (case scan_dirs A (ddl_split A search_path DSCHED_ENV_SEP) [] of
        Inl ret \<Rightarrow> (ret, data)
      | Inr good_files \<Rightarrow> call_files func good_files data)"

subsection \<open>The component of the module over dlopen\<close>

text \<open>
  Registration stores the default suffixes; \<open>var_register\<close> is the library's
  registration, which may replace the value by the one the user set.
\<close>

definition ddlopen_component_register :: "ddl_api \<Rightarrow> (string \<Rightarrow> int \<times> string) \<Rightarrow> ddl_state \<Rightarrow> int \<times> ddl_state" where
  "ddlopen_component_register A var_register s =
     (let (ret, storage) = var_register ''.so,.dylib,.dll,.sl'';
          s = s\<lparr>dl_suffixes_storage := storage\<rparr>
      in if ret < 0 then (ret, s)
         else (DSCHED_SUCCESS, s\<lparr>dl_suffixes := Some (ddl_split A storage CHR '','')\<rparr>))"

definition ddlopen_component_open :: "ddl_state \<Rightarrow> int \<times> ddl_state" where
  "ddlopen_component_open s = (DSCHED_SUCCESS, s)"

definition ddlopen_component_close :: "ddl_state \<Rightarrow> int \<times> ddl_state" where
  "ddlopen_component_close s =
     (DSCHED_SUCCESS, if dl_suffixes s \<noteq> None then s\<lparr>dl_suffixes := None\<rparr> else s)"

subsection \<open>The module over libltdl\<close>

definition dlibltddl_open ::
  "ddl_api \<Rightarrow> string option \<Rightarrow> bool \<Rightarrow> bool \<Rightarrow> err_msg \<Rightarrow> ddl_state \<Rightarrow> (int \<times> ptr option \<times> err_msg \<times> ddl_state) res" where
  "dlibltddl_open A fname use_ext private_namespace err s =
     (let err = set_err None err;
          how = (if have_advise A then Advise private_namespace use_ext
                 else if use_ext then Lt_openext else Lt_open);
          lib = ld_open A (dl_ops s) how fname;
          s = dl_emit (Op_open how fname lib) s
      in case lib of
           Some l \<Rightarrow> (let (h, s) = new_handle A fname l s in Inr (DSCHED_SUCCESS, Some h, err, s))
         | None \<Rightarrow>
             if err = None then Inr (DSCHED_ERROR, None, err, s)
             else res_bind (deref (ld_error A (dl_ops s))) (\<lambda>m. Inr (DSCHED_ERROR, None, set_err (Some m) err, s)))"

definition dlibltddl_lookup ::
  "ddl_api \<Rightarrow> ptr option \<Rightarrow> string \<Rightarrow> err_msg \<Rightarrow> ddl_state \<Rightarrow> (int \<times> nat option \<times> err_msg \<times> ddl_state) res" where
  "dlibltddl_lookup A handle symbol err s =
     res_bind (live_handle handle s) (\<lambda>(p, h).
       let err = set_err None err;
           adr = ld_sym A (dl_ops s) (h_lib h) symbol; s = dl_emit (Op_sym (h_lib h) symbol) s
       in if adr \<noteq> None then Inr (DSCHED_SUCCESS, adr, err, s)
          else if err = None then Inr (DSCHED_ERROR, None, err, s)
          else res_bind (deref (ld_error A (dl_ops s))) (\<lambda>m. Inr (DSCHED_ERROR, None, set_err (Some m) err, s)))"

definition dlibltddl_close :: "ddl_api \<Rightarrow> ptr option \<Rightarrow> ddl_state \<Rightarrow> (int \<times> ddl_state) res" where
  "dlibltddl_close A handle s =
     res_bind (live_handle handle s) (\<lambda>(p, h).
       let ret = ld_close A (dl_ops s) (h_lib h); s = dl_emit (Op_close (h_lib h)) s
       in Inr (ret, s\<lparr>dl_handles := (dl_handles s)(p := None)\<rparr>))"

text \<open>\<open>foreach\<close> is \<open>lt_dlforeachfile\<close>.\<close>

definition dlibltddl_foreachfile ::
  "(string \<Rightarrow> (string \<Rightarrow> 'd \<Rightarrow> int \<times> 'd) \<Rightarrow> 'd \<Rightarrow> int \<times> 'd) \<Rightarrow> string
     \<Rightarrow> (string \<Rightarrow> 'd \<Rightarrow> int \<times> 'd) \<Rightarrow> 'd \<Rightarrow> int \<times> 'd" where
  "dlibltddl_foreachfile foreach search_path func data =
     (let (ret, data) = foreach search_path func data
      in (if ret = 0 then DSCHED_SUCCESS else DSCHED_ERROR, data))"

text \<open>
  Opening the component initialises libltdl and the four kinds of advice. The
  calls of one condition are tried in order and stop at the first that fails;
  \<open>lt_call\<close> gives whether a call fails.
\<close>

datatype lt_step = Lt_dlinit | Lt_init bool bool | Lt_ext bool bool | Lt_global bool bool
  | Lt_destroy bool bool | Lt_dlexit

fun first_failing :: "(lt_step \<Rightarrow> bool) \<Rightarrow> lt_step list \<Rightarrow> bool \<times> lt_step list" where
  "first_failing fails [] = (False, [])"
| "first_failing fails (c # cs) =
     (if fails c then (True, [c]) else let (b, done) = first_failing fails cs in (b, c # done))"

definition advise_steps :: "lt_step list" where
  "advise_steps =
     [Lt_init True False,
      Lt_init True True, Lt_ext True True,
      Lt_init False False, Lt_global False False,
      Lt_init False True, Lt_global False True, Lt_ext False True]"

definition dlibltddl_component_open :: "ddl_api \<Rightarrow> (lt_step \<Rightarrow> bool) \<Rightarrow> int \<times> lt_step list" where
  "dlibltddl_component_open A fails =
     (if fails Lt_dlinit then (DSCHED_ERROR, [Lt_dlinit])
      else if \<not> have_advise A then (DSCHED_SUCCESS, [Lt_dlinit])
      else let (b, cs) = first_failing fails advise_steps
           in (if b then DSCHED_ERR_OUT_OF_RESOURCE else DSCHED_SUCCESS, Lt_dlinit # cs))"

definition dlibltddl_component_close :: "ddl_api \<Rightarrow> int \<times> lt_step list" where
  "dlibltddl_component_close A =
     (DSCHED_SUCCESS,
      (if have_advise A
       then [Lt_destroy True False, Lt_destroy True True, Lt_destroy False False, Lt_destroy False True]
       else []) @ [Lt_dlexit])"

subsection \<open>The framework\<close>

text \<open>A module as its table of functions, each of which may be missing.\<close>

record 'd dsched_ddl_base_module =
  md_open :: "(string option \<Rightarrow> bool \<Rightarrow> bool \<Rightarrow> err_msg \<Rightarrow> ddl_state
     \<Rightarrow> (int \<times> ptr option \<times> err_msg \<times> ddl_state) res) option"
  md_close :: "(ptr option \<Rightarrow> ddl_state \<Rightarrow> (int \<times> ddl_state) res) option"
  md_lookup :: "(ptr option \<Rightarrow> string \<Rightarrow> err_msg \<Rightarrow> ddl_state
     \<Rightarrow> (int \<times> nat option \<times> err_msg \<times> ddl_state) res) option"
  md_foreachfile :: "(string \<Rightarrow> (string \<Rightarrow> 'd \<Rightarrow> int \<times> 'd) \<Rightarrow> 'd \<Rightarrow> int \<times> 'd) option"

definition dsched_ddl_ddlopen_module :: "ddl_api \<Rightarrow> 'd dsched_ddl_base_module" where
  "dsched_ddl_ddlopen_module A =
     \<lparr>md_open = Some (ddlopen_open A), md_close = Some (ddlopen_close A),
      md_lookup = Some (ddlopen_lookup A), md_foreachfile = Some (ddlopen_foreachfile A)\<rparr>"

definition dsched_ddl_dlibltddl_module ::
  "ddl_api \<Rightarrow> (string \<Rightarrow> (string \<Rightarrow> 'd \<Rightarrow> int \<times> 'd) \<Rightarrow> 'd \<Rightarrow> int \<times> 'd) \<Rightarrow> 'd dsched_ddl_base_module" where
  "dsched_ddl_dlibltddl_module A foreach =
     \<lparr>md_open = Some (dlibltddl_open A), md_close = Some (dlibltddl_close A),
      md_lookup = Some (dlibltddl_lookup A), md_foreachfile = Some (dlibltddl_foreachfile foreach)\<rparr>"

text \<open>The selected component, by its name, and the selected module.\<close>

record 'd ddl_base =
  db_component :: "string option"
  db_module :: "'d dsched_ddl_base_module option"

text \<open>\<open>best\<close> is what \<open>pmix_mca_base_select\<close> finds.\<close>

definition dsched_ddl_base_select ::
  "(pmix_status \<times> string option \<times> 'd dsched_ddl_base_module option) \<Rightarrow> 'd ddl_base \<Rightarrow> pmix_status \<times> 'd ddl_base" where
  "dsched_ddl_base_select best b =
     (let (rc, component, module) = best
      in if rc \<noteq> PMIX_SUCCESS then (PMIX_ERROR, b)
         else (PMIX_SUCCESS, b\<lparr>db_component := component, db_module := module\<rparr>))"

definition dsched_ddl_open ::
  "'d ddl_base \<Rightarrow> string option \<Rightarrow> bool \<Rightarrow> bool \<Rightarrow> err_msg \<Rightarrow> ddl_state
     \<Rightarrow> (int \<times> ptr option \<times> err_msg \<times> ddl_state) res" where
  "dsched_ddl_open b fname use_ext private_namespace err s =
     (case Option.bind (db_module b) md_open of
        Some f \<Rightarrow> f fname use_ext private_namespace err s
      | None \<Rightarrow> Inr (DSCHED_ERR_NOT_SUPPORTED, None, err, s))"

text \<open>The lookup without a module leaves the caller's pointer as it was.\<close>

definition dsched_ddl_lookup ::
  "'d ddl_base \<Rightarrow> ptr option \<Rightarrow> string \<Rightarrow> nat option \<Rightarrow> err_msg \<Rightarrow> ddl_state
     \<Rightarrow> (int \<times> nat option \<times> err_msg \<times> ddl_state) res" where
  "dsched_ddl_lookup b handle symbol adr err s =
     (case Option.bind (db_module b) md_lookup of
        Some f \<Rightarrow> f handle symbol err s
      | None \<Rightarrow> Inr (DSCHED_ERR_NOT_SUPPORTED, adr, err, s))"

definition dsched_ddl_close :: "'d ddl_base \<Rightarrow> ptr option \<Rightarrow> ddl_state \<Rightarrow> (int \<times> ddl_state) res" where
  "dsched_ddl_close b handle s =
     (case Option.bind (db_module b) md_close of
        Some f \<Rightarrow> f handle s
      | None \<Rightarrow> Inr (DSCHED_ERR_NOT_SUPPORTED, s))"

definition dsched_ddl_foreachfile ::
  "'d ddl_base \<Rightarrow> string \<Rightarrow> (string \<Rightarrow> 'd \<Rightarrow> int \<times> 'd) \<Rightarrow> 'd \<Rightarrow> int \<times> 'd" where
  "dsched_ddl_foreachfile b search_path func data =
     (case Option.bind (db_module b) md_foreachfile of
        Some f \<Rightarrow> f search_path func data
      | None \<Rightarrow> (DSCHED_ERR_NOT_SUPPORTED, data))"

subsection \<open>Accounting of libraries\<close>

text \<open>
  The libraries the loader has opened, those it was told to close, and those
  that a live handle refers to, counted with their multiplicity.
\<close>

fun op_opened :: "dl_op \<Rightarrow> nat list" where
  "op_opened (Op_open how f (Some l)) = [l]"
| "op_opened _ = []"

fun op_closed :: "dl_op \<Rightarrow> nat list" where
  "op_closed (Op_close l) = [l]"
| "op_closed _ = []"

definition opened :: "dl_op list \<Rightarrow> nat multiset" where
  "opened ops = mset (concat (map op_opened ops))"

definition closed :: "dl_op list \<Rightarrow> nat multiset" where
  "closed ops = mset (concat (map op_closed ops))"

definition live_libs :: "(ptr \<rightharpoonup> dsched_ddl_handle) \<Rightarrow> nat multiset" where
  "live_libs hs = image_mset (\<lambda>p. h_lib (the (hs p))) (mset_set (dom hs))"

definition ddl_ok :: "ddl_state \<Rightarrow> bool" where
  "ddl_ok s \<longleftrightarrow> dom (dl_handles s) \<subseteq> {..<dl_fresh s}
     \<and> opened (dl_ops s) = closed (dl_ops s) + live_libs (dl_handles s)"

lemma live_libs_add:
  assumes "finite (dom hs)" and "hs p = None"
  shows "live_libs (hs(p \<mapsto> h)) = add_mset (h_lib h) (live_libs hs)"
proof -
  have "p \<notin> dom hs" using assms(2) by auto
  then have "image_mset (\<lambda>q. h_lib (the ((hs(p \<mapsto> h)) q))) (mset_set (dom hs)) = live_libs hs"
    unfolding live_libs_def by (intro image_mset_cong) (auto simp: assms(1))
  with \<open>p \<notin> dom hs\<close> assms(1) show ?thesis by (simp add: live_libs_def)
qed

lemma live_libs_remove:
  assumes "finite (dom hs)" and "hs p = Some h"
  shows "add_mset (h_lib h) (live_libs (hs(p := None))) = live_libs hs"
  using live_libs_add [of "hs(p := None)" p h] assms by (simp add: fun_upd_idem)

lemma ddl_ok_fresh:
  assumes "ddl_ok s"
  shows "dl_handles s (dl_fresh s) = None" and "finite (dom (dl_handles s))"
  using assms by (auto simp: ddl_ok_def intro: finite_subset)

lemma ddl_ok_emit:
  "op_opened x = [] \<Longrightarrow> op_closed x = [] \<Longrightarrow> ddl_ok (dl_emit x s) = ddl_ok s"
  by (simp add: ddl_ok_def dl_emit_def opened_def closed_def)

lemma ddl_ok_new:
  assumes "ddl_ok s"
  shows "ddl_ok (snd (new_handle A f l (dl_emit (Op_open how n (Some l)) s)))"
  using assms ddl_ok_fresh [OF assms]
  by (auto simp: ddl_ok_def new_handle_def dl_emit_def live_libs_add opened_def closed_def)

lemma ddl_ok_close:
  assumes "ddl_ok s" and "dl_handles s p = Some h"
  shows "ddl_ok ((dl_emit (Op_close (h_lib h)) s)\<lparr>dl_handles := (dl_handles s)(p := None)\<rparr>)"
  using assms live_libs_remove [OF ddl_ok_fresh(2) [OF assms(1)] assms(2)]
  by (auto simp: ddl_ok_def dl_emit_def opened_def closed_def)

subsection \<open>The contract of a module\<close>

text \<open>
  A module gives a handle exactly when it reports success, the handle is new,
  nothing but opening and closing changes the live handles, and closing a live
  handle removes it whatever the loader reports.
\<close>

locale ddl_module =
  fixes mopen :: "string option \<Rightarrow> bool \<Rightarrow> bool \<Rightarrow> err_msg \<Rightarrow> ddl_state \<Rightarrow> (int \<times> ptr option \<times> err_msg \<times> ddl_state) res"
    and mlookup :: "ptr option \<Rightarrow> string \<Rightarrow> err_msg \<Rightarrow> ddl_state \<Rightarrow> (int \<times> nat option \<times> err_msg \<times> ddl_state) res"
    and mclose :: "ptr option \<Rightarrow> ddl_state \<Rightarrow> (int \<times> ddl_state) res"
  assumes open_ok: "ddl_ok s \<Longrightarrow> mopen f e q err s = Inr (rc, h, err', s') \<Longrightarrow> ddl_ok s'"
    and open_handle: "mopen f e q err s = Inr (rc, h, err', s') \<Longrightarrow>
      (case h of None \<Rightarrow> rc = DSCHED_ERROR \<and> dl_handles s' = dl_handles s
       | Some p \<Rightarrow> rc = DSCHED_SUCCESS \<and> p = dl_fresh s \<and> (\<exists>x. dl_handles s' = (dl_handles s)(p \<mapsto> x)))"
    and lookup_ok: "ddl_ok s \<Longrightarrow> mlookup h y err s = Inr (rc, adr, err', s') \<Longrightarrow>
      ddl_ok s' \<and> dl_handles s' = dl_handles s \<and> (rc = DSCHED_SUCCESS \<longleftrightarrow> adr \<noteq> None)"
    and lookup_freed: "dl_handles s p = None \<Longrightarrow> mlookup (Some p) y err s = Inl UseAfterFree"
    and close_live: "dl_handles s p = Some x \<Longrightarrow>
      \<exists>ret s'. mclose (Some p) s = Inr (ret, s') \<and> dl_handles s' = (dl_handles s)(p := None)
        \<and> (ddl_ok s \<longrightarrow> ddl_ok s')"
    and close_freed: "dl_handles s p = None \<Longrightarrow> mclose (Some p) s = Inl UseAfterFree"
    and close_null: "mclose None s = Inl AssertFailed"
begin

lemma close_ok: "ddl_ok s \<Longrightarrow> mclose h s = Inr (ret, s') \<Longrightarrow> ddl_ok s'"
proof (cases h)
  case None
  then show "mclose h s = Inr (ret, s') \<Longrightarrow> ddl_ok s'" using close_null [of s] by simp
next
  case (Some p)
  then show "ddl_ok s \<Longrightarrow> mclose h s = Inr (ret, s') \<Longrightarrow> ddl_ok s'"
    using close_live [of s p] close_freed [of s p] by (cases "dl_handles s p") fastforce+
qed

lemma open_close:
  assumes "ddl_ok s" and "mopen f e q err s = Inr (DSCHED_SUCCESS, Some p, err', s1)"
  shows "\<exists>ret s2. mclose (Some p) s1 = Inr (ret, s2) \<and> dl_handles s2 = dl_handles s \<and> ddl_ok s2
     \<and> mclose (Some p) s2 = Inl UseAfterFree \<and> mlookup (Some p) y err2 s2 = Inl UseAfterFree"
proof -
  from open_handle [OF assms(2)] obtain x
    where x: "p = dl_fresh s" "dl_handles s1 = (dl_handles s)(p \<mapsto> x)" by auto
  then have "dl_handles s1 p = Some x" by simp
  from close_live [OF this] open_ok [OF assms] obtain ret s2
    where c: "mclose (Some p) s1 = Inr (ret, s2)" "dl_handles s2 = (dl_handles s1)(p := None)" "ddl_ok s2" by blast
  have "dl_handles s p = None" using ddl_ok_fresh(1) [OF assms(1)] x(1) by simp
  then have "dl_handles s2 = dl_handles s" using c(2) x(2) by (simp add: fun_upd_idem)
  with c \<open>dl_handles s p = None\<close> show ?thesis using close_freed lookup_freed by auto
qed

end

lemma live_handle_simps [simp]:
  "live_handle None s = Inl AssertFailed"
  "dl_handles s p = None \<Longrightarrow> live_handle (Some p) s = Inl UseAfterFree"
  "dl_handles s p = Some h \<Longrightarrow> live_handle (Some p) s = Inr (p, h)"
  by (simp_all add: live_handle_def)

lemma live_handle_Inr: "live_handle h s = Inr (p, x) \<longleftrightarrow> h = Some p \<and> dl_handles s p = Some x"
  by (auto simp: live_handle_def split: option.splits)

lemma dl_emit_handles [simp]:
  "dl_handles (dl_emit x s) = dl_handles s" "dl_fresh (dl_emit x s) = dl_fresh s"
  by (simp_all add: dl_emit_def)

text \<open>Trying suffixes makes at most one call into the loader.\<close>

lemma try_suffixes_calls:
  assumes "try_suffixes A f flags exts err s = (lib, err', s')"
  shows "(lib = None \<and> s' = s) \<or> (\<exists>n. s' = dl_emit (Op_open (Flags flags) n lib) s)"
  using assms
  by (induction A f flags exts err s rule: try_suffixes.induct) (auto simp: Let_def do_ddlopen_def split: if_splits)

lemma ddlopen_call_calls:
  assumes "ddlopen_call A f e flags err s = Inr (lib, err', s')"
  shows "(lib = None \<and> s' = s) \<or> (\<exists>n. s' = dl_emit (Op_open (Flags flags) n lib) s)"
proof (cases "e \<and> f \<noteq> None")
  case True
  with assms obtain exts where "try_suffixes A (the f) flags exts err s = (lib, err', s')"
    by (auto simp: ddlopen_call_def)
  then show ?thesis by (rule try_suffixes_calls)
next
  case False
  with assms show ?thesis by (auto simp: ddlopen_call_def do_ddlopen_def Let_def)
qed

lemma ddlopen_open_calls:
  assumes "ddlopen_open A f e q err s = Inr (rc, h, err', s')"
  obtains "h = None" "rc = DSCHED_ERROR" "s' = s"
  | how n where "h = None" "rc = DSCHED_ERROR" "s' = dl_emit (Op_open how n None) s"
  | how n l where "h = Some (dl_fresh s)" "rc = DSCHED_SUCCESS"
      "s' = snd (new_handle A f l (dl_emit (Op_open how n (Some l)) s))"
proof -
  let ?flags = "[RTLD_LAZY, if q then RTLD_LOCAL else RTLD_GLOBAL]"
  obtain lib err1 s1 where call: "ddlopen_call A f e ?flags err s = Inr (lib, err1, s1)"
    and res: "(rc, h, err', s') = opened_handle A f lib err1 s1"
    using assms unfolding ddlopen_open_def by force
  have step: "(lib = None \<and> s1 = s) \<or> (\<exists>n. s1 = dl_emit (Op_open (Flags ?flags) n lib) s)"
    using call by (rule ddlopen_call_calls)
  show thesis
  proof (cases lib)
    case None
    with step res that(1,2) show ?thesis by (auto simp: opened_handle_def)
  next
    case (Some l)
    with step obtain n where "s1 = dl_emit (Op_open (Flags ?flags) n (Some l)) s" by auto
    with Some res that(3) show ?thesis by (simp add: opened_handle_def new_handle_def)
  qed
qed

lemma dlibltddl_open_calls:
  assumes "dlibltddl_open A f e q err s = Inr (rc, h, err', s')"
  obtains how where "h = None" "rc = DSCHED_ERROR" "s' = dl_emit (Op_open how f None) s"
  | how l where "h = Some (dl_fresh s)" "rc = DSCHED_SUCCESS"
      "s' = snd (new_handle A f l (dl_emit (Op_open how f (Some l)) s))"
proof -
  let ?how = "if have_advise A then Advise q e else if e then Lt_openext else Lt_open"
  let ?lib = "ld_open A (dl_ops s) ?how f"
  show thesis
  proof (cases ?lib)
    case None
    with assms that(1) [of ?how] show ?thesis unfolding dlibltddl_open_def Let_def by (auto split: if_split_asm)
  next
    case (Some l)
    with assms that(2) [of l ?how] show ?thesis by (simp add: dlibltddl_open_def new_handle_def Let_def)
  qed
qed

lemma handles_of_new:
  "\<exists>x. dl_handles (snd (new_handle A f l (dl_emit op s))) = (dl_handles s)(dl_fresh s \<mapsto> x)"
  by (auto simp: new_handle_def)

interpretation ddlopen: ddl_module "ddlopen_open A" "ddlopen_lookup A" "ddlopen_close A" for A
proof unfold_locales
  fix s f e q err rc h err' s'
  assume op: "ddlopen_open A f e q err s = Inr (rc, h, err', s')"
  show "ddl_ok s \<Longrightarrow> ddl_ok s'" using op by (cases rule: ddlopen_open_calls) (simp_all add: ddl_ok_emit ddl_ok_new)
  show "case h of None \<Rightarrow> rc = DSCHED_ERROR \<and> dl_handles s' = dl_handles s
       | Some p \<Rightarrow> rc = DSCHED_SUCCESS \<and> p = dl_fresh s \<and> (\<exists>x. dl_handles s' = (dl_handles s)(p \<mapsto> x))"
    using op by (cases rule: ddlopen_open_calls) (simp_all add: handles_of_new)
next
  fix s h y err rc adr err' s'
  assume "ddl_ok s" "ddlopen_lookup A h y err s = Inr (rc, adr, err', s')"
  then show "ddl_ok s' \<and> dl_handles s' = dl_handles s \<and> (rc = DSCHED_SUCCESS \<longleftrightarrow> adr \<noteq> None)"
    by (auto simp: ddlopen_lookup_def Let_def ddl_ok_emit dsched_codes_distinct split: if_split_asm)
next
  fix s :: ddl_state and p x assume "dl_handles s p = Some x"
  then show "\<exists>ret s'. ddlopen_close A (Some p) s = Inr (ret, s') \<and> dl_handles s' = (dl_handles s)(p := None)
        \<and> (ddl_ok s \<longrightarrow> ddl_ok s')"
    using ddl_ok_close by (simp add: ddlopen_close_def Let_def)
qed (simp_all add: ddlopen_lookup_def ddlopen_close_def)

interpretation dlibltdl: ddl_module "dlibltddl_open A" "dlibltddl_lookup A" "dlibltddl_close A" for A
proof unfold_locales
  fix s f e q err rc h err' s'
  assume op: "dlibltddl_open A f e q err s = Inr (rc, h, err', s')"
  show "ddl_ok s \<Longrightarrow> ddl_ok s'" using op by (cases rule: dlibltddl_open_calls) (simp_all add: ddl_ok_emit ddl_ok_new)
  show "case h of None \<Rightarrow> rc = DSCHED_ERROR \<and> dl_handles s' = dl_handles s
       | Some p \<Rightarrow> rc = DSCHED_SUCCESS \<and> p = dl_fresh s \<and> (\<exists>x. dl_handles s' = (dl_handles s)(p \<mapsto> x))"
    using op by (cases rule: dlibltddl_open_calls) (simp_all add: handles_of_new)
next
  fix s h y err rc adr err' s'
  assume "ddl_ok s" "dlibltddl_lookup A h y err s = Inr (rc, adr, err', s')"
  then show "ddl_ok s' \<and> dl_handles s' = dl_handles s \<and> (rc = DSCHED_SUCCESS \<longleftrightarrow> adr \<noteq> None)"
    by (auto simp: dlibltddl_lookup_def Let_def ddl_ok_emit dsched_codes_distinct split: if_split_asm)
next
  fix s :: ddl_state and p x assume "dl_handles s p = Some x"
  then show "\<exists>ret s'. dlibltddl_close A (Some p) s = Inr (ret, s') \<and> dl_handles s' = (dl_handles s)(p := None)
        \<and> (ddl_ok s \<longrightarrow> ddl_ok s')"
    using ddl_ok_close by (simp add: dlibltddl_close_def Let_def)
qed (simp_all add: dlibltddl_lookup_def dlibltddl_close_def)

subsection \<open>Properties\<close>

definition ddl_selected :: "ddl_api \<Rightarrow> 'd ddl_base \<Rightarrow> bool" where
  "ddl_selected A b \<longleftrightarrow>
     (case db_module b of
        None \<Rightarrow> True
      | Some m \<Rightarrow> m = dsched_ddl_ddlopen_module A \<or> (\<exists>foreach. m = dsched_ddl_dlibltddl_module A foreach))"

text \<open>What the callers of the framework can reach.\<close>

inductive ddl_reachable :: "ddl_api \<Rightarrow> 'd ddl_base \<Rightarrow> ddl_state \<Rightarrow> bool" for A b where
  start: "dl_handles s = Map.empty \<Longrightarrow> dl_ops s = [] \<Longrightarrow> ddl_reachable A b s"
| open_lib: "ddl_reachable A b s \<Longrightarrow> dsched_ddl_open b f e q err s = Inr (rc, h, err', s') \<Longrightarrow> ddl_reachable A b s'"
| lookup: "ddl_reachable A b s \<Longrightarrow> dsched_ddl_lookup b h y adr err s = Inr (rc, adr', err', s') \<Longrightarrow> ddl_reachable A b s'"
| close_lib: "ddl_reachable A b s \<Longrightarrow> dsched_ddl_close b h s = Inr (ret, s') \<Longrightarrow> ddl_reachable A b s'"
| register: "ddl_reachable A b s \<Longrightarrow> ddlopen_component_register A v s = (rc, s') \<Longrightarrow> ddl_reachable A b s'"
| unregister: "ddl_reachable A b s \<Longrightarrow> ddlopen_component_close s = (rc, s') \<Longrightarrow> ddl_reachable A b s'"

lemmas ddl_base_defs = dsched_ddl_open_def dsched_ddl_lookup_def dsched_ddl_close_def
  dsched_ddl_ddlopen_module_def dsched_ddl_dlibltddl_module_def

text \<open>The wrappers are the functions of a module that keeps the contract, or refuse.\<close>

lemma selected_cases:
  assumes "ddl_selected A b"
  obtains "db_module b = None"
  | mo ml mc where "ddl_module mo ml mc" "dsched_ddl_open b = mo" "dsched_ddl_close b = mc"
      "\<And>h y adr. dsched_ddl_lookup b h y adr = ml h y"
proof -
  consider "db_module b = None" | "db_module b = Some (dsched_ddl_ddlopen_module A)"
    | foreach where "db_module b = Some (dsched_ddl_dlibltddl_module A foreach)"
    using assms by (auto simp: ddl_selected_def split: option.splits)
  then show thesis
  proof cases
    case 2
    then show ?thesis by (intro that(2) [OF ddlopen.ddl_module_axioms, of A]) (simp_all add: ddl_base_defs fun_eq_iff)
  next
    case (3 foreach)
    then show ?thesis by (intro that(2) [OF dlibltdl.ddl_module_axioms, of A]) (simp_all add: ddl_base_defs fun_eq_iff)
  qed (rule that(1))
qed

lemma base_keeps_ok:
  assumes "ddl_selected A b" and "ddl_ok s"
  shows "(dsched_ddl_open b f e q err s = Inr (rc, h, err', s') \<longrightarrow> ddl_ok s')
     \<and> (dsched_ddl_lookup b hdl y adr err s = Inr (rc, adr', err', s') \<longrightarrow> ddl_ok s')
     \<and> (dsched_ddl_close b hdl s = Inr (rc, s') \<longrightarrow> ddl_ok s')"
  using assms(1)
proof (cases rule: selected_cases)
  case 1
  then show ?thesis using assms(2) by (auto simp: ddl_base_defs)
next
  case (2 mo ml mc)
  then show ?thesis
    using ddl_module.open_ok [OF 2(1) assms(2)] ddl_module.lookup_ok [OF 2(1) assms(2)]
      ddl_module.close_ok [OF 2(1) assms(2)] by auto
qed

lemma ddl_ok_suffixes [simp]:
  "ddl_ok (s\<lparr>dl_suffixes := x\<rparr>) = ddl_ok s" "ddl_ok (s\<lparr>dl_suffixes_storage := y\<rparr>) = ddl_ok s"
  by (simp_all add: ddl_ok_def)

lemma reachable_ok: "ddl_reachable A b s \<Longrightarrow> ddl_selected A b \<Longrightarrow> ddl_ok s"
proof (induction rule: ddl_reachable.induct)
  case (start s)
  then show ?case by (simp add: ddl_ok_def opened_def closed_def live_libs_def)
next
  case (register s v rc s')
  then show ?case by (auto simp: ddlopen_component_register_def Let_def split: prod.splits if_splits)
next
  case (unregister s rc s')
  then show ?case by (auto simp: ddlopen_component_close_def split: if_splits)
qed (use base_keeps_ok in blast)+

text \<open>
  C13. Whatever the callers open, look up and close, through either module or
  none: every library the loader has opened was closed exactly as often as it
  was opened, but for the ones a live handle still refers to. No library is
  leaked and none is closed twice.
\<close>

theorem libraries_balanced:
  assumes "ddl_selected A b" and "ddl_reachable A b s"
  shows "opened (dl_ops s) = closed (dl_ops s) + live_libs (dl_handles s)
     \<and> (dl_handles s = Map.empty \<longrightarrow> opened (dl_ops s) = closed (dl_ops s))"
  using reachable_ok [OF assms(2,1)] by (simp add: ddl_ok_def live_libs_def)

definition sample_ddl_api :: ddl_api where
  "sample_ddl_api = \<lparr>ld_open = (\<lambda>ops how f. Some (length ops)), ld_sym = (\<lambda>ops l y. Some 7), ld_close = (\<lambda>ops l. 0),
     ld_error = (\<lambda>ops. Some ''error''), stat_reg = (\<lambda>n. if n = ''/lib/m.dll'' then Some True else None),
     readdir = (\<lambda>d. None), ddl_split = (\<lambda>s c. [''.so'', ''.dll'']), enable_debug = True, have_advise = True\<rparr>"

definition sample_ddl_state :: ddl_state where
  "sample_ddl_state = \<lparr>dl_ops = [], dl_handles = Map.empty, dl_fresh = 1,
     dl_suffixes = Some [''.so'', ''.dll''], dl_suffixes_storage = ''.so,.dll''\<rparr>"

definition sample_ddl_base :: "unit ddl_base" where
  "sample_ddl_base = \<lparr>db_component = Some ''ddlopen'', db_module = Some (dsched_ddl_ddlopen_module sample_ddl_api)\<rparr>"

lemma sample_ddl_opens:
  "\<exists>err s1. dsched_ddl_open sample_ddl_base (Some ''/lib/m'') True True (Some None) sample_ddl_state
       = Inr (DSCHED_SUCCESS, Some 1, err, s1)
     \<and> dl_ops s1 = [Op_open (Flags [RTLD_LAZY, RTLD_LOCAL]) (Some ''/lib/m.dll'') (Some 0)]
     \<and> live_libs (dl_handles s1) = {#0#}"
  by (simp add: ddl_base_defs sample_ddl_base_def sample_ddl_state_def sample_ddl_api_def ddlopen_open_def
      ddlopen_call_def do_ddlopen_def opened_handle_def new_handle_def dl_emit_def set_err_def live_libs_def Let_def)

lemma sample_ddl_start: "ddl_reachable sample_ddl_api sample_ddl_base sample_ddl_state"
  by (rule ddl_reachable.start) (simp_all add: sample_ddl_state_def)

lemma sample_ddl_selected: "ddl_selected sample_ddl_api sample_ddl_base"
  by (simp add: ddl_selected_def sample_ddl_base_def)

theorem libraries_balanced_witness:
  "\<exists>s. ddl_reachable sample_ddl_api sample_ddl_base s \<and> opened (dl_ops s) = {#0#}
     \<and> closed (dl_ops s) = {#} \<and> live_libs (dl_handles s) = {#0#}"
proof -
  obtain err s1 where s1: "dsched_ddl_open sample_ddl_base (Some ''/lib/m'') True True (Some None) sample_ddl_state
       = Inr (DSCHED_SUCCESS, Some 1, err, s1)" "live_libs (dl_handles s1) = {#0#}"
    "dl_ops s1 = [Op_open (Flags [RTLD_LAZY, RTLD_LOCAL]) (Some ''/lib/m.dll'') (Some 0)]"
    using sample_ddl_opens by auto
  have "ddl_reachable sample_ddl_api sample_ddl_base s1"
    using ddl_reachable.open_lib [OF sample_ddl_start s1(1)] .
  from libraries_balanced [OF sample_ddl_selected this] this s1(2,3) show ?thesis
    by (intro exI [of _ s1]) (simp add: opened_def closed_def)
qed

text \<open>
  C32. A library that was opened can be closed, which gives the handles as they
  were before, and any use of its handle afterwards touches freed memory.
\<close>

theorem ddl_open_close:
  assumes "ddl_selected A b" and "ddl_ok s"
    and "dsched_ddl_open b f e q err s = Inr (DSCHED_SUCCESS, Some p, err', s1)"
  shows "\<exists>ret s2. dsched_ddl_close b (Some p) s1 = Inr (ret, s2) \<and> dl_handles s2 = dl_handles s \<and> ddl_ok s2
     \<and> dsched_ddl_close b (Some p) s2 = Inl UseAfterFree
     \<and> dsched_ddl_lookup b (Some p) y adr err2 s2 = Inl UseAfterFree"
  using assms(1)
proof (cases rule: selected_cases)
  case 1
  with assms(3) show ?thesis by (simp add: ddl_base_defs)
next
  case (2 mo ml mc)
  from ddl_module.open_close [OF 2(1) assms(2)] assms(3) show ?thesis by (simp add: 2(2-4))
qed

theorem ddl_open_close_witness:
  "\<exists>s1 ret s2. dsched_ddl_close sample_ddl_base (Some 1) s1 = Inr (ret, s2) \<and> dl_handles s1 \<noteq> Map.empty
     \<and> dl_handles s2 = Map.empty \<and> dsched_ddl_close sample_ddl_base (Some 1) s2 = Inl UseAfterFree"
proof -
  have ok: "ddl_ok sample_ddl_state" using reachable_ok [OF sample_ddl_start sample_ddl_selected] .
  obtain err s1 where s1: "dsched_ddl_open sample_ddl_base (Some ''/lib/m'') True True (Some None) sample_ddl_state
       = Inr (DSCHED_SUCCESS, Some 1, err, s1)" "live_libs (dl_handles s1) = {#0#}"
    using sample_ddl_opens by auto
  have "dl_handles s1 \<noteq> Map.empty" using s1(2) by (auto simp: live_libs_def)
  moreover have "dl_handles sample_ddl_state = Map.empty" by (simp add: sample_ddl_state_def)
  ultimately show ?thesis using ddl_open_close [OF sample_ddl_selected ok s1(1)] by metis
qed

subsection \<open>What the scan reports\<close>

text \<open>Everything under the directories can be examined.\<close>

definition readable :: "ddl_api \<Rightarrow> string list \<Rightarrow> bool" where
  "readable A dirs \<longleftrightarrow>
     list_all (\<lambda>dir. case readdir A dir of None \<Rightarrow> False
       | Some es \<Rightarrow> list_all (\<lambda>e. stat_reg A (dir @ ''/'' @ e) \<noteq> None) es) dirs"

text \<open>The names of the regular files of one directory that are not skipped.\<close>

definition dir_bases :: "ddl_api \<Rightarrow> string \<Rightarrow> string list \<Rightarrow> string set" where
  "dir_bases A dir es =
     {b. \<exists>e\<in>set es. stat_reg A (dir @ ''/'' @ e) = Some True \<and> base_name (dir @ ''/'' @ e) = Some b}"

definition path_bases :: "ddl_api \<Rightarrow> string list \<Rightarrow> string set" where
  "path_bases A dirs = (\<Union>dir\<in>set dirs. case readdir A dir of None \<Rightarrow> {} | Some es \<Rightarrow> dir_bases A dir es)"

lemma dir_bases_simps:
  "dir_bases A dir [] = {}"
  "dir_bases A dir (e # es) =
     (if stat_reg A (dir @ ''/'' @ e) = Some True then set_option (base_name (dir @ ''/'' @ e)) else {}) \<union> dir_bases A dir es"
  by (auto simp: dir_bases_def)

lemma scan_entries_result:
  assumes "distinct good"
  shows "if list_all (\<lambda>e. stat_reg A (dir @ ''/'' @ e) \<noteq> None) es
     then \<exists>fs. scan_entries A dir es good = Inr fs \<and> distinct fs \<and> set fs = set good \<union> dir_bases A dir es
     else scan_entries A dir es good = Inl DSCHED_ERR_IN_ERRNO"
  using assms
proof (induction es arbitrary: good)
  case Nil
  then show ?case by (simp add: dir_bases_simps)
next
  case (Cons e es)
  show ?case
  proof (cases "stat_reg A (dir @ ''/'' @ e)")
    case None
    then show ?thesis by simp
  next
    case (Some reg)
    let ?good = "case base_name (dir @ ''/'' @ e) of None \<Rightarrow> good
       | Some b \<Rightarrow> if \<not> reg \<or> b \<in> set good then good else good @ [b]"
    have "distinct ?good" using Cons.prems by (simp split: option.split)
    from Cons.IH [OF this] Some show ?thesis
      by (auto simp: dir_bases_simps Let_def List.member_iff insert_absorb split: option.splits if_splits)
  qed
qed

lemma scan_dirs_result:
  assumes "distinct good"
  shows "if readable A dirs
     then \<exists>fs. scan_dirs A dirs good = Inr fs \<and> distinct fs \<and> set fs = set good \<union> path_bases A dirs
     else scan_dirs A dirs good = Inl DSCHED_ERR_IN_ERRNO"
  using assms
proof (induction dirs arbitrary: good)
  case Nil
  then show ?case by (simp add: readable_def path_bases_def)
next
  case (Cons dir dirs)
  show ?case
  proof (cases "readdir A dir")
    case None
    then show ?thesis by (simp add: readable_def)
  next
    case (Some es)
    show ?thesis
    proof (cases "list_all (\<lambda>e. stat_reg A (dir @ ''/'' @ e) \<noteq> None) es")
      case True
      then obtain fs where fs: "scan_entries A dir es good = Inr fs" "distinct fs"
        "set fs = set good \<union> dir_bases A dir es"
        using scan_entries_result [OF Cons.prems, of A dir es] by auto
      have "readable A (dir # dirs) = readable A dirs" using Some True by (simp add: readable_def)
      moreover have "path_bases A (dir # dirs) = dir_bases A dir es \<union> path_bases A dirs"
        using Some by (simp add: path_bases_def)
      ultimately show ?thesis using Cons.IH [OF fs(2)] Some fs by (auto simp: Un_assoc split: if_splits)
    next
      case False
      then have "scan_entries A dir es good = Inl DSCHED_ERR_IN_ERRNO"
        using scan_entries_result [OF Cons.prems, of A dir es] by (simp only: if_False)
      with Some False show ?thesis by (simp add: readable_def)
    qed
  qed
qed


definition sample_scan_api :: ddl_api where
  "sample_scan_api = sample_ddl_api\<lparr>stat_reg := (\<lambda>n. Some (n \<noteq> ''/lib/sub'')),
     readdir := (\<lambda>d. Some [''m.la'', ''m.so'', ''sub'', ''n.so'', ''m.dll'']), ddl_split := (\<lambda>s c. [''/lib''])\<rparr>"

lemma sample_scan_readable: "readable sample_scan_api (ddl_split sample_scan_api ''/lib'' CHR '':'')"
  by (simp add: readable_def sample_scan_api_def)


text \<open>
  The dot is looked for in the whole path: a file without a suffix in a
  directory whose name has a dot is reported under a part of the directory's
  name instead of its own.
\<close>

theorem suffixless_file_loses_name:
  assumes "CHR ''.'' \<notin> set post" and "CHR ''.'' \<notin> set name"
    and "\<forall>s\<in>{''.la'', ''.lo'', ''.o''}. CHR ''.'' # post @ ''/'' @ name \<noteq> s"
  shows "base_name ((pre @ CHR ''.'' # post) @ ''/'' @ name) = Some pre"
  using assms strrchr_last [of "CHR ''.''" "post @ CHR ''/'' # name" pre]
  by (simp add: base_name_def Let_def)

theorem suffixless_file_loses_name_witness:
  "base_name ''/opt/v1.2/plugin'' = Some ''/opt/v1''"
  using suffixless_file_loses_name [of "''2''" "''plugin''" "''/opt/v1''"] by simp

text \<open>
  With extensions, the first suffix for which a file exists decides: that
  file and no other is handed to the loader, also when the loader refuses it;
  when there is no file the loader is not called and the error message names
  the last one tried.
\<close>

theorem first_suffix_decides:
  assumes "dl_suffixes s = Some (miss @ rest)" and "\<forall>ext\<in>set miss. stat_reg A (f @ ext) = None"
    and "rest = [] \<or> stat_reg A (f @ hd rest) \<noteq> None"
  shows "ddlopen_open A (Some f) True q err s = Inr
     (if rest = []
      then (DSCHED_ERROR, None,
            (if miss = [] then err else set_err (Some (''File '' @ f @ last miss @ '' not found'')) err), s)
      else let (lib, err, s) = do_ddlopen A (Some (f @ hd rest))
                 [RTLD_LAZY, if q then RTLD_LOCAL else RTLD_GLOBAL] err s
           in opened_handle A (Some f) lib err s)"
proof -
  let ?flags = "[RTLD_LAZY, if q then RTLD_LOCAL else RTLD_GLOBAL]"
  have forget: "do_ddlopen A n ?flags (set_err m e) s = do_ddlopen A n ?flags e s" for n m e
    by (simp add: do_ddlopen_def set_err_def option.map_comp comp_def Let_def)
  have twice: "set_err m (set_err m' e) = set_err m e" for m m' e
    by (simp add: set_err_def option.map_comp comp_def)
  have "try_suffixes A f ?flags (miss @ rest) e s =
     (if rest = [] then (None, if miss = [] then e else set_err (Some (''File '' @ f @ last miss @ '' not found'')) e, s)
      else do_ddlopen A (Some (f @ hd rest)) ?flags e s)" for e
    using assms(2)
  proof (induction miss arbitrary: e)
    case Nil
    then show ?case using assms(3) by (cases rest) (auto simp: Let_def)
  next
    case (Cons m miss)
    then show ?case by (auto simp: forget twice Let_def)
  qed
  with assms(1) show ?thesis
    by (auto simp: ddlopen_open_def ddlopen_call_def opened_handle_def split: prod.splits)
qed

theorem first_suffix_decides_witness:
  "\<exists>err s1. ddlopen_open sample_ddl_api (Some ''/lib/m'') True False (Some None) sample_ddl_state
     = Inr (DSCHED_SUCCESS, Some 1, err, s1)
     \<and> dl_ops s1 = [Op_open (Flags [RTLD_LAZY, RTLD_GLOBAL]) (Some ''/lib/m.dll'') (Some 0)]"
  using first_suffix_decides [of sample_ddl_state "[''.so'']" "[''.dll'']" sample_ddl_api "''/lib/m''" False "Some None"]
  by (simp add: sample_ddl_state_def sample_ddl_api_def do_ddlopen_def opened_handle_def new_handle_def dl_emit_def
      set_err_def Let_def)

end
