(* ===== verification/Server_Setup.thy ===== *)
theory Server_Setup
  imports Tool_Connect
begin

text \<open>
  The PMIx server of the daemon (\<open>tools/dsched/server.c\<close>): what the library is
  told at start-up, the attributes that are announced, the handler that takes a
  tool off the list when its connection is lost, and the end.
\<close>

subsection \<open>Data\<close>

text \<open>
  An entry of the list that is handed to the library: a flag without a value, a
  string that may be null, a rank, a truth value or a pointer.
\<close>

datatype srv_val = S_true | S_string "string option" | S_rank u32 | S_bool bool | S_pointer "nat option"

type_synonym srv_entry = "pmix_key \<times> srv_val"

text \<open>The calls that change the library's state.\<close>

datatype srv_call =
    Call_tool_init "srv_entry list" | Call_attributes string "string list"
  | Call_handler pmix_status | Call_module | Call_tool_finalize

record server_state =
  sv_glob :: dsched_globals
  sv_calls :: "srv_call list"

text \<open>
  The library: adding to and converting an info list give a status and the
  entries, \<open>tool_init\<close> the status and the identifier it settled on,
  \<open>handler_status\<close> is what the registration of the handler reports through its
  callback.
\<close>

record server_api =
  list_add :: "srv_entry list \<Rightarrow> srv_entry \<Rightarrow> pmix_status \<times> srv_entry list"
  list_convert :: "srv_entry list \<Rightarrow> pmix_status \<times> srv_entry list"
  srv_join :: "string list \<Rightarrow> char \<Rightarrow> string"
  tool_init :: "pmix_proc \<Rightarrow> srv_entry list \<Rightarrow> pmix_status \<times> pmix_proc"
  register_attributes :: "string \<Rightarrow> string list \<Rightarrow> pmix_status"
  handler_status :: "pmix_status \<Rightarrow> pmix_status"
  set_module :: pmix_status
  tool_finalize :: pmix_status
  numeric_version :: nat

definition sv_emit :: "srv_call \<Rightarrow> server_state \<Rightarrow> server_state" where
  "sv_emit c s = s\<lparr>sv_calls := sv_calls s @ [c]\<rparr>"

subsection \<open>The attributes that are announced\<close>

definition query_attrs :: "string list" where
  "query_attrs =
     [''PMIX_QUERY_NAMESPACES'', ''PMIX_QUERY_NAMESPACE_INFO'', ''PMIX_QUERY_SPAWN_SUPPORT'',
      ''PMIX_QUERY_DEBUG_SUPPORT'', ''PMIX_HWLOC_XML_V1'', ''PMIX_HWLOC_XML_V2'', ''PMIX_PROC_URI'',
      ''PMIX_QUERY_PROC_TABLE'', ''PMIX_QUERY_LOCAL_PROC_TABLE'', ''PMIX_QUERY_NUM_PSETS'',
      ''PMIX_QUERY_PSET_NAMES'', ''PMIX_JOB_SIZE'', ''PMIX_QUERY_NUM_GROUPS'', ''PMIX_QUERY_GROUP_NAMES'',
      ''PMIX_QUERY_GROUP_MEMBERSHIP'']"

text \<open>The table ends with an empty function name.\<close>

definition dsched_attributes :: "server_api \<Rightarrow> (string \<times> string list) list" where
  "dsched_attributes A =
     [(''PMIx_Query_info'', query_attrs),
      (''PMIx_Query_info_nb'', query_attrs @ [''PMIX_QUERY_ALLOCATION'', ''PMIX_QUERY_ALLOC_STATUS'']),
      (''PMIx_Log'', [''NONE'']),
      (''PMIx_Log_nb'', [''NONE'']),
      (''PMIx_Register_event_handler'', [''NONE'']),
      (''PMIx_Deregister_event_handler'', [''N/A'']),
      (''PMIx_Notify_event'', [''NONE'']),
      (''PMIx_Allocate_resources'',
        [''PMIX_ALLOC_REQ_ID'', ''PMIX_ALLOC_NUM_NODES'', ''PMIX_ALLOC_NODE_LIST'', ''PMIX_ALLOC_NUM_CPUS'',
         ''PMIX_ALLOC_NUM_CPU_LIST'', ''PMIX_ALLOC_CPU_LIST'', ''PMIX_ALLOC_MEM_SIZE'', ''PMIX_ALLOC_TIME'',
         ''PMIX_ALLOC_QUEUE'', ''PMIX_ALLOC_PREEMPTIBLE''])]
     @ (if numeric_version A \<ge> 0x00050000
        then [(''PMIx_Session_control'',
                [''PMIX_SESSION_CTRL_ID'', ''PMIX_SESSION_APP'', ''PMIX_SESSION_PAUSE'', ''PMIX_SESSION_RESUME'',
                 ''PMIX_SESSION_TERMINATE'', ''PMIX_SESSION_PREEMPT'', ''PMIX_SESSION_RESTORE'',
                 ''PMIX_SESSION_SIGNAL'', ''PMIX_SESSION_COMPLETE''])]
        else [])
     @ [('''', [])]"

fun register_loop :: "server_api \<Rightarrow> (string \<times> string list) list \<Rightarrow> server_state \<Rightarrow> pmix_status \<times> server_state" where
  "register_loop A [] s = (PMIX_SUCCESS, s)"
| "register_loop A ((function, attrs) # table) s =
     (if function = [] then (PMIX_SUCCESS, s)
      else let rc = register_attributes A function attrs; s = sv_emit (Call_attributes function attrs) s
           in if rc \<noteq> PMIX_SUCCESS then (rc, s) else register_loop A table s)"

subsection \<open>Start-up\<close>

text \<open>
  The entries in the order the code adds them, each with whether the code looks
  at the status of adding it.
\<close>

definition server_entries :: "server_api \<Rightarrow> dsched_globals \<Rightarrow> (srv_entry \<times> bool) list" where
  "server_entries A g =
     [((PMIX_SERVER_SCHEDULER, S_true), True),
      ((PMIX_TOOL_NSPACE, S_string (Some (p_nspace (g_myid g)))), True),
      ((PMIX_TOOL_RANK, S_rank (p_rank (g_myid g))), True),
      ((PMIX_HOSTNAME, S_string (g_hostname g)), True)]
     @ (case g_aliases g of
          None \<Rightarrow> []
        | Some aliases \<Rightarrow> [((PMIX_HOSTNAME_ALIASES, S_string (Some (srv_join A aliases CHR '',''))), True)])
     @ [((PMIX_HOSTNAME_KEEP_FQDN, S_bool (g_keep_fqdn_hostnames g)), True),
        ((PMIX_EXTERNAL_AUX_EVENT_BASE, S_pointer (g_evbase g)), True),
        ((PMIX_SERVER_TMPDIR, S_string (g_tmpdir g)), True)]
     @ (case g_report_uri g of None \<Rightarrow> [] | Some uri \<Rightarrow> [((PMIX_TCP_REPORT_URI, S_string (Some uri)), True)])
     @ (case g_progress_thread_cpus g of
          None \<Rightarrow> []
        | Some cpus \<Rightarrow>
            [((PMIX_BIND_PROGRESS_THREAD, S_string (Some cpus)), False),
             ((PMIX_BIND_REQUIRED, S_bool (g_bind_progress_thread_reqd g)), False)])
     @ [((PMIX_SERVER_REMOTE_CONNECTIONS, S_true), True),
        ((PMIX_CONNECT_TO_SYS_CONTROLLER, S_true), True),
        ((PMIX_TOOL_CONNECT_OPTIONAL, S_true), True)]"

fun add_entries :: "server_api \<Rightarrow> (srv_entry \<times> bool) list \<Rightarrow> srv_entry list \<Rightarrow> pmix_status + srv_entry list" where
  "add_entries A [] ilist = Inr ilist"
| "add_entries A ((entry, checked) # entries) ilist =
     (let (rc, ilist) = list_add A ilist entry
      in if checked \<and> rc \<noteq> PMIX_SUCCESS then Inl rc else add_entries A entries ilist)"

text \<open>From the call of \<open>PMIx_tool_init\<close> on.\<close>

definition server_register :: "server_api \<Rightarrow> srv_entry list \<Rightarrow> server_state \<Rightarrow> pmix_status \<times> server_state" where
  "server_register A info s =
     (let (rc, myid) = tool_init A (g_myid (sv_glob s)) info;
          s = sv_emit (Call_tool_init info) (s\<lparr>sv_glob := (sv_glob s)\<lparr>g_myid := myid\<rparr>\<rparr>)
      in if rc \<noteq> PMIX_SUCCESS then (rc, s)
         else
           let (rc, s) = register_loop A (dsched_attributes A) s
           in if rc \<noteq> PMIX_SUCCESS then (rc, s)
              else
                let rc = handler_status A PMIX_ERR_LOST_CONNECTION; s = sv_emit (Call_handler PMIX_ERR_LOST_CONNECTION) s
                in if rc \<noteq> PMIX_SUCCESS then (rc, s)
                   else (set_module A, sv_emit Call_module s))"

definition dsched_server_init :: "server_api \<Rightarrow> server_state \<Rightarrow> pmix_status \<times> server_state" where
  "dsched_server_init A s =
     (if g_server_initialized (sv_glob s) then (PMIX_SUCCESS, s)
      else
        let s = s\<lparr>sv_glob := (sv_glob s)\<lparr>g_server_initialized := True\<rparr>\<rparr>
        in case add_entries A (server_entries A (sv_glob s)) [] of
             Inl rc \<Rightarrow> (rc, s)
           | Inr ilist \<Rightarrow>
               (let (rc, info) = list_convert A ilist
                in if rc \<noteq> PMIX_SUCCESS then (rc, s) else server_register A info s))"

definition dsched_server_finalize :: "server_api \<Rightarrow> server_state \<Rightarrow> server_state" where
  "dsched_server_finalize A s =
     (if \<not> g_server_initialized (sv_glob s) then s else sv_emit Call_tool_finalize s)"

subsection \<open>Lost connections\<close>

text \<open>The first tool on the list that matches is taken off; the entries are followed on the way.\<close>

fun remove_tool :: "(pmix_proc \<Rightarrow> bool) \<Rightarrow> (ptr \<rightharpoonup> pmix_proc) \<Rightarrow> ptr list \<Rightarrow> (ptr option \<times> ptr list) res" where
  "remove_tool match procs [] = Inr (None, [])"
| "remove_tool match procs (t # tools) =
     res_bind (deref (procs t)) (\<lambda>proc.
       if match proc then Inr (Some t, tools)
       else res_bind (remove_tool match procs tools) (\<lambda>(r, tools). Inr (r, t # tools)))"

text \<open>
  \<open>check_procid\<close> is \<open>PMIx_Check_procid\<close>. The result has the callbacks that were
  told the event is complete.
\<close>

definition lost_connection_hdlr ::
  "(pmix_proc \<Rightarrow> pmix_proc \<Rightarrow> bool) \<Rightarrow> pmix_proc \<Rightarrow> nat option \<Rightarrow> upcall_state \<Rightarrow> (nat list \<times> upcall_state) res" where
  "lost_connection_hdlr check_procid source cbfunc u =
     res_bind (remove_tool (\<lambda>proc. check_procid proc source) (u_procs u) (g_tools (u_glob u))) (\<lambda>(r, tools).
       let u = (case r of
                  None \<Rightarrow> u
                | Some t \<Rightarrow> u\<lparr>u_glob := (u_glob u)\<lparr>g_tools := tools\<rparr>, u_procs := (u_procs u)(t := None)\<rparr>)
       in Inr (case cbfunc of None \<Rightarrow> [] | Some f \<Rightarrow> [f], u))"

text \<open>The callback of a registration stores the status in the lock and wakes the waiting thread.\<close>

record pmix_lock =
  lk_status :: pmix_status
  lk_active :: bool

definition regcbfunc :: "pmix_status \<Rightarrow> pmix_lock \<Rightarrow> pmix_lock" where
  "regcbfunc status lock = lock\<lparr>lk_status := status, lk_active := False\<rparr>"

lemma server_entries_initialized [simp]:
  "server_entries A (g\<lparr>g_server_initialized := b\<rparr>) = server_entries A g"
  by (simp add: server_entries_def split: option.split)

subsection \<open>The contract of the library\<close>

text \<open>
  An info list keeps what is added to it, in order, and the calls of start-up
  succeed.
\<close>

locale server_lib =
  fixes A :: server_api
  assumes add: "list_add A l e = (PMIX_SUCCESS, l @ [e])"
    and convert: "list_convert A l = (PMIX_SUCCESS, l)"
    and init: "\<exists>q. tool_init A p l = (PMIX_SUCCESS, q)"
    and attributes: "register_attributes A f as = PMIX_SUCCESS"
    and handler: "handler_status A code = PMIX_SUCCESS"
    and "module": "set_module A = PMIX_SUCCESS"
begin

lemma add_entries_all: "add_entries A es l = Inr (l @ map fst es)"
  by (induction es arbitrary: l) (auto simp: add)

lemma register_all:
  "list_all (\<lambda>(f, as). f \<noteq> []) table \<Longrightarrow>
   register_loop A (table @ [([], [])]) s
     = (PMIX_SUCCESS, s\<lparr>sv_calls := sv_calls s @ map (\<lambda>(f, as). Call_attributes f as) table\<rparr>)"
  by (induction table arbitrary: s) (auto simp: attributes sv_emit_def Let_def)

lemma server_init_calls:
  assumes "\<not> g_server_initialized (sv_glob s)" and "dsched_attributes A = table @ [([], [])]"
    and "list_all (\<lambda>(f, as). f \<noteq> []) table"
  shows "\<exists>s'. dsched_server_init A s = (PMIX_SUCCESS, s') \<and> g_server_initialized (sv_glob s')
     \<and> sv_calls s' = sv_calls s @ Call_tool_init (map fst (server_entries A (sv_glob s)))
         # map (\<lambda>(f, as). Call_attributes f as) table @ [Call_handler PMIX_ERR_LOST_CONNECTION, Call_module]"
proof -
  let ?g = "(sv_glob s)\<lparr>g_server_initialized := True\<rparr>" and ?info = "map fst (server_entries A (sv_glob s))"
  obtain q where q: "tool_init A (g_myid ?g) ?info = (PMIX_SUCCESS, q)" using init by blast
  have "dsched_server_init A s = server_register A ?info (s\<lparr>sv_glob := ?g\<rparr>)"
    using assms(1) by (simp add: dsched_server_init_def add_entries_all convert)
  also have "\<dots> = (PMIX_SUCCESS, s\<lparr>sv_glob := ?g\<lparr>g_myid := q\<rparr>, sv_calls := sv_calls s @ Call_tool_init ?info
         # map (\<lambda>(f, as). Call_attributes f as) table @ [Call_handler PMIX_ERR_LOST_CONNECTION, Call_module]\<rparr>)"
    using q by (simp add: server_register_def assms(2) register_all [OF assms(3)] sv_emit_def handler "module")
  finally show ?thesis by simp
qed

end

text \<open>A library that accepts everything.\<close>

definition ref_server_api :: server_api where
  "ref_server_api = \<lparr>list_add = (\<lambda>l e. (PMIX_SUCCESS, l @ [e])), list_convert = (\<lambda>l. (PMIX_SUCCESS, l)),
     srv_join = (\<lambda>xs c. concat xs), tool_init = (\<lambda>p l. (PMIX_SUCCESS, p)),
     register_attributes = (\<lambda>f as. PMIX_SUCCESS), handler_status = (\<lambda>c. PMIX_SUCCESS),
     set_module = PMIX_SUCCESS, tool_finalize = PMIX_SUCCESS, numeric_version = 0x00060000\<rparr>"

interpretation ref_server: server_lib ref_server_api
  by unfold_locales (simp_all add: ref_server_api_def)

subsection \<open>Properties\<close>

definition announced :: "server_api \<Rightarrow> srv_call list" where
  "announced A = map (\<lambda>(f, as). Call_attributes f as) (butlast (dsched_attributes A))"

lemma attributes_table:
  "dsched_attributes A = butlast (dsched_attributes A) @ [([], [])]"
  "list_all (\<lambda>(f, as). f \<noteq> []) (butlast (dsched_attributes A))"
  by (simp_all add: dsched_attributes_def)


definition sample_server :: server_state where
  "sample_server = \<lparr>sv_glob = sample_globals, sv_calls = []\<rparr>"

lemma sample_server_fresh: "\<not> g_server_initialized (sv_glob sample_server)"
  by (simp add: sample_server_def sample_globals_def dsched_globals_init_def)


text \<open>
  The flag is set before the work is done: when the library's list refuses
  an entry, start-up fails without having initialised the library, and the end
  of the daemon finalises it all the same.
\<close>

theorem failed_start_finalizes:
  assumes "\<not> g_server_initialized (sv_glob s)" and "add_entries A (server_entries A (sv_glob s)) [] = Inl rc"
  shows "\<exists>s'. dsched_server_init A s = (rc, s') \<and> sv_calls s' = sv_calls s
     \<and> sv_calls (dsched_server_finalize A s') = sv_calls s @ [Call_tool_finalize]
     \<and> dsched_server_init A s' = (PMIX_SUCCESS, s')"
  using assms by (simp add: dsched_server_init_def dsched_server_finalize_def sv_emit_def)

theorem failed_start_finalizes_witness:
  "\<exists>s'. dsched_server_init (ref_server_api\<lparr>list_add := \<lambda>l e. (PMIX_ERROR, l)\<rparr>) sample_server = (PMIX_ERROR, s')
     \<and> sv_calls (dsched_server_finalize (ref_server_api\<lparr>list_add := \<lambda>l e. (PMIX_ERROR, l)\<rparr>) s') = [Call_tool_finalize]"
proof -
  let ?A = "ref_server_api\<lparr>list_add := \<lambda>l e. (PMIX_ERROR, l)\<rparr>"
  have "add_entries ?A (server_entries ?A (sv_glob sample_server)) [] = Inl PMIX_ERROR"
    by (simp add: server_entries_def)
  with failed_start_finalizes [OF sample_server_fresh] have "\<exists>s'. dsched_server_init ?A sample_server = (PMIX_ERROR, s')
     \<and> sv_calls (dsched_server_finalize ?A s') = sv_calls sample_server @ [Call_tool_finalize]" by blast
  then show ?thesis by (simp add: sample_server_def)
qed

text \<open>
  How \<open>PMIx_Check_procid\<close> compares two identifiers: the namespaces agree and the
  ranks agree or one of them is the wildcard.
\<close>

definition compares_procs :: "(pmix_proc \<Rightarrow> pmix_proc \<Rightarrow> bool) \<Rightarrow> u32 \<Rightarrow> bool" where
  "compares_procs check wild \<longleftrightarrow>
     (\<forall>p q. check p q \<longleftrightarrow> p_nspace p = p_nspace q \<and> (p_rank p = p_rank q \<or> p_rank p = wild \<or> p_rank q = wild))"

lemma remove_tool_last:
  assumes "list_all (\<lambda>t. \<exists>q. procs t = Some q \<and> \<not> match q) ts" and "procs t = Some p"
  shows "remove_tool match procs (ts @ [t]) = Inr (if match p then (Some t, ts) else (None, ts @ [t]))"
  using assms by (induction ts) auto

text \<open>
  C36. A tool is recorded with rank zero whatever its rank is, so when its
  connection is lost it is taken off the list exactly if its rank is zero; a
  tool of another rank stays on the list for ever. The event is completed once
  in either case.
\<close>

theorem tool_leaves_iff_rank_zero:
  assumes "compares_procs check wild" and "wild \<noteq> 0" and "r \<noteq> wild"
    and "register_tool A nspace u = (rc, u1)"
    and "source = \<lparr>p_nspace = load_ns A (Some nspace), p_rank = r\<rparr>"
    and "list_all (\<lambda>t. t < u_fresh u \<and> (\<exists>q. u_procs u t = Some q \<and> \<not> check q source)) (g_tools (u_glob u))"
  shows "\<exists>u2. lost_connection_hdlr check source (Some f) u1 = Inr ([f], u2)
     \<and> g_tools (u_glob u2) = (if r = 0 then g_tools (u_glob u) else g_tools (u_glob u) @ [u_fresh u])
     \<and> (r = 0 \<longrightarrow> u_procs u2 (u_fresh u) = None)"
proof -
  let ?p = "\<lparr>p_nspace = load_ns A (Some nspace), p_rank = 0 :: u32\<rparr>"
  have u1: "g_tools (u_glob u1) = g_tools (u_glob u) @ [u_fresh u]" "u_procs u1 = (u_procs u)(u_fresh u \<mapsto> ?p)"
    using assms(4) by (auto simp: register_tool_def Let_def split: prod.splits if_splits)
  have others: "list_all (\<lambda>t. \<exists>q. u_procs u1 t = Some q \<and> \<not> check q source) (g_tools (u_glob u))"
    using assms(6) by (auto simp: list_all_iff u1(2))
  have rem: "remove_tool (\<lambda>q. check q source) (u_procs u1)
      (g_tools (u_glob u1)) = Inr (if check ?p source then (Some (u_fresh u), g_tools (u_glob u))
        else (None, g_tools (u_glob u) @ [u_fresh u]))"
    unfolding u1(1) by (rule remove_tool_last [OF others]) (simp add: u1(2))
  have "check ?p source \<longleftrightarrow> r = 0" using assms(1-3) by (auto simp: compares_procs_def assms(5))
  with rem show ?thesis by (simp add: lost_connection_hdlr_def u1(1) Let_def)
qed

definition sample_check :: "pmix_proc \<Rightarrow> pmix_proc \<Rightarrow> bool" where
  "sample_check p q \<longleftrightarrow> p_nspace p = p_nspace q \<and> (p_rank p = p_rank q \<or> p_rank p = - 2 \<or> p_rank q = - 2)"

theorem tool_leaves_iff_rank_zero_witness:
  "\<exists>u1 u2. u1 = snd (register_tool sample_tool_api ''tool'' (upcall_start sample_globals))
     \<and> lost_connection_hdlr sample_check \<lparr>p_nspace = ''tool'', p_rank = 1\<rparr> (Some 5) u1 = Inr ([5], u2)
     \<and> g_tools (u_glob u2) = [0]"
proof -
  let ?u = "upcall_start sample_globals"
  have "compares_procs sample_check (- 2)" by (simp add: compares_procs_def sample_check_def)
  moreover have "(- 2 :: u32) \<noteq> 0" "(1 :: u32) \<noteq> - 2" by simp_all
  moreover obtain rc u1 where u1: "register_tool sample_tool_api ''tool'' ?u = (rc, u1)"
    by (cases "register_tool sample_tool_api ''tool'' ?u")
  moreover have "\<lparr>p_nspace = ''tool'', p_rank = 1\<rparr> = \<lparr>p_nspace = load_ns sample_tool_api (Some ''tool''), p_rank = 1 :: u32\<rparr>"
    by (simp add: sample_tool_api_def pmix_api.defs)
  moreover have "g_tools (u_glob ?u) = []" "u_fresh ?u = 0"
    by (simp_all add: upcall_start_def sample_globals_def dsched_globals_init_def)
  ultimately show ?thesis
    using tool_leaves_iff_rank_zero [of sample_check "- 2" 1 sample_tool_api "''tool''" ?u rc u1
        "\<lparr>p_nspace = ''tool'', p_rank = 1\<rparr>" 5] by auto
qed

end
