(* ===== verification/Daemon_Process.thy ===== *)
theory Daemon_Process
  imports Server_Setup Session_Dir
begin

text \<open>
  The process of the daemon: detaching from the terminal
  (\<open>util/dsched_daemon_init.c\<close>), the parent that waits for it, the protection
  against running as root, and the handling of signals
  (\<open>tools/dsched/dsched.c\<close>).
\<close>

subsection \<open>Detaching\<close>

datatype fd_target = Null_device | Opened string

type_synonym fd_table = "int \<rightharpoonup> fd_target"

text \<open>
  The system: what \<open>fork\<close> gives, which directories can be entered, and the
  descriptor that opening \<open>/dev/null\<close> gives with the open ones, negative on
  failure.
\<close>

record process_api =
  fork_result :: int
  chdir_ok :: "string \<Rightarrow> bool"
  open_null :: "fd_table \<Rightarrow> int"

definition dup2 :: "int \<Rightarrow> int \<Rightarrow> fd_table \<Rightarrow> fd_table" where
  "dup2 old new T = (case T old of None \<Rightarrow> T | Some x \<Rightarrow> T(new \<mapsto> x))"

text \<open>The parent ends with a status or waits for ever; the child returns.\<close>

datatype daemon_result = Parent_exits int | Parent_waits | Child_returns int fd_table

definition dsched_daemon_init_callback ::
  "process_api \<Rightarrow> string option \<Rightarrow> (int \<Rightarrow> int option) option \<Rightarrow> fd_table \<Rightarrow> daemon_result" where
  "dsched_daemon_init_callback P working_dir parent_fn T =
     (let pid = fork_result P
      in if pid < 0 then Child_returns DSCHED_ERROR T
         else if pid \<noteq> 0 then
           (case parent_fn of
              None \<Rightarrow> Parent_exits 0
            | Some f \<Rightarrow> (case f pid of None \<Rightarrow> Parent_waits | Some rc \<Rightarrow> Parent_exits rc))
         else if (case working_dir of None \<Rightarrow> False | Some d \<Rightarrow> \<not> chdir_ok P d) then Child_returns DSCHED_ERR_FATAL T
         else
           let fd = open_null P T
           in if 0 > fd then Child_returns DSCHED_ERR_FATAL T
              else
                let T = dup2 fd 0 (T(fd \<mapsto> Null_device));
                    T = (if fd \<noteq> 0 then T(fd := None) else T);
                    fd = open_null P T
                in if fd \<ge> 0 then
                     (let T = dup2 fd 2 (dup2 fd 1 (T(fd \<mapsto> Null_device)))
                      in Child_returns DSCHED_SUCCESS (if fd \<noteq> 1 \<and> fd \<noteq> 2 then T(fd := None) else T))
                   else Child_returns DSCHED_ERR_FATAL T)"

text \<open>
  The parent reads one byte from the pipe, again when the call is interrupted.
  The results of the successive calls are a list; when it ends, the parent is
  still waiting.
\<close>

datatype read_result = R_interrupted | R_error | R_eof | R_byte char

fun read_reply :: "read_result list \<Rightarrow> read_result option" where
  "read_reply [] = None"
| "read_reply (R_interrupted # rs) = read_reply rs"
| "read_reply (r # rs) = Some r"

text \<open>\<open>exited\<close> gives the exit status of a process that ended normally.\<close>

definition wait_dvm :: "read_result list \<Rightarrow> (int \<Rightarrow> int option) \<Rightarrow> int \<Rightarrow> int option" where
  "wait_dvm reads exited pid =
     (case read_reply reads of
        None \<Rightarrow> None
      | Some r \<Rightarrow>
          if r = R_byte CHR ''K'' then Some 0
          else if r = R_eof then Some (case exited pid of Some status \<Rightarrow> status | None \<Rightarrow> 255)
          else Some 255)"

subsection \<open>Running as root\<close>

text \<open>True when the function returns, false when it ends the process with status 1.\<close>

definition allow_run_as_root :: "(string \<Rightarrow> bool) \<Rightarrow> (string \<Rightarrow> string option) \<Rightarrow> bool" where
  "allow_run_as_root is_taken getenv =
     (if is_taken ''allow-run-as-root'' then True
      else (case (getenv ''DSCHED_ALLOW_RUN_AS_ROOT'', getenv ''DSCHED_ALLOW_RUN_AS_ROOT_CONFIRM'') of
          (Some r1, Some r2) \<Rightarrow> r1 = ''1'' \<and> r2 = ''1''
        | _ \<Rightarrow> False))"

subsection \<open>The globals, the server and the session directory\<close>

record daemon =
  d_glob :: dsched_globals
  d_calls :: "srv_call list"
  d_tmpdir_created :: bool
  d_setup_complete :: bool
  d_dir_ops :: "dir_op list"

definition d_server :: "daemon \<Rightarrow> server_state" where
  "d_server d = \<lparr>sv_glob = d_glob d, sv_calls = d_calls d\<rparr>"

definition set_server :: "server_state \<Rightarrow> daemon \<Rightarrow> daemon" where
  "set_server s d = d\<lparr>d_glob := sv_glob s, d_calls := sv_calls s\<rparr>"

definition d_session :: "daemon \<Rightarrow> session_dir" where
  "d_session d = \<lparr>sd_tmpdir_created = d_tmpdir_created d, sd_setup_base_complete = d_setup_complete d,
     sd_glob = d_glob d, sd_ops = d_dir_ops d\<rparr>"

definition set_session :: "session_dir \<Rightarrow> daemon \<Rightarrow> daemon" where
  "set_session s d = d\<lparr>d_tmpdir_created := sd_tmpdir_created s, d_setup_complete := sd_setup_base_complete s,
     d_glob := sd_glob s, d_dir_ops := sd_ops s\<rparr>"

text \<open>The two calls with which every orderly end finishes.\<close>

definition shut_down :: "server_api \<Rightarrow> daemon \<Rightarrow> daemon" where
  "shut_down A d =
     (let d = set_server (dsched_server_finalize A (d_server d)) d
      in set_session (dsched_session_dir_finalize (d_session d)) d)"

subsection \<open>Signals\<close>

text \<open>
  \<open>ab_pipe\<close> counts the bytes in the pipe that wakes the event loop, \<open>ab_armed\<close>
  tells whether the event on it is pending; the event fires once.
\<close>

record abort_state =
  ab_daemon :: daemon
  ab_keepalive :: bool
  ab_locked :: bool
  ab_forcibly_die :: bool
  ab_first :: bool
  ab_second :: bool
  ab_pipe :: nat
  ab_armed :: bool
  ab_exit :: "int option"

definition clean_abort :: "server_api \<Rightarrow> bool \<Rightarrow> abort_state \<Rightarrow> abort_state" where
  "clean_abort A arg s =
     (if ab_keepalive s \<and> \<not> arg then s
      else if ab_locked s then
        (if ab_forcibly_die s then s\<lparr>ab_exit := Some 1\<rparr>
         else s\<lparr>ab_forcibly_die := True, ab_armed := True\<rparr>)
      else
        let d = ab_daemon s;
            d = d\<lparr>d_glob := DSCHED_UPDATE_EXIT_STATUS 1 (d_glob d)\<rparr>
        in s\<lparr>ab_locked := True, ab_daemon := shut_down A d, ab_exit := Some 1\<rparr>)"

text \<open>\<open>written\<close> tells whether the write of the handler succeeds.\<close>

definition abort_signal_callback :: "server_api \<Rightarrow> bool \<Rightarrow> abort_state \<Rightarrow> abort_state" where
  "abort_signal_callback A written s =
     (if ab_first s then
        let s = s\<lparr>ab_first := False\<rparr>
        in if written then s\<lparr>ab_pipe := Suc (ab_pipe s)\<rparr> else s\<lparr>ab_exit := Some 1\<rparr>
      else if ab_second s then
        if written then s\<lparr>ab_second := False\<rparr> else s\<lparr>ab_exit := Some 1\<rparr>
      else s\<lparr>ab_daemon := shut_down A (ab_daemon s), ab_exit := Some 1\<rparr>)"

text \<open>
  The keepalive handler completes the event of the library and posts the clean
  abort with an argument; it runs from the event loop.
\<close>

definition parent_died_fn :: "nat \<Rightarrow> nat list \<times> nat \<Rightarrow> nat list \<times> nat" where
  "parent_died_fn cbfunc st = (case st of (completed, posted) \<Rightarrow> (completed @ [cbfunc], Suc posted))"

text \<open>The callback of the registration of that handler.\<close>

definition evhandler_reg_callbk :: "pmix_status \<Rightarrow> pmix_lock \<Rightarrow> pmix_lock" where
  "evhandler_reg_callbk status lock = lock\<lparr>lk_status := status, lk_active := False\<rparr>"

text \<open>What can happen to the process while it has not ended.\<close>

datatype abort_event = Signal bool | Term_event | Parent_died

inductive abort_step :: "server_api \<Rightarrow> abort_event \<Rightarrow> abort_state \<Rightarrow> abort_state \<Rightarrow> bool" for A where
  signal: "ab_exit s = None \<Longrightarrow> abort_step A (Signal w) s (abort_signal_callback A w s)"
| term_event: "ab_exit s = None \<Longrightarrow> ab_armed s \<Longrightarrow> 0 < ab_pipe s \<Longrightarrow>
    abort_step A Term_event s (clean_abort A False (s\<lparr>ab_armed := False\<rparr>))"
| parent_died: "ab_exit s = None \<Longrightarrow> abort_step A Parent_died s (clean_abort A True s)"

inductive abort_run :: "server_api \<Rightarrow> abort_event list \<Rightarrow> abort_state \<Rightarrow> abort_state \<Rightarrow> bool" for A where
  none: "abort_run A [] s s"
| more: "abort_run A es s t \<Longrightarrow> abort_step A e t u \<Longrightarrow> abort_run A (es @ [e]) s u"

inductive_cases abort_stepE: "abort_step A e s t"

definition abort_start :: "bool \<Rightarrow> daemon \<Rightarrow> abort_state" where
  "abort_start keepalive d =
     \<lparr>ab_daemon = d, ab_keepalive = keepalive, ab_locked = False, ab_forcibly_die = False, ab_first = True,
      ab_second = True, ab_pipe = 0, ab_armed = True, ab_exit = None\<rparr>"

subsection \<open>Properties\<close>

text \<open>
  C34. The child of a successful fork has its three standard streams on the
  null device and every other descriptor as before, whichever descriptors the
  system gives, also when a standard stream was closed at first.
\<close>

theorem detached_streams:
  assumes "fork_result P = 0" and "case wd of None \<Rightarrow> True | Some d \<Rightarrow> chdir_ok P d"
    and "\<forall>S. dom S \<subseteq> insert 0 (dom T) \<longrightarrow> 0 \<le> open_null P S \<and> S (open_null P S) = None"
  shows "dsched_daemon_init_callback P wd f T
     = Child_returns DSCHED_SUCCESS (\<lambda>k. if k \<in> {0, 1, 2} then Some Null_device else T k)"
proof -
  let ?fd = "open_null P T"
  have fd: "0 \<le> ?fd" "T ?fd = None" using assms(3) by auto
  define S where "S = (let S = dup2 ?fd 0 (T(?fd \<mapsto> Null_device)) in if ?fd \<noteq> 0 then S(?fd := None) else S)"
  have S: "S = T(0 \<mapsto> Null_device)" using fd by (auto simp: S_def dup2_def fun_eq_iff Let_def)
  let ?fd2 = "open_null P S"
  have "dom S \<subseteq> insert 0 (dom T)" unfolding S by auto
  then have fd2: "0 \<le> ?fd2" "S ?fd2 = None" using assms(3) by auto
  have "dsched_daemon_init_callback P wd f T = Child_returns DSCHED_SUCCESS
     (let R = dup2 ?fd2 2 (dup2 ?fd2 1 (S(?fd2 \<mapsto> Null_device))) in if ?fd2 \<noteq> 1 \<and> ?fd2 \<noteq> 2 then R(?fd2 := None) else R)"
    using assms(1,2) fd fd2 unfolding S_def Let_def
    by (simp add: dsched_daemon_init_callback_def Let_def split: option.splits)
  also have "(let R = dup2 ?fd2 2 (dup2 ?fd2 1 (S(?fd2 \<mapsto> Null_device))) in if ?fd2 \<noteq> 1 \<and> ?fd2 \<noteq> 2 then R(?fd2 := None) else R)
     = (\<lambda>k. if k \<in> {0, 1, 2} then Some Null_device else T k)"
    using fd2 by (auto simp: dup2_def S fun_eq_iff Let_def split: if_splits)
  finally show ?thesis .
qed

theorem detached_streams_witness:
  "dsched_daemon_init_callback \<lparr>fork_result = 0, chdir_ok = (\<lambda>d. True), open_null = (\<lambda>T. 5)\<rparr> None None
       [0 \<mapsto> Opened ''tty'', 1 \<mapsto> Opened ''tty'', 3 \<mapsto> Opened ''log'']
     = Child_returns DSCHED_SUCCESS (\<lambda>k. if k \<in> {0, 1, 2} then Some Null_device
          else [0 \<mapsto> Opened ''tty'', 1 \<mapsto> Opened ''tty'', 3 \<mapsto> Opened ''log''] k)"
proof (rule detached_streams)
  show "\<forall>S. dom S \<subseteq> insert 0 (dom [0 \<mapsto> Opened ''tty'', 1 \<mapsto> Opened ''tty'', 3 \<mapsto> Opened ''log'']) \<longrightarrow>
    0 \<le> open_null \<lparr>fork_result = 0, chdir_ok = (\<lambda>d. True), open_null = (\<lambda>T. 5)\<rparr> S
    \<and> S (open_null \<lparr>fork_result = 0, chdir_ok = (\<lambda>d. True), open_null = (\<lambda>T. 5)\<rparr> S) = None" by auto
qed simp_all

text \<open>
  The program never writes to the pipe the parent reads from. Without a
  byte the parent of a detached daemon does not return as long as the daemon
  runs, and reports the status of its end when the pipe is closed.
\<close>

theorem parent_waits_for_end:
  assumes "set reads \<subseteq> {R_interrupted, R_eof}"
  shows "wait_dvm reads exited pid
     = (if R_eof \<in> set reads then Some (case exited pid of Some status \<Rightarrow> status | None \<Rightarrow> 255) else None)"
proof -
  have "read_reply reads = (if R_eof \<in> set reads then Some R_eof else None)"
    using assms by (induction reads rule: read_reply.induct) auto
  then show ?thesis by (simp add: wait_dvm_def)
qed

theorem parent_waits_for_end_witness:
  "wait_dvm [R_interrupted, R_eof] (\<lambda>pid. Some 3) 7 = Some 3"
  using parent_waits_for_end [of "[R_interrupted, R_eof]" "\<lambda>pid. Some 3" 7] by simp

text \<open>
  The invariant of the signal handling: as long as the process runs, nothing has
  been shut down, and each of the first two signals has cleared one flag.
\<close>

definition signals :: "abort_event list \<Rightarrow> nat" where
  "signals es = length (filter (\<lambda>e. case e of Signal w \<Rightarrow> True | _ \<Rightarrow> False) es)"

definition abort_inv :: "server_api \<Rightarrow> daemon \<Rightarrow> abort_event list \<Rightarrow> abort_state \<Rightarrow> bool" where
  "abort_inv A d es s \<longleftrightarrow>
     (case ab_exit s of
        None \<Rightarrow> ab_daemon s = d \<and> \<not> ab_locked s
          \<and> signals es = (if ab_first s then 0 else 1) + (if ab_second s then 0 else 1)
          \<and> (ab_first s \<longrightarrow> ab_second s)
      | Some code \<Rightarrow> code = 1 \<and>
          (ab_daemon s = shut_down A d \<or> ab_daemon s = shut_down A (d\<lparr>d_glob := DSCHED_UPDATE_EXIT_STATUS 1 (d_glob d)\<rparr>)
           \<or> (ab_daemon s = d \<and> Signal False \<in> set es)))"

lemma signals_simps [simp]:
  "signals [] = 0" "signals (es @ [Signal w]) = Suc (signals es)" "signals (es @ [Term_event]) = signals es"
  "signals (es @ [Parent_died]) = signals es"
  by (simp_all add: signals_def)

lemma abort_step_inv:
  assumes "abort_inv A d es s" and "abort_step A e s t"
  shows "abort_inv A d (es @ [e]) t"
  using assms(2)
proof cases
  case (signal w)
  with assms(1) show ?thesis
    by (cases w) (auto simp: abort_inv_def abort_signal_callback_def Let_def)
next
  case term_event
  with assms(1) show ?thesis by (auto simp: abort_inv_def clean_abort_def Let_def)
next
  case parent_died
  with assms(1) show ?thesis by (auto simp: abort_inv_def clean_abort_def Let_def)
qed

lemma abort_run_inv: "abort_run A es s t \<Longrightarrow> s = abort_start keepalive d \<Longrightarrow> abort_inv A d es t"
proof (induction rule: abort_run.induct)
  case (none s)
  then show ?case by (simp add: abort_inv_def abort_start_def)
next
  case (more es s t e u)
  then show ?case using abort_step_inv by blast
qed


definition sample_daemon :: daemon where
  "sample_daemon = \<lparr>d_glob = sample_globals, d_calls = [], d_tmpdir_created = False, d_setup_complete = False,
     d_dir_ops = []\<rparr>"

lemma two_signals_run:
  "\<exists>s. abort_run ref_server_api [Signal True, Signal True] (abort_start True sample_daemon) s \<and> ab_exit s = None
     \<and> \<not> ab_first s \<and> \<not> ab_second s"
proof -
  let ?s = "abort_start True sample_daemon" and ?A = ref_server_api
  let ?t = "abort_signal_callback ?A True ?s"
  let ?u = "abort_signal_callback ?A True ?t"
  have "abort_run ?A ([] @ [Signal True]) ?s ?t"
    by (rule abort_run.more [OF abort_run.none]) (rule abort_step.signal, simp add: abort_start_def)
  then have "abort_run ?A (([] @ [Signal True]) @ [Signal True]) ?s ?u"
    by (rule abort_run.more) (rule abort_step.signal, simp add: abort_start_def abort_signal_callback_def)
  then show ?thesis by (auto simp: abort_start_def abort_signal_callback_def)
qed


text \<open>
  The first signal leads to an orderly end through the event loop, except
  when the daemon watches a keepalive pipe: then the request is dropped and the
  event that would take it is not pending any more.
\<close>

theorem first_signal_orderly:
  assumes "abort_step A (Signal True) (abort_start keepalive d) s"
  shows "\<exists>t. abort_step A Term_event s t
     \<and> (if keepalive then ab_exit t = None \<and> ab_daemon t = d \<and> \<not> ab_armed t
        else ab_exit t = Some 1 \<and> ab_daemon t = shut_down A (d\<lparr>d_glob := DSCHED_UPDATE_EXIT_STATUS 1 (d_glob d)\<rparr>))"
proof -
  have s: "s = abort_signal_callback A True (abort_start keepalive d)"
    using assms by (cases rule: abort_stepE) auto
  then have "abort_step A Term_event s (clean_abort A False (s\<lparr>ab_armed := False\<rparr>))"
    by (intro abort_step.term_event) (simp_all add: abort_start_def abort_signal_callback_def)
  then show ?thesis
    by (intro exI conjI) (auto simp: s abort_start_def abort_signal_callback_def clean_abort_def Let_def)
qed

theorem first_signal_orderly_witness:
  "\<exists>s t. abort_step ref_server_api (Signal True) (abort_start False sample_daemon) s
     \<and> abort_step ref_server_api Term_event s t \<and> ab_exit t = Some 1"
proof -
  have "abort_step ref_server_api (Signal True) (abort_start False sample_daemon)
      (abort_signal_callback ref_server_api True (abort_start False sample_daemon))"
    by (rule abort_step.signal) (simp add: abort_start_def)
  with first_signal_orderly [OF this] show ?thesis by auto
qed

end
