(* ===== verification/Daemon_Main.thy ===== *)
theory Daemon_Main
  imports Daemon_Process Runtime_Init Mca_Params Mca_Select
begin

text \<open>
  The main program of the daemon (\<open>tools/dsched/dsched.c\<close>): start-up in phases,
  in the order of the code, and the common end.
\<close>

subsection \<open>State\<close>

text \<open>What the process writes and changes outside the libraries.\<close>

datatype out_event =
    Out_stdout string | Out_stderr string | Out_fd int string | Out_close int
  | Out_file string string | Out_unlink string | Out_keepalive_handler | Out_setsid

record 's main_state =
  ms_daemon :: daemon
  ms_rt :: rt_state
  ms_params :: params_state
  ms_env :: environ
  ms_fw :: frameworks
  ms_mod :: 's
  ms_keepalive :: bool
  ms_ready_msg :: bool
  ms_pidfile :: "string option"
  ms_fds :: fd_table
  ms_nodes :: "ptr \<rightharpoonup> dsched_node"
  ms_fresh :: ptr
  ms_out :: "out_event list"

text \<open>
  The platform and the libraries. \<open>m_params\<close> gives the parameter system for an
  environment, since registration reads it; \<open>m_status\<close> is the number of a
  status; \<open>m_parse\<close> and \<open>m_tail\<close> are what parsing the command line reports and
  leaves over, joined with blanks; \<open>m_array\<close> is the status of setting up the
  arrays of nodes, sessions and topologies.
\<close>

record 's main_api =
  m_rt :: rt_api
  m_params :: "environ \<Rightarrow> params_api"
  m_server :: server_api
  m_session :: dir_api
  m_process :: process_api
  m_wait :: "int \<Rightarrow> int option"
  m_meta :: "'s fw_env"
  m_sched :: "'s fw_env"
  m_metric :: "'s fw_env"
  m_priority :: int
  m_status :: "pmix_status \<Rightarrow> int"
  m_argv0 :: string
  m_basename :: "string \<Rightarrow> string"
  m_parse :: pmix_status
  m_tail :: "string option"
  m_taken :: "string \<Rightarrow> bool"
  m_param :: "string \<Rightarrow> string list option"
  m_is_root :: bool
  m_term_pipe :: bool
  m_wait_pipe :: "(int \<times> int) option"
  m_array :: "nat \<Rightarrow> pmix_status"
  m_load_nspace :: "string \<Rightarrow> string"
  m_fopen :: "string \<Rightarrow> bool"
  m_array_add :: "parray \<Rightarrow> ptr \<Rightarrow> parray \<times> int"

text \<open>
  How a phase ends: it goes on, jumps to the common end with the value of \<open>ret\<close>,
  leaves the program at once with a status, faults, or does not return.
\<close>

datatype 'a ctl = Go 'a | Goto_done int 'a | Leave int 'a | Fault fault | Hang

definition ctl_bind :: "'a ctl \<Rightarrow> ('a \<Rightarrow> 'a ctl) \<Rightarrow> 'a ctl" where
  "ctl_bind c f =
     (case c of Go x \<Rightarrow> f x | Goto_done r x \<Rightarrow> Goto_done r x | Leave r x \<Rightarrow> Leave r x | Fault e \<Rightarrow> Fault e | Hang \<Rightarrow> Hang)"

definition of_res :: "'b res \<Rightarrow> ('b \<Rightarrow> 'a ctl) \<Rightarrow> 'a ctl" where
  "of_res r f = (case r of Inl e \<Rightarrow> Fault e | Inr x \<Rightarrow> f x)"

definition m_glob :: "'s main_state \<Rightarrow> dsched_globals" where
  "m_glob s = d_glob (ms_daemon s)"

definition set_glob :: "dsched_globals \<Rightarrow> 's main_state \<Rightarrow> 's main_state" where
  "set_glob g s = s\<lparr>ms_daemon := (ms_daemon s)\<lparr>d_glob := g\<rparr>\<rparr>"

definition m_emit :: "out_event \<Rightarrow> 's main_state \<Rightarrow> 's main_state" where
  "m_emit x s = s\<lparr>ms_out := ms_out s @ [x]\<rparr>"

fun code_int :: "(pmix_status \<Rightarrow> int) \<Rightarrow> rcode \<Rightarrow> int" where
  "code_int st (DS n) = n"
| "code_int st (PX rc) = st rc"

subsection \<open>The phases of start-up\<close>

text \<open>The name of the program, the runtime and the pipe for signals. The process id is assigned to itself.\<close>

definition main_init :: "'s main_api \<Rightarrow> 's main_state \<Rightarrow> 's main_state ctl" where
  "main_init A s =
     (let g = (m_glob s)\<lparr>g_basename := Some (m_basename A (m_argv0 A)), g_pid := g_pid (m_glob s)\<rparr>;
          rt = (ms_rt s)\<lparr>rt_event := (rt_event (ms_rt s))\<lparr>ev_glob := g\<rparr>\<rparr>
      in case dsched_init_util (m_rt A) rt of
           None \<Rightarrow> Hang
         | Some r \<Rightarrow> of_res r (\<lambda>(ret, rt).
             let s = set_glob (ev_glob (rt_event rt)) (s\<lparr>ms_rt := rt\<rparr>); n = code_int (m_status A) ret
             in if n \<noteq> DSCHED_SUCCESS then Leave n s
                else if \<not> m_term_pipe A then Leave 1 s else Go s))"

text \<open>The command line: no arguments but the options are accepted.\<close>

definition main_cmdline :: "'s main_api \<Rightarrow> 's main_state \<Rightarrow> 's main_state ctl" where
  "main_cmdline A s =
     (if m_parse A \<noteq> PMIX_SUCCESS then
        Leave (if m_parse A = PMIX_OPERATION_SUCCEEDED then m_status A PMIX_SUCCESS else m_status A (m_parse A)) s
      else if (case m_tail A of None \<Rightarrow> False | Some str \<Rightarrow> str \<noteq> m_argv0 A) then Leave (- 1) s
      else Go s)"

definition main_root :: "'s main_api \<Rightarrow> 's main_state \<Rightarrow> 's main_state ctl" where
  "main_root A s =
     (if m_is_root A \<and> \<not> allow_run_as_root (m_taken A) (ms_env s) then Leave 1 s else Go s)"

text \<open>Parameter files, the command line and registration; the status of the first two is not looked at.\<close>

definition main_params :: "'s main_api \<Rightarrow> 's main_state \<Rightarrow> 's main_state ctl" where
  "main_params A s =
     of_res (dsched_preload_default_mca_params (m_params A (ms_env s)) (rt_dirs (ms_rt s)) (m_glob s) (ms_env s))
       (\<lambda>(rc, env, warnings).
     of_res (dsched_process_cli_mca_params (m_param A) env) (\<lambda>(rc, env).
     of_res (dsched_register_params (m_params A env) (rt_dirs (ms_rt s)) ((ms_params s)\<lparr>ps_glob := m_glob s\<rparr>))
       (\<lambda>(ret, ps).
         let s = set_glob (ps_glob ps) (s\<lparr>ms_env := env, ms_params := ps\<rparr>)
         in if ret \<noteq> DSCHED_SUCCESS then Leave ret s else Go s)))"

text \<open>The identity of the daemon; the rank is the low 32 bits of the number.\<close>

definition main_identity :: "'s main_api \<Rightarrow> 's main_state \<Rightarrow> 's main_state ctl" where
  "main_identity A s =
     of_res
       (case ms_env s ''PMIX_SERVER_NSPACE'' of
          Some evar \<Rightarrow> Inr (m_load_nspace A evar)
        | None \<Rightarrow>
            res_bind (deref (g_basename (m_glob s))) (\<lambda>basename.
            res_bind (deref (g_hostname (m_glob s))) (\<lambda>hostname.
              Inr (m_load_nspace A (basename @ ''-'' @ hostname @ ''-'' @ nat_dec (unat (g_pid (m_glob s))))))))
       (\<lambda>nspace.
         let rank = (case ms_env s ''PMIX_SERVER_RANK'' of
                       Some evar \<Rightarrow> ucast (fst (strtoul evar)) | None \<Rightarrow> 0)
         in Go (set_glob ((m_glob s)\<lparr>g_myid := \<lparr>p_nspace = nspace, p_rank = rank\<rparr>\<rparr>) s))"

text \<open>The arrays and lists of the globals; the status of the last array is not looked at.\<close>

definition main_arrays :: "'s main_api \<Rightarrow> 's main_state \<Rightarrow> 's main_state ctl" where
  "main_arrays A s =
     (let s = set_glob ((m_glob s)\<lparr>g_nodes := []\<rparr>) s
      in if m_array A 0 \<noteq> PMIX_SUCCESS then Goto_done (m_status A (m_array A 0)) s
         else let s = set_glob ((m_glob s)\<lparr>g_sessions := []\<rparr>) s
         in if m_array A 1 \<noteq> PMIX_SUCCESS then Goto_done (m_status A (m_array A 1)) s
         else let s = set_glob ((m_glob s)\<lparr>g_topologies := []\<rparr>) s
         in if m_array A 2 \<noteq> PMIX_SUCCESS then Goto_done (m_status A (m_array A 2)) s
         else Go (set_glob ((m_glob s)\<lparr>g_requests := [], g_tools := []\<rparr>) s))"

text \<open>One framework: open, then select.\<close>

definition open_select ::
  "'s main_api \<Rightarrow> (frameworks \<Rightarrow> 's \<Rightarrow> pmix_status \<times> frameworks \<times> 's)
     \<Rightarrow> (frameworks \<Rightarrow> 's \<Rightarrow> pmix_status \<times> frameworks \<times> 's) \<Rightarrow> 's main_state \<Rightarrow> 's main_state ctl" where
  "open_select A op sel s =
     (let (ret, F, x) = op (ms_fw s) (ms_mod s); s = s\<lparr>ms_fw := F, ms_mod := x\<rparr>
      in if ret \<noteq> PMIX_SUCCESS then Goto_done (m_status A ret) s
         else let (ret, F, x) = sel (ms_fw s) (ms_mod s); s = s\<lparr>ms_fw := F, ms_mod := x\<rparr>
              in if ret \<noteq> PMIX_SUCCESS then Goto_done (m_status A ret) s else Go s)"

definition main_frameworks :: "'s main_api \<Rightarrow> 's main_state \<Rightarrow> 's main_state ctl" where
  "main_frameworks A s =
     ctl_bind (open_select A (dsched_dmeta_base_open (m_meta A)) (dsched_dmeta_base_select (m_meta A) (m_priority A)) s)
       (\<lambda>s. ctl_bind (open_select A (dsched_dsched_base_open (m_sched A)) (dsched_dsched_base_select (m_sched A) (m_priority A)) s)
         (open_select A (dsched_dmetric_base_open (m_metric A)) (dsched_dmetric_base_select (m_metric A) (m_priority A))))"

definition first_arg :: "string list \<Rightarrow> string res" where
  "first_arg vs = (case vs of [] \<Rightarrow> Inl NullDeref | v # _ \<Rightarrow> Inr v)"

text \<open>The keepalive pipe and debugging.\<close>

definition main_keepalive :: "'s main_api \<Rightarrow> 's main_state \<Rightarrow> 's main_state ctl" where
  "main_keepalive A s =
     (case m_param A ''keepalive'' of
        None \<Rightarrow> Go s
      | Some vs \<Rightarrow> of_res (first_arg vs) (\<lambda>v.
          Go (s\<lparr>ms_keepalive := True, ms_env := setenv ''PMIX_KEEPALIVE_PIPE'' v True (ms_env s)\<rparr>)))"

definition main_debug :: "'s main_api \<Rightarrow> 's main_state \<Rightarrow> 's main_state ctl" where
  "main_debug A s =
     (if m_taken A ''debug'' then
        let g = (m_glob s)\<lparr>g_debug := True\<rparr>
        in if g_verbosity g \<le> 0 then
             (let (opened, ps) = open_verbose (m_params A (ms_env s)) ((ms_params s)\<lparr>ps_glob := g\<lparr>g_verbosity := 10\<rparr>\<rparr>)
              in Go (set_glob (ps_glob ps) (s\<lparr>ms_params := ps\<rparr>)))
           else Go (set_glob g s)
      else Go s)"

definition main_daemonize :: "'s main_api \<Rightarrow> 's main_state \<Rightarrow> 's main_state ctl" where
  "main_daemonize A s =
     (if m_taken A ''daemonize'' then
        (case m_wait_pipe A of
           None \<Rightarrow> Goto_done DSCHED_ERR_SILENT s
         | Some (rd, wr) \<Rightarrow>
             (let s = set_glob ((m_glob s)\<lparr>g_parent_fd := wr\<rparr>) s;
                  T = (ms_fds s)(rd \<mapsto> Opened ''wait'', wr \<mapsto> Opened ''wait'')
              in case dsched_daemon_init_callback (m_process A) None (Some (m_wait A)) T of
                   Parent_exits n \<Rightarrow> Leave n s
                 | Parent_waits \<Rightarrow> Hang
                 | Child_returns rc T \<Rightarrow>
                     (let s = s\<lparr>ms_fds := T(rd := None)\<rparr>
                      in Go (if m_taken A ''set-sid'' then m_emit Out_setsid s else s))))
      else Go s)"

definition main_options :: "'s main_api \<Rightarrow> 's main_state \<Rightarrow> 's main_state ctl" where
  "main_options A s =
     ctl_bind (main_keepalive A s) (\<lambda>s.
     ctl_bind (main_debug A s) (\<lambda>s.
     ctl_bind (main_daemonize A s) (\<lambda>s.
       let s = (if m_taken A ''no-ready-msg'' then s\<lparr>ms_ready_msg := False\<rparr> else s)
       in case m_param A ''report-uri'' of
            None \<Rightarrow> Go s
          | Some vs \<Rightarrow> of_res (first_arg vs) (\<lambda>v. Go (set_glob ((m_glob s)\<lparr>g_report_uri := Some v\<rparr>) s)))))"

text \<open>
  The process id goes to standard output or error or to a file as a line, or to
  a descriptor as a string.
\<close>

definition newline :: string where
  "newline = [CHR 0x0A]"

definition main_report_pid :: "'s main_api \<Rightarrow> 's main_state \<Rightarrow> 's main_state ctl" where
  "main_report_pid A s =
     (let pid = nat_dec (unat (g_pid (m_glob s)))
      in case m_param A ''report-pid'' of
           None \<Rightarrow> Go s
         | Some vs \<Rightarrow> of_res (first_arg vs) (\<lambda>v.
             if v = ''-'' then Go (m_emit (Out_stdout (pid @ newline)) s)
             else if v = ''+'' then Go (m_emit (Out_stderr (pid @ newline)) s)
             else let (n, leftover) = strtol v
                  in if leftover = [] then Go (m_emit (Out_close (int_of_u64 (word_of_int n)))
                       (m_emit (Out_fd (int_of_u64 (word_of_int n)) pid) s))
                     else if \<not> m_fopen A v then Goto_done 0 (set_glob (DSCHED_UPDATE_EXIT_STATUS 1 (m_glob s)) s)
                     else Go ((m_emit (Out_file v (pid @ newline)) s)\<lparr>ms_pidfile := Some v\<rparr>)))"

text \<open>The session directory, the server and, with a keepalive pipe, the handler that watches it.\<close>

definition main_servers :: "'s main_api \<Rightarrow> 's main_state \<Rightarrow> 's main_state ctl" where
  "main_servers A s =
     (let (rc, sd) = dsched_session_dir_init (m_session A) (d_session (ms_daemon s));
          s = s\<lparr>ms_daemon := set_session sd (ms_daemon s)\<rparr>
      in if rc \<noteq> PMIX_SUCCESS
         then Goto_done (m_status A rc) (set_glob (DSCHED_UPDATE_EXIT_STATUS (m_status A rc) (m_glob s)) s)
         else
           let (rc, sv) = dsched_server_init (m_server A) (d_server (ms_daemon s));
               s = s\<lparr>ms_daemon := set_server sv (ms_daemon s)\<rparr>
           in if rc \<noteq> PMIX_SUCCESS
              then Goto_done (m_status A rc) (set_glob ((m_glob s)\<lparr>g_exit_status := DSCHED_ERR_SILENT\<rparr>) s)
              else Go (if m_taken A ''keepalive'' then m_emit Out_keepalive_handler s else s))"

text \<open>The nodes of the pool, with a name of two digits.\<close>

definition two_digits :: "nat \<Rightarrow> string" where
  "two_digits n = (if n < 10 then ''0'' else '''') @ nat_dec n"

fun add_nodes :: "'s main_api \<Rightarrow> nat list \<Rightarrow> 's main_state \<Rightarrow> 's main_state" where
  "add_nodes A [] s = s"
| "add_nodes A (n # ns) s =
     (let p = ms_fresh s;
          node = dsched_node_construct\<lparr>n_name := Some (''foo'' @ two_digits n), n_slots := int n + 3\<rparr>;
          s = s\<lparr>ms_fresh := Suc p, ms_nodes := (ms_nodes s)(p \<mapsto> node)\<rparr>;
          g = (m_glob s)\<lparr>g_nodes := fst (m_array_add A (g_nodes (m_glob s)) p)\<rparr>
      in add_nodes A ns (set_glob g s))"

definition main_ready :: "'s main_api \<Rightarrow> 's main_state \<Rightarrow> 's main_state ctl" where
  "main_ready A s =
     (let s = add_nodes A [0..<5] s
      in if ms_ready_msg s
         then of_res (deref (g_hostname (m_glob s))) (\<lambda>h.
           Go (m_emit (Out_stderr (''Scheduler checking in as pid '' @ nat_dec (unat (g_pid (m_glob s)))
                @ '' on host '' @ h @ newline)) s))
         else Go s)"

text \<open>Everything up to the event loop.\<close>

definition main_start :: "'s main_api \<Rightarrow> 's main_state \<Rightarrow> 's main_state ctl" where
  "main_start A s =
     ctl_bind (main_init A s) (\<lambda>s.
     ctl_bind (main_cmdline A s) (\<lambda>s.
     ctl_bind (main_root A s) (\<lambda>s.
     ctl_bind (main_params A s) (\<lambda>s.
     ctl_bind (main_identity A s) (\<lambda>s.
     ctl_bind (main_arrays A s) (\<lambda>s.
     ctl_bind (main_frameworks A s) (\<lambda>s.
     ctl_bind (main_options A s) (\<lambda>s.
     ctl_bind (main_report_pid A s) (\<lambda>s.
     ctl_bind (main_servers A s) (main_ready A))))))))))"

subsection \<open>The end\<close>

definition main_done :: "'s main_api \<Rightarrow> int \<Rightarrow> 's main_state \<Rightarrow> int \<times> 's main_state" where
  "main_done A ret s =
     (let s = set_glob (DSCHED_UPDATE_EXIT_STATUS ret (m_glob s)) s;
          s = (case ms_pidfile s of None \<Rightarrow> s | Some f \<Rightarrow> m_emit (Out_unlink f) s);
          s = s\<lparr>ms_daemon := shut_down (m_server A) (ms_daemon s)\<rparr>
      in (g_exit_status (m_glob s), s))"

text \<open>The program runs in the event loop, or it has ended, faults, or hangs.\<close>

datatype 's main_result = Running "'s main_state" | Exited int "'s main_state" | Crashed fault | Stuck

definition main :: "'s main_api \<Rightarrow> 's main_state \<Rightarrow> 's main_result" where
  "main A s =
     (case main_start A s of
        Go s \<Rightarrow> Running s
      | Goto_done ret s \<Rightarrow> (let (code, s) = main_done A ret s in Exited code s)
      | Leave code s \<Rightarrow> Exited code s
      | Fault e \<Rightarrow> Crashed e
      | Hang \<Rightarrow> Stuck)"

end
