(* ===== verification/Daemon_Properties.thy ===== *)
theory Daemon_Properties
  imports Daemon_Main
begin

text \<open>
  The phases of start-up: how they follow each other, the globals they leave
  alone, and the nodes the last one adds to the pool.
\<close>

subsection \<open>Sequences of phases\<close>

lemma ctl_bind_Go: "ctl_bind c f = Go t \<longleftrightarrow> (\<exists>x. c = Go x \<and> f x = Go t)"
  by (cases c) (simp_all add: ctl_bind_def)

lemma ctl_bind_GoE:
  assumes "ctl_bind c f = Go t"
  obtains x where "c = Go x" "f x = Go t"
  using assms that by (cases c) (simp_all add: ctl_bind_def)

lemma ctl_bind_done:
  "ctl_bind c f = Goto_done r t \<longleftrightarrow> c = Goto_done r t \<or> (\<exists>x. c = Go x \<and> f x = Goto_done r t)"
  by (cases c) (simp_all add: ctl_bind_def)

lemma ctl_bind_simps [simp]: "ctl_bind (Go x) f = f x" "ctl_bind (Leave r x) f = Leave r x"
  by (simp_all add: ctl_bind_def)

lemma of_res_Go: "of_res r f = Go t \<longleftrightarrow> (\<exists>x. r = Inr x \<and> f x = Go t)"
  by (cases r) (simp_all add: of_res_def)

lemma of_res_done: "of_res r f = Goto_done n t \<longleftrightarrow> (\<exists>x. r = Inr x \<and> f x = Goto_done n t)"
  by (cases r) (simp_all add: of_res_def)

lemmas ctl_Go = ctl_bind_Go of_res_Go
lemmas ctl_done = ctl_bind_done of_res_done

lemma m_glob_simps [simp]:
  "m_glob (set_glob g s) = g" "m_glob (m_emit x s) = m_glob s"
  "m_glob (s\<lparr>ms_env := e\<rparr>) = m_glob s" "m_glob (s\<lparr>ms_params := ps\<rparr>) = m_glob s"
  "m_glob (s\<lparr>ms_rt := rt\<rparr>) = m_glob s" "m_glob (s\<lparr>ms_fw := F\<rparr>) = m_glob s" "m_glob (s\<lparr>ms_mod := x'\<rparr>) = m_glob s"
  "m_glob (s\<lparr>ms_keepalive := b\<rparr>) = m_glob s" "m_glob (s\<lparr>ms_ready_msg := b\<rparr>) = m_glob s"
  "m_glob (s\<lparr>ms_pidfile := f\<rparr>) = m_glob s" "m_glob (s\<lparr>ms_fds := T\<rparr>) = m_glob s"
  "m_glob (s\<lparr>ms_daemon := d\<rparr>) = d_glob d"
  "m_glob (s\<lparr>ms_nodes := N\<rparr>) = m_glob s" "m_glob (s\<lparr>ms_fresh := p\<rparr>) = m_glob s"
  by (simp_all add: m_glob_def set_glob_def m_emit_def)

subsection \<open>Globals that start-up never sets\<close>

text \<open>The process id, the number of available nodes and, but for two phases, the node pool.\<close>

definition untouched_globals :: "dsched_globals \<Rightarrow> u32 \<times> int \<times> parray" where
  "untouched_globals g = (g_pid g, g_avail_nnodes g, g_nodes g)"

lemma strip_untouched:
  "untouched_globals (strip_prefixes H h g) = untouched_globals g"
  "strip_fqdn H g = Inr g' \<Longrightarrow> untouched_globals g' = untouched_globals g"
  by (auto simp: strip_prefixes_def strip_fqdn_def untouched_globals_def Let_def split: option.splits if_splits)

lemma event_base_untouched:
  "untouched_globals (ev_glob (snd (dsched_event_base_open n e))) = untouched_globals (ev_glob e)"
  by (simp add: dsched_event_base_open_def untouched_globals_def Let_def)

lemma untouched_updates:
  "untouched_globals (g\<lparr>g_aliases := a\<rparr>) = untouched_globals g"
  "untouched_globals (g\<lparr>g_evactive := b\<rparr>) = untouched_globals g"
  by (simp_all add: untouched_globals_def)

lemma init_host_untouched:
  assumes "init_host R s = Inr (ret, s')"
  shows "untouched_globals (ev_glob (rt_event s')) = untouched_globals (ev_glob (rt_event s))"
proof -
  let ?g = "ev_glob (rt_event s)"
  let ?g1 = "strip_prefixes (host R) (gethostname R) (?g\<lparr>g_aliases := ifgetaliases R (g_aliases ?g)\<rparr>)"
  obtain g2 where g2: "strip_fqdn (host R) ?g1 = Inr g2" using assms unfolding init_host_def Let_def by auto
  obtain rc e where e: "dsched_event_base_open (event_new R) ((rt_event s)\<lparr>ev_glob := g2\<rparr>) = (rc, e)" by fastforce
  have "untouched_globals (ev_glob e) = untouched_globals g2"
    using event_base_untouched [of "event_new R" "(rt_event s)\<lparr>ev_glob := g2\<rparr>"] e by simp
  moreover have "untouched_globals g2 = untouched_globals ?g"
    using strip_untouched(2) [OF g2] by (simp add: strip_untouched(1) untouched_updates)
  moreover have "ev_glob (rt_event s') = ev_glob e \<or> ev_glob (rt_event s') = (ev_glob e)\<lparr>g_evactive := True\<rparr>"
    using assms g2 e by (auto simp: init_host_def Let_def split: if_splits)
  ultimately show ?thesis by (auto simp: untouched_updates)
qed

lemma init_util_untouched:
  assumes "dsched_init_util R s = Some (Inr (ret, s'))"
  shows "untouched_globals (ev_glob (rt_event s')) = untouched_globals (ev_glob (rt_event s))"
proof -
  have lib: "untouched_globals (ev_glob (rt_event t')) = untouched_globals (ev_glob (rt_event t))"
    if "init_library R t = Inr (r, t')" for t t' r
    using that init_host_untouched by (fastforce simp: init_library_def Let_def split: if_splits)
  consider "ev_glob (rt_event s') = ev_glob (rt_event s)"
    | t where "init_library R t = Inr (ret, s')" "rt_event t = rt_event s"
    using assms unfolding dsched_init_util_def Let_def
    by (fastforce split: if_splits sum.splits prod.splits option.splits bind_splits)
  then show ?thesis using lib by cases auto
qed

text \<open>What the registration of the parameters leaves alone.\<close>

definition params_keep ::
  "dsched_globals \<Rightarrow> (u32 \<times> int \<times> parray) \<times> string option \<times> string option \<times> bool \<times> string option" where
  "params_keep g = (untouched_globals g, g_hostname g, g_basename g, g_server_initialized g, g_prohibited_session_dirs g)"

lemma open_verbose_keeps:
  "params_keep (ps_glob (snd (open_verbose P s))) = params_keep (ps_glob s)"
  "params_keep (ps_glob (open_server_verbose P b s)) = params_keep (ps_glob s)"
  by (simp_all add: open_verbose_def open_server_verbose_def open_stream_def set_verbosity_def params_keep_def untouched_globals_def Let_def)

lemma register_params_cases:
  assumes "dsched_register_params P D s = Inr (rc, s')" and "\<not> ps_passed_thru s"
  obtains files b u n where
    "u = snd (open_verbose P (s\<lparr>ps_passed_thru := True, ps_opened := Suc (ps_opened s),
        ps_glob := register_files P files ((ps_glob s)\<lparr>g_clean_output := output_open P (ps_opened s),
          g_tmpdir := reg_string P ''tmpdir'' None\<rparr>)\<rparr>))"
    "ps_glob s' = register_threads P (ps_glob (open_server_verbose P b (u\<lparr>ps_gen_verbose := n\<rparr>)))"
  using assms by (auto simp: dsched_register_params_def open_stream_def Let_def split_beta intro: that)

lemma register_params_keeps:
  assumes "dsched_register_params P D s = Inr (rc, s')"
  shows "params_keep (ps_glob s') = params_keep (ps_glob s)"
proof (cases "ps_passed_thru s")
  case True
  with assms show ?thesis by (simp add: dsched_register_params_def)
next
  case False
  have files: "params_keep (register_files P files g) = params_keep g"
    "params_keep (register_threads P g) = params_keep g" for files g
    by (simp_all add: register_files_def register_threads_def params_keep_def untouched_globals_def)
  have upd: "params_keep (g\<lparr>g_clean_output := c, g_tmpdir := t\<rparr>) = params_keep g" for g c t
    by (simp add: params_keep_def untouched_globals_def)
  from assms False show ?thesis
    by (rule register_params_cases) (simp add: files open_verbose_keeps upd)
qed

text \<open>The parameters of the host name are read last.\<close>

lemma register_params_names:
  assumes "dsched_register_params P D s = Inr (rc, s')" and "\<not> ps_passed_thru s"
  shows "g_strip_prefixes (ps_glob s') = reg_string P ''strip_prefix'' (g_strip_prefixes (ps_glob s))
     \<and> g_keep_fqdn_hostnames (ps_glob s') = reg_bool P ''keep_fqdn_hostnames'' (g_keep_fqdn_hostnames (ps_glob s))"
proof -
  define names where "names g = (g_strip_prefixes g, g_keep_fqdn_hostnames g)" for g :: dsched_globals
  have "names (ps_glob (open_server_verbose P b u)) = names (ps_glob u)"
    "names (ps_glob (snd (open_verbose P u))) = names (ps_glob u)"
    "names (register_files P files g) = names g" "names (g\<lparr>g_clean_output := c, g_tmpdir := t\<rparr>) = names g" for b u files g c t
    by (simp_all add: open_verbose_def open_server_verbose_def open_stream_def set_verbosity_def register_files_def
        names_def Let_def)
  note same = this
  have "\<exists>g. ps_glob s' = register_threads P g \<and> names g = names (ps_glob s)"
    using assms by (rule register_params_cases) (auto simp: same)
  then show ?thesis by (auto simp: register_threads_def names_def)
qed

lemma register_params_returns:
  assumes "home_directory P = Some h" and "D F_sysconfdir = Some d"
  shows "\<exists>ps. dsched_register_params P D s = Inr (DSCHED_SUCCESS, ps)"
  using assms by (simp add: dsched_register_params_def default_param_files_def Let_def split_beta)

lemma main_init_untouched: "main_init A s = Go t \<Longrightarrow> untouched_globals (m_glob t) = untouched_globals (m_glob s)"
  using init_util_untouched [of "m_rt A"]
  by (fastforce simp: main_init_def of_res_Go untouched_globals_def Let_def split: option.splits if_splits)

lemma main_params_untouched: "main_params A s = Go t \<Longrightarrow> untouched_globals (m_glob t) = untouched_globals (m_glob s)"
  by (auto simp: main_params_def of_res_Go params_keep_def Let_def dest!: register_params_keeps split: if_splits)

lemma open_select_glob: "open_select A op sel s = Go t \<Longrightarrow> m_glob t = m_glob s"
  by (auto simp: open_select_def Let_def split: prod.splits if_splits)

lemma main_debug_untouched: "main_debug A s = Go t \<Longrightarrow> untouched_globals (m_glob t) = untouched_globals (m_glob s)"
  by (auto simp: main_debug_def open_verbose_def open_stream_def set_verbosity_def untouched_globals_def Let_def
      split: if_splits prod.splits)

lemma main_options_untouched: "main_options A s = Go t \<Longrightarrow> untouched_globals (m_glob t) = untouched_globals (m_glob s)"
proof -
  assume "main_options A s = Go t"
  then obtain s1 s2 s3 where step: "main_keepalive A s = Go s1" "main_debug A s1 = Go s2" "main_daemonize A s2 = Go s3"
    and t: "untouched_globals (m_glob t) = untouched_globals (m_glob s3)"
    by (auto simp: main_options_def ctl_Go untouched_globals_def Let_def split: option.splits)
  have "m_glob s1 = m_glob s" using step(1) by (auto simp: main_keepalive_def of_res_Go split: option.splits)
  moreover have "untouched_globals (m_glob s3) = untouched_globals (m_glob s2)"
    using step(3) by (auto simp: main_daemonize_def untouched_globals_def Let_def
        split: if_splits option.splits prod.splits daemon_result.splits)
  ultimately show ?thesis using main_debug_untouched [OF step(2)] t by simp
qed

lemma main_report_pid_glob: "main_report_pid A s = Go t \<Longrightarrow> m_glob t = m_glob s"
  by (auto simp: main_report_pid_def of_res_Go Let_def split: option.splits if_splits prod.splits)

lemma main_identity_untouched: "main_identity A s = Go t \<Longrightarrow> untouched_globals (m_glob t) = untouched_globals (m_glob s)"
  by (auto simp: main_identity_def of_res_Go untouched_globals_def Let_def)

lemma main_arrays_untouched:
  "main_arrays A s = Go t \<Longrightarrow> untouched_globals (m_glob t) = (g_pid (m_glob s), g_avail_nnodes (m_glob s), [])"
  by (auto simp: main_arrays_def untouched_globals_def Let_def split: if_splits)

lemma main_frameworks_glob: "main_frameworks A s = Go t \<Longrightarrow> m_glob t = m_glob s"
  by (auto simp: main_frameworks_def ctl_bind_Go dest!: open_select_glob)

lemma session_init_untouched:
  "untouched_globals (sd_glob (snd (dsched_session_dir_init S d))) = untouched_globals (sd_glob d)"
  by (simp add: dsched_session_dir_init_def untouched_globals_def Let_def)

lemma register_loop_glob: "sv_glob (snd (register_loop V table s)) = sv_glob s"
  by (induction V table s rule: register_loop.induct) (simp_all add: sv_emit_def Let_def)

lemma server_init_keeps:
  assumes "\<And>g p. f (g\<lparr>g_myid := p\<rparr>) = f g" and "\<And>g b. f (g\<lparr>g_server_initialized := b\<rparr>) = f g"
  shows "f (sv_glob (snd (dsched_server_init V s))) = f (sv_glob s)"
proof -
  have "f (sv_glob (snd (server_register V info t))) = f (sv_glob t)" for info t
    using register_loop_glob [of V "dsched_attributes V"] assms
    by (auto simp: server_register_def sv_emit_def Let_def split_beta)
  then show ?thesis
    using assms by (simp add: dsched_server_init_def Let_def split_beta split: sum.splits)
qed

lemma server_init_untouched:
  "untouched_globals (sv_glob (snd (dsched_server_init V s))) = untouched_globals (sv_glob s)"
  by (rule server_init_keeps) (simp_all add: untouched_globals_def)

lemma main_servers_untouched: "main_servers A s = Go t \<Longrightarrow> untouched_globals (m_glob t) = untouched_globals (m_glob s)"
  using session_init_untouched [of "m_session A" "d_session (ms_daemon s)"]
    server_init_untouched [of "m_server A" "d_server (set_session (snd (dsched_session_dir_init (m_session A)
       (d_session (ms_daemon s)))) (ms_daemon s))"]
  by (auto simp: main_servers_def set_session_def set_server_def d_session_def d_server_def m_glob_def m_emit_def Let_def split_beta
      split: if_splits)

lemma main_start_phases:
  assumes "main_start A s = Go t"
  obtains s1 c r s2 s3 s4 s5 s6 s7 s8 where
    "main_init A s = Go s1" "main_cmdline A s1 = Go c" "main_root A c = Go r" "main_params A r = Go s2"
    "main_identity A s2 = Go s3" "main_arrays A s3 = Go s4" "main_frameworks A s4 = Go s5" "main_options A s5 = Go s6"
    "main_report_pid A s6 = Go s7" "main_servers A s7 = Go s8" "main_ready A s8 = Go t"
  using assms unfolding main_start_def by (elim ctl_bind_GoE) (rule that; assumption)

lemma unchanged_phases: "main_cmdline A x = Go y \<Longrightarrow> y = x" "main_root A x = Go y \<Longrightarrow> y = x"
  by (auto simp: main_cmdline_def main_root_def split: if_splits)

lemma main_ready_nodes:
  assumes "main_ready A s = Go t"
  shows "m_glob t = m_glob (add_nodes A [0..<5] s)" and "ms_nodes t = ms_nodes (add_nodes A [0..<5] s)"
  using assms by (auto simp: main_ready_def of_res_Go m_emit_def m_glob_def Let_def split: if_splits)

text \<open>The number of the five nodes and what the pool then holds.\<close>

lemma add_nodes_glob:
  "g_pid (m_glob (add_nodes A ns s)) = g_pid (m_glob s)
   \<and> g_avail_nnodes (m_glob (add_nodes A ns s)) = g_avail_nnodes (m_glob s)"
  by (induction A ns s rule: add_nodes.induct) (simp_all add: Let_def)

definition pool_node :: "nat \<Rightarrow> dsched_node" where
  "pool_node n = dsched_node_construct\<lparr>n_name := Some (''foo'' @ two_digits n), n_slots := int n + 3\<rparr>"

lemma add_nodes_pool:
  assumes "pointer_array (m_array_add A) set_item" and "\<forall>a p. 0 \<le> snd (m_array_add A a p)"
    and "packed (g_nodes (m_glob s))" and "\<forall>p\<in>set (pa_items (g_nodes (m_glob s))). p < ms_fresh s"
  shows "map (ms_nodes (add_nodes A ns s)) (pa_items (g_nodes (m_glob (add_nodes A ns s))))
     = map (ms_nodes s) (pa_items (g_nodes (m_glob s))) @ map (Some \<circ> pool_node) ns"
  using assms(3,4)
proof (induction ns arbitrary: s)
  case (Cons n ns)
  let ?p = "ms_fresh s" and ?a = "g_nodes (m_glob s)"
  obtain a i where add: "m_array_add A ?a ?p = (a, i)" "0 \<le> i" using assms(2) by (metis prod.collapse)
  have items: "pa_items a = pa_items ?a @ [?p]" and "packed a"
    using pointer_array.items_add [OF assms(1) Cons.prems(1) add]
      pointer_array.packed_add [OF assms(1) Cons.prems(1) add(1)] by auto
  let ?s = "set_glob ((m_glob s)\<lparr>g_nodes := a\<rparr>)
      (s\<lparr>ms_fresh := Suc ?p, ms_nodes := (ms_nodes s)(?p \<mapsto> pool_node n)\<rparr>)"
  have fields: "m_glob ?s = (m_glob s)\<lparr>g_nodes := a\<rparr>" "ms_fresh ?s = Suc ?p"
    "ms_nodes ?s = (ms_nodes s)(?p \<mapsto> pool_node n)"
    by (simp_all add: set_glob_def m_glob_def)
  have "add_nodes A (n # ns) s = add_nodes A ns ?s"
    using add by (simp add: pool_node_def Let_def)
  moreover have "\<forall>p\<in>set (pa_items (g_nodes (m_glob ?s))). p < ms_fresh ?s"
    using Cons.prems(2) by (auto simp: fields items)
  moreover have "map (ms_nodes ?s) (pa_items ?a) = map (ms_nodes s) (pa_items ?a)"
    using Cons.prems(2) by (auto simp: fields)
  ultimately show ?case
    using Cons.IH [of ?s] \<open>packed a\<close> by (simp add: fields items)
qed simp

lemma main_start_globals:
  assumes "main_start A s = Go t"
  obtains s8 where "untouched_globals (m_glob s8) = (g_pid (m_glob s), g_avail_nnodes (m_glob s), [])"
    and "main_ready A s8 = Go t"
  using assms
proof (rule main_start_phases)
  fix s1 c r s2 s3 s4 s5 s6 s7 s8
  assume "main_init A s = Go s1" "main_cmdline A s1 = Go c" "main_root A c = Go r" "main_params A r = Go s2"
    "main_identity A s2 = Go s3" "main_arrays A s3 = Go s4" "main_frameworks A s4 = Go s5" "main_options A s5 = Go s6"
    "main_report_pid A s6 = Go s7" "main_servers A s7 = Go s8" "main_ready A s8 = Go t"
  note p = this
  have "c = s1" using p(2) by (rule unchanged_phases)
  moreover have "r = c" using p(3) by (rule unchanged_phases)
  ultimately have "untouched_globals (m_glob s3) = untouched_globals (m_glob s)"
    using main_init_untouched [OF p(1)] main_params_untouched [OF p(4)] main_identity_untouched [OF p(5)] by simp
  moreover have "untouched_globals (m_glob s8) = untouched_globals (m_glob s4)"
    using main_frameworks_glob [OF p(7)] main_options_untouched [OF p(8)] main_report_pid_glob [OF p(9)]
      main_servers_untouched [OF p(10)] by simp
  ultimately have "untouched_globals (m_glob s8) = (g_pid (m_glob s), g_avail_nnodes (m_glob s), [])"
    using main_arrays_untouched [OF p(6)] by (simp add: untouched_globals_def)
  then show ?thesis using p(11) by (rule that)
qed

end
