(* ===== verification/Daemon_Start.thy ===== *)
theory Daemon_Start
  imports Daemon_Properties Sched_Framework
begin

text \<open>
  What start-up guarantees: the protection against running as root, the status
  and the cleanup after a failure, and what the scheduler finds when the daemon
  runs. An example shows that start-up succeeds when the platform and the
  libraries do.
\<close>

subsection \<open>A start that succeeds\<close>

definition sample_main_api :: "nat main_api" where
  "sample_main_api =
     \<lparr>m_rt = sample_rt_api\<lparr>get_version := ''OpenPMIx 5.0.1 (PMIx Standard: 4.1)'', dirs_components := [\<lambda>f. Some ''/usr'']\<rparr>,
      m_params = (\<lambda>env. sample_params_api\<lparr>parse_paramfile := \<lambda>f fvs. (PMIX_ERR_NOT_FOUND, fvs)\<rparr>), m_server = ref_server_api, m_session = sample_dir_api,
      m_process = \<lparr>fork_result = 0, chdir_ok = (\<lambda>d. True), open_null = (\<lambda>T. 5)\<rparr>, m_wait = (\<lambda>pid. None),
      m_meta = sample_fw_env, m_sched = sample_fw_env, m_metric = sample_fw_env, m_priority = 0,
      m_status = (\<lambda>rc. if rc = PMIX_SUCCESS then 0 else - 1), m_argv0 = ''dsched'', m_basename = id,
      m_parse = PMIX_SUCCESS, m_tail = None, m_taken = (\<lambda>opt. False), m_param = (\<lambda>opt. None), m_is_root = False,
      m_term_pipe = True, m_wait_pipe = None, m_array = (\<lambda>n. PMIX_SUCCESS), m_load_nspace = id,
      m_fopen = (\<lambda>f. True), m_array_add = pa_add ref_env\<rparr>"

definition sample_main :: "nat main_state" where
  "sample_main =
     \<lparr>ms_daemon = sample_daemon, ms_rt = sample_rt_state,
      ms_params = \<lparr>ps_passed_thru = False, ps_gen_verbose = 0, ps_glob = sample_globals, ps_opened = 0, ps_levels = []\<rparr>,
      ms_env = Map.empty, ms_fw = sample_frameworks, ms_mod = 0, ms_keepalive = False, ms_ready_msg = True,
      ms_pidfile = None, ms_fds = Map.empty, ms_nodes = Map.empty, ms_fresh = 1, ms_out = []\<rparr>"

lemma sample_version: "version_allowed (m_rt sample_main_api) = Inr True"
proof -
  let ?v = "(5, 0, 1) :: nat \<times> nat \<times> nat"
  have vers: "get_version (m_rt sample_main_api) = ''OpenPMIx'' @ '' '' @ dotted ?v @ '' (PMIx Standard: 4.1)''"
    "min_version (m_rt sample_main_api) = dotted (5, 0, 0)" "max_version (m_rt sample_main_api) = dotted (6, 0, 0)"
    by (simp_all only: sample_rt_api_def sample_main_api_def rt_api.simps main_api.simps dotted_def prod.case) code_simp+
  have "word_triple ?v" "word_triple (5, 0, 0)" "word_triple (6, 0, 0)" by (simp_all add: word_triple_def)
  moreover have "list_all (\<lambda>x. \<not> c_isspace x) ''OpenPMIx''" "\<not> c_isdigit (hd '' (PMIx Standard: 4.1)'')"
    by code_simp+
  moreover have "(5, 0, 0) \<le> ?v" "?v < (6, 0, 0)" by simp_all
  ultimately show ?thesis using version_allowed_range [OF vers] by simp
qed

lemma sample_install:
  "dsched_dinstalldirs_base_open sample_dirs_api PMIX_SUCCESS [\<lambda>f. Some ''/usr''] dsched_dinstall_dirs_init
     = Some (Inr (DSCHED_SUCCESS, \<lambda>f. Some ''/usr''))"
proof -
  let ?ch = "\<lambda>f. [Lit ''/usr'']"
  have first: "fold copy_component [\<lambda>f. Some ''/usr''] dsched_dinstall_dirs_init = (\<lambda>f. Some ''/usr'')"
    by (rule ext) (simp add: copy_component_apply dsched_dinstall_dirs_init_def)
  obtain D where "expand_fields sample_dirs_api all_fields (\<lambda>f. Some ''/usr'') = Some (Inr D)" "\<forall>f. solved ?ch D f"
    using expand_fields_solves [of sample_dirs_api ?ch "[]" all_fields "\<lambda>f. Some ''/usr''"]
    by (auto simp: sample_dirs_api_def plain_def)
  moreover from this have "D = (\<lambda>f. Some ''/usr'')" by (auto simp: solved_def)
  ultimately show ?thesis unfolding dsched_dinstalldirs_base_open_def first by simp
qed

lemma sample_init:
  "\<exists>t. main_init sample_main_api sample_main = Go t \<and> ms_env t = Map.empty \<and> ms_fw t = sample_frameworks
     \<and> rt_dirs (ms_rt t) = (\<lambda>f. Some ''/usr'') \<and> g_hostname (m_glob t) = Some ''node007'' \<and> g_basename (m_glob t) = Some ''dsched''
     \<and> g_param_files (m_glob t) = None \<and> g_override_param_file (m_glob t) = None \<and> ms_params t = ms_params sample_main
     \<and> ms_pidfile t = None \<and> ms_out t = [] \<and> ms_ready_msg t \<and> ms_mod t = 0 \<and> ms_fresh t = 1
     \<and> ms_daemon t = sample_daemon\<lparr>d_glob := m_glob t\<rparr> \<and> \<not> g_server_initialized (m_glob t)
     \<and> g_prohibited_session_dirs (m_glob t) = None"
  using sample_version sample_install
  by (simp add: main_init_def dsched_init_util_def init_library_def init_host_def of_res_def check_exist_def
      sample_main_api_def sample_main_def sample_rt_api_def sample_rt_state_def sample_daemon_def m_glob_def set_glob_def
      sample_globals_def dsched_globals_init_def strip_prefixes_def strip_fqdn_def sample_host_api_def
      dsched_event_base_open_def Let_def)

lemma sample_params:
  assumes "ms_env t = Map.empty" "rt_dirs (ms_rt t) = (\<lambda>f. Some ''/usr'')"
    "g_param_files (m_glob t) = None" "g_override_param_file (m_glob t) = None"
  shows "\<exists>ps. main_params sample_main_api t = Go (set_glob (ps_glob ps) (t\<lparr>ms_env := Map.empty, ms_params := ps\<rparr>))
     \<and> params_keep (ps_glob ps) = params_keep (m_glob t)"
proof -
  let ?P = "sample_params_api\<lparr>parse_paramfile := \<lambda>f fvs. (PMIX_ERR_NOT_FOUND, fvs)\<rparr>"
  have P: "m_params sample_main_api env = ?P" "m_param sample_main_api = (\<lambda>opt. None)" for env
    by (simp_all add: sample_main_api_def)
  have cli: "dsched_process_cli_mca_params (\<lambda>opt. None) env = Inr (DSCHED_SUCCESS, env)" for env
    by (simp add: dsched_process_cli_mca_params_def cli_option_def)
  have preload: "dsched_preload_default_mca_params ?P D (m_glob t) env = Inr (PMIX_SUCCESS, env, [])" for D env
    using assms(3,4) by (simp add: dsched_preload_default_mca_params_def read_defaults_def okay_def)
  obtain ps where ps: "dsched_register_params ?P (\<lambda>f. Some ''/usr'') ((ms_params t)\<lparr>ps_glob := m_glob t\<rparr>)
      = Inr (DSCHED_SUCCESS, ps)"
  proof -
    have "home_directory ?P = Some ''/home/u''" by (simp add: sample_params_api_def)
    from register_params_returns [OF this, of "\<lambda>f. Some ''/usr''"] show ?thesis using that by blast
  qed
  then have "params_keep (ps_glob ps) = params_keep (m_glob t)" using register_params_keeps by fastforce
  then show ?thesis
    using ps assms(1,2) by (intro exI [of _ ps]) (simp add: main_params_def P cli preload of_res_def)
qed

lemma main_identity_returns:
  assumes "ms_env s ''PMIX_SERVER_NSPACE'' = None" and "g_basename (m_glob s) = Some b" and "g_hostname (m_glob s) = Some h"
  shows "\<exists>p. main_identity A s = Go (set_glob ((m_glob s)\<lparr>g_myid := p\<rparr>) s)"
  using assms by (auto simp: main_identity_def of_res_def Let_def)

lemma main_arrays_returns:
  assumes "\<And>n. m_array A n = PMIX_SUCCESS"
  shows "main_arrays A s
     = Go (set_glob ((m_glob s)\<lparr>g_nodes := [], g_sessions := [], g_topologies := [], g_requests := [], g_tools := []\<rparr>) s)"
  using assms by (simp add: main_arrays_def set_glob_def m_glob_def Let_def)

lemma open_select_returns:
  assumes "\<And>F x. fst (op F x) = PMIX_SUCCESS" and "\<And>F x. fst (sel F x) = PMIX_SUCCESS"
  shows "\<exists>F x. open_select A op sel s = Go (s\<lparr>ms_fw := F, ms_mod := x\<rparr>)"
  using assms by (auto simp: open_select_def Let_def split_beta)

lemma main_frameworks_returns:
  assumes "\<And>x. fst (fe_open (m_meta A) x) = PMIX_SUCCESS" and "\<And>x. fst (fe_open (m_sched A) x) = PMIX_SUCCESS"
    and "\<And>x. fst (fe_open (m_metric A) x) = PMIX_SUCCESS"
  shows "\<exists>F x. main_frameworks A s = Go (s\<lparr>ms_fw := F, ms_mod := x\<rparr>)"
proof -
  have sel: "fst (base_select E n fw x) = PMIX_SUCCESS" for E :: "'a fw_env" and n fw x
    by (simp add: base_select_def split_beta)
  have "\<exists>F x. open_select A (dsched_dmeta_base_open (m_meta A)) (dsched_dmeta_base_select (m_meta A) (m_priority A)) s = Go (s\<lparr>ms_fw := F, ms_mod := x\<rparr>)" 
    "\<exists>F x. open_select A (dsched_dsched_base_open (m_sched A)) (dsched_dsched_base_select (m_sched A) (m_priority A)) s = Go (s\<lparr>ms_fw := F, ms_mod := x\<rparr>)"
    "\<exists>F x. open_select A (dsched_dmetric_base_open (m_metric A)) (dsched_dmetric_base_select (m_metric A) (m_priority A)) s = Go (s\<lparr>ms_fw := F, ms_mod := x\<rparr>)" for s
    using assms sel
    by (intro open_select_returns; simp add: dsched_dmeta_base_open_def dsched_dmeta_base_select_def
        dsched_dsched_base_open_def dsched_dsched_base_select_def dsched_dmetric_base_open_def dsched_dmetric_base_select_def base_open_def split_beta)+
  note steps = this
  obtain F x where a: "open_select A (dsched_dmeta_base_open (m_meta A)) (dsched_dmeta_base_select (m_meta A) (m_priority A)) s = Go (s\<lparr>ms_fw := F, ms_mod := x\<rparr>)"
    using steps(1) [of s] by blast
  obtain G y where b: "open_select A (dsched_dsched_base_open (m_sched A)) (dsched_dsched_base_select (m_sched A) (m_priority A)) (s\<lparr>ms_fw := F, ms_mod := x\<rparr>) = Go (s\<lparr>ms_fw := G, ms_mod := y\<rparr>)"
    using steps(2) [of "s\<lparr>ms_fw := F, ms_mod := x\<rparr>"] by auto
  show ?thesis
    using a b steps(3) [of "s\<lparr>ms_fw := G, ms_mod := y\<rparr>"] by (auto simp: main_frameworks_def)
qed

lemma sample_servers:
  assumes "\<not> g_server_initialized (m_glob s)" and "g_prohibited_session_dirs (m_glob s) = None"
    and "\<not> d_setup_complete (ms_daemon s)"
  shows "\<exists>t. main_servers sample_main_api s = Go t \<and> g_hostname (m_glob t) = g_hostname (m_glob s)
     \<and> ms_ready_msg t = ms_ready_msg s"
proof -
  let ?A = sample_main_api and ?d = "ms_daemon s"
  obtain sd where sd: "dsched_session_dir_init (m_session ?A) (d_session ?d) = (PMIX_SUCCESS, sd)"
    "\<not> g_server_initialized (sd_glob sd)" "g_hostname (sd_glob sd) = g_hostname (m_glob s)"
    using assms by (auto simp: dsched_session_dir_init_def d_session_def m_glob_def sample_main_api_def
        sample_dir_api_def Let_def)
  obtain sv where sv: "dsched_server_init (m_server ?A) (d_server (set_session sd ?d)) = (PMIX_SUCCESS, sv)"
    "g_hostname (sv_glob sv) = g_hostname (sd_glob sd)"
  proof -
    have "server_lib (m_server ?A)" using ref_server.server_lib_axioms by (simp add: sample_main_api_def)
    from server_lib.server_init_calls [OF this _ attributes_table, of "d_server (set_session sd ?d)"] sd(2)
    obtain sv where sv: "dsched_server_init (m_server ?A) (d_server (set_session sd ?d)) = (PMIX_SUCCESS, sv)"
      by (auto simp: d_server_def set_session_def)
    moreover have "g_hostname (sv_glob sv) = g_hostname (sd_glob sd)"
      using server_init_keeps [of g_hostname "m_server ?A" "d_server (set_session sd ?d)"] sv
      by (simp add: d_server_def set_session_def)
    ultimately show ?thesis by (rule that)
  qed
  then show ?thesis using sd
    by (simp add: main_servers_def m_glob_def set_server_def set_session_def m_emit_def Let_def)
qed

lemma add_nodes_keeps:
  "g_hostname (m_glob (add_nodes A ns s)) = g_hostname (m_glob s) \<and> ms_ready_msg (add_nodes A ns s) = ms_ready_msg s"
  by (induction A ns s rule: add_nodes.induct) (simp_all add: set_glob_def m_glob_def Let_def)

lemma sample_early:
  obtains s1 s2 s3 where "main_init sample_main_api sample_main = Go s1" "main_cmdline sample_main_api s1 = Go s1"
    "main_root sample_main_api s1 = Go s1" "main_params sample_main_api s1 = Go s2" "main_identity sample_main_api s2 = Go s3"
    "g_hostname (m_glob s3) = Some ''node007''" "\<not> g_server_initialized (m_glob s3)"
    "g_prohibited_session_dirs (m_glob s3) = None" "\<not> d_setup_complete (ms_daemon s3)" "ms_ready_msg s3"
proof -
  let ?A = sample_main_api
  obtain s1 where s1: "main_init ?A sample_main = Go s1" "ms_env s1 = Map.empty" "rt_dirs (ms_rt s1) = (\<lambda>f. Some ''/usr'')"
    "g_hostname (m_glob s1) = Some ''node007''" "g_basename (m_glob s1) = Some ''dsched''" "g_param_files (m_glob s1) = None"
    "g_override_param_file (m_glob s1) = None" "ms_daemon s1 = sample_daemon\<lparr>d_glob := m_glob s1\<rparr>"
    "\<not> g_server_initialized (m_glob s1)" "g_prohibited_session_dirs (m_glob s1) = None" "ms_ready_msg s1"
    using sample_init by auto
  obtain ps where ps: "main_params ?A s1 = Go (set_glob (ps_glob ps) (s1\<lparr>ms_env := Map.empty, ms_params := ps\<rparr>))"
      "params_keep (ps_glob ps) = params_keep (m_glob s1)"
    using sample_params [OF s1(2,3,6,7)] by blast
  let ?s2 = "set_glob (ps_glob ps) (s1\<lparr>ms_env := Map.empty, ms_params := ps\<rparr>)"
  obtain p where p: "main_identity ?A ?s2 = Go (set_glob ((m_glob ?s2)\<lparr>g_myid := p\<rparr>) ?s2)"
    using main_identity_returns [of ?s2 "''dsched''" "''node007''" ?A] s1(4,5) ps(2)
    by (auto simp: params_keep_def set_glob_def m_glob_def)
  show thesis
  proof (rule that [OF s1(1) _ _ ps(1) p])
    show "main_cmdline ?A s1 = Go s1" "main_root ?A s1 = Go s1"
      by (simp_all add: main_cmdline_def main_root_def sample_main_api_def)
    have "d_setup_complete (ms_daemon (set_glob g x)) = d_setup_complete (ms_daemon x)" for g and x :: "nat main_state"
      by (simp add: set_glob_def)
    then show "\<not> d_setup_complete (ms_daemon (set_glob ((m_glob ?s2)\<lparr>g_myid := p\<rparr>) ?s2))"
      using s1(8) by (simp add: sample_daemon_def)
  qed (use s1 ps(2) in \<open>simp_all add: params_keep_def, simp_all add: set_glob_def\<close>)
qed

lemma early_phases_cong:
  assumes "m_rt A = m_rt B" "m_basename A = m_basename B" "m_argv0 A = m_argv0 B" "m_status A = m_status B"
    "m_term_pipe A = m_term_pipe B" "m_parse A = m_parse B" "m_tail A = m_tail B" "m_params A = m_params B"
    "m_param A = m_param B" "m_load_nspace A = m_load_nspace B"
  shows "main_init A s = main_init B s" "main_cmdline A s = main_cmdline B s" "main_params A s = main_params B s"
    "main_identity A s = main_identity B s"
  unfolding main_init_def main_cmdline_def main_params_def main_identity_def assms by (rule refl)+

lemma sample_start: "\<exists>t. main_start sample_main_api sample_main = Go t \<and> ms_ready_msg t"
proof -
  let ?A = sample_main_api
  obtain s1 s2 s3 where early: "main_init ?A sample_main = Go s1" "main_cmdline ?A s1 = Go s1" "main_root ?A s1 = Go s1"
    "main_params ?A s1 = Go s2" "main_identity ?A s2 = Go s3"
    and s3: "g_hostname (m_glob s3) = Some ''node007''" "\<not> g_server_initialized (m_glob s3)"
    "g_prohibited_session_dirs (m_glob s3) = None" "\<not> d_setup_complete (ms_daemon s3)" "ms_ready_msg s3"
    by (rule sample_early)
  obtain s4 where arrays: "main_arrays ?A s3 = Go s4" and s4: "s4 = set_glob
      ((m_glob s3)\<lparr>g_nodes := [], g_sessions := [], g_topologies := [], g_requests := [], g_tools := []\<rparr>) s3"
    using main_arrays_returns [of ?A s3] by (simp add: sample_main_api_def)
  obtain F x where fw: "main_frameworks ?A s4 = Go (s4\<lparr>ms_fw := F, ms_mod := x\<rparr>)"
    using main_frameworks_returns [of ?A s4] by (auto simp: sample_main_api_def sample_fw_env_def)
  let ?s5 = "s4\<lparr>ms_fw := F, ms_mod := x\<rparr>"
  have opts: "main_options ?A ?s5 = Go ?s5" "main_report_pid ?A ?s5 = Go ?s5"
    by (simp_all add: main_options_def main_keepalive_def main_debug_def main_daemonize_def main_report_pid_def
        sample_main_api_def Let_def)
  obtain s6 where s6: "main_servers ?A ?s5 = Go s6" "g_hostname (m_glob s6) = Some ''node007''" "ms_ready_msg s6"
    using sample_servers [of ?s5] s3 by (auto simp: s4 set_glob_def m_glob_def)
  have "g_hostname (m_glob (add_nodes ?A [0..<5] s6)) = Some ''node007'' \<and> ms_ready_msg (add_nodes ?A [0..<5] s6)"
    using s6(2,3) add_nodes_keeps [of ?A "[0..<5]" s6] by simp
  then have "\<exists>t. main_ready ?A s6 = Go t \<and> ms_ready_msg t" by (simp add: main_ready_def of_res_def m_emit_def Let_def)
  then show ?thesis
    unfolding main_start_def early ctl_bind_simps arrays fw opts s6(1) .
qed

subsection \<open>Running as root\<close>

text \<open>What the user has to do to run the daemon as root.\<close>

definition consent :: "'s main_api \<Rightarrow> environ \<Rightarrow> bool" where
  "consent A env \<longleftrightarrow> m_taken A ''allow-run-as-root''
     \<or> env ''DSCHED_ALLOW_RUN_AS_ROOT'' = Some ''1'' \<and> env ''DSCHED_ALLOW_RUN_AS_ROOT_CONFIRM'' = Some ''1''"

lemma allow_iff_consent: "allow_run_as_root (m_taken A) env \<longleftrightarrow> consent A env"
  by (auto simp: allow_run_as_root_def consent_def split: option.splits)

text \<open>What the first phases leave alone: everything outside the process and its globals.\<close>

definition outside :: "'s main_state \<Rightarrow> environ \<times> frameworks \<times> 's \<times> srv_call list \<times> dir_op list \<times> fd_table \<times> out_event list" where
  "outside s = (ms_env s, ms_fw s, ms_mod s, d_calls (ms_daemon s), d_dir_ops (ms_daemon s), ms_fds s, ms_out s)"

lemma main_init_outside:
  "main_init A s = Go t \<Longrightarrow> outside t = outside s"
  "main_init A s = Leave n t \<Longrightarrow> outside t = outside s"
  "main_init A s \<noteq> Goto_done n t"
  by (auto simp: main_init_def of_res_def outside_def set_glob_def Let_def split: option.splits sum.splits if_splits)



subsection \<open>What runs\<close>

lemma main_Running: "main A s = Running t \<longleftrightarrow> main_start A s = Go t"
  by (simp add: main_def split: ctl.split prod.split)


lemma sample_array: "pointer_array (m_array_add sample_main_api) (pa_set ref_env)"
  "\<forall>a p. 0 \<le> snd (m_array_add sample_main_api a p)"
  using ref_array.pointer_array_axioms by (simp_all add: sample_main_api_def ref_env_def ref_add_def)


lemma main_globals:
  assumes "main A s = Running t"
  shows "g_pid (m_glob t) = g_pid (m_glob s)" and "g_avail_nnodes (m_glob t) = g_avail_nnodes (m_glob s)"
proof -
  obtain u where u: "untouched_globals (m_glob u) = (g_pid (m_glob s), g_avail_nnodes (m_glob s), [])"
    "main_ready A u = Go t"
    using assms main_start_globals unfolding main_Running by blast
  then show "g_pid (m_glob t) = g_pid (m_glob s)" "g_avail_nnodes (m_glob t) = g_avail_nnodes (m_glob s)"
    using add_nodes_glob [of A "[0..<5]" u] unfolding main_ready_nodes [OF u(2)] by (simp_all add: untouched_globals_def)
qed

text \<open>
  Start-up never stores the process id: a daemon whose globals start with
  zero announces itself with the process id zero.
\<close>

theorem announces_pid_zero:
  assumes "main A s = Running t" and "g_pid (m_glob s) = 0" and "ms_ready_msg t"
  shows "\<exists>h. g_hostname (m_glob t) = Some h
     \<and> last (ms_out t) = Out_stderr (''Scheduler checking in as pid 0 on host '' @ h @ newline)"
proof -
  obtain u where "main_ready A u = Go t"
    using assms(1) main_start_globals unfolding main_Running by blast
  moreover have "g_pid (m_glob t) = 0" using main_globals(1) [OF assms(1)] assms(2) by simp
  moreover have "nat_dec 0 = ''0''" by code_simp
  ultimately show ?thesis
    using assms(3) by (auto simp: main_ready_def of_res_def m_emit_def m_glob_def Let_def split: if_splits sum.splits option.splits)
qed

theorem announces_pid_zero_witness:
  "\<exists>t h. main sample_main_api sample_main = Running t
     \<and> last (ms_out t) = Out_stderr (''Scheduler checking in as pid 0 on host '' @ h @ newline)"
proof -
  obtain t where t: "main sample_main_api sample_main = Running t" and "ms_ready_msg t"
    using sample_start unfolding main_Running by blast
  moreover have "g_pid (m_glob sample_main) = 0"
    by (simp add: sample_main_def sample_daemon_def m_glob_def sample_globals_def dsched_globals_init_def)
  ultimately show ?thesis using announces_pid_zero [OF t] by blast
qed

subsection \<open>What the scheduler finds\<close>

lemma res_bind_InrE:
  assumes "res_bind m f = Inr y"
  obtains x where "m = Inr x" "f x = Inr y"
  using assms by auto

lemma fifo_enqueue_fields:
  "fifo_enqueue E r w = Inr w' \<Longrightarrow> glob w' = glob w \<and> w_reqs w' = w_reqs w \<and> w_allocs w' = w_allocs w"
  by (auto simp: fifo_enqueue_def obj_create_def obj_ref_def Let_def split: if_splits)

text \<open>
  C17. Start-up fills the pool but never the number of available nodes, with
  which the scheduler compares: with the globals of a running daemon the fifo
  module makes no allocation for any request for a number of nodes.
\<close>

theorem scheduler_starved:
  assumes "main A s = Running t" and "g_avail_nnodes (m_glob s) = 0" and "glob w = m_glob t"
    and "\<forall>r req. w_reqs w r = Some req \<longrightarrow> 0 \<le> r_num_nodes req" and "fifo_sched E cbdata w = Inr w'"
  shows "w_allocs w' = w_allocs w"
proof -
  have avail: "g_avail_nnodes (glob w) = 0" using main_globals(2) [OF assms(1)] assms(2,3) by simp
  obtain c ro w1 where enq: "(case ro of None \<Rightarrow> Inr w | Some r \<Rightarrow> fifo_enqueue E r w) = Inr w1"
    and go: "(case list_first E (fifo_reqs w1) of
         LNull \<Rightarrow> Inr (DSCHED_THREADSHIFT (Some c) EB_main CB_sched_base_cbfunc w1)
       | LEnd \<Rightarrow> Inl SentinelDeref
       | LItem i \<Rightarrow>
           res_bind (live_get w1 KItem (w_items w1) i) (\<lambda>it.
           res_bind (deref (ri_req it)) (\<lambda>r.
           res_bind (live_get w1 KReq (w_reqs w1) r) (\<lambda>req.
           res_bind
             (if r_num_nodes req < g_avail_nnodes (glob w1)
              then fifo_allocate E c r (r_num_nodes req) w1 else Inr w1) (\<lambda>w.
           Inr (DSCHED_THREADSHIFT (Some c) EB_main CB_sched_base_cbfunc w)))))) = Inr w'"
    using assms(5) unfolding fifo_sched_def by (elim res_bind_InrE) (erule (1) that)
  have w1: "glob w1 = glob w" "w_reqs w1 = w_reqs w" "w_allocs w1 = w_allocs w"
    using enq fifo_enqueue_fields by (fastforce split: option.splits)+
  have "\<not> r_num_nodes req < g_avail_nnodes (glob w1)" if "live_get w1 KReq (w_reqs w1) r = Inr req" for r req
    using that assms(4) w1(1,2) avail by (fastforce simp: live_get_def not_less split: if_splits option.splits)
  then have "w' = DSCHED_THREADSHIFT (Some c) EB_main CB_sched_base_cbfunc w1"
    using go by (auto split: list_ref.splits)
  then show ?thesis using w1(3) by (simp add: DSCHED_THREADSHIFT_def)
qed

definition sample_starved :: "dsched_globals \<Rightarrow> world" where
  "sample_starved g = (start_world g sample_nodes 10)
     \<lparr>w_cads := [3 \<mapsto> scon\<lparr>sc_req := Some 4, sc_trk := Some 5\<rparr>],
      w_reqs := [4 \<mapsto> (req_con (proc_invalid ref_env))\<lparr>r_num_nodes := 2\<rparr>]\<rparr>"

theorem scheduler_starved_witness:
  "\<exists>t w'. main sample_main_api sample_main = Running t
     \<and> fifo_sched ref_env (Some 3) (sample_starved (m_glob t)) = Inr w' \<and> w_allocs w' = Map.empty"
proof -
  obtain t where t: "main sample_main_api sample_main = Running t" using sample_start unfolding main_Running by blast
  let ?w = "sample_starved (m_glob t)"
  have "g_avail_nnodes (m_glob sample_main) = 0"
    by (simp add: sample_main_def sample_daemon_def m_glob_def sample_globals_def dsched_globals_init_def)
  note avail = this main_globals(2) [OF t]
  have "\<forall>r req. w_reqs ?w r = Some req \<longrightarrow> 0 \<le> r_num_nodes req" by (simp add: sample_starved_def)
  moreover obtain w' where "fifo_sched ref_env (Some 3) ?w = Inr w'"
    using avail by (auto simp: fifo_sched_def sample_starved_def start_world_def live_get_def fifo_enqueue_def obj_create_def obj_ref_def
       ref_env_def scon_def drtcon_def Let_def)
  ultimately show ?thesis
    using scheduler_starved [OF t avail(1), of ?w ref_env "Some 3" w'] t by (auto simp: sample_starved_def start_world_def)
qed

subsection \<open>Failures after the command line\<close>

text \<open>A jump to the common end carries a status that is not zero, in one of the two places.\<close>

definition failing :: "int \<Rightarrow> 's main_state \<Rightarrow> bool" where
  "failing ret s \<longleftrightarrow> ret \<noteq> 0 \<or> g_exit_status (m_glob s) \<noteq> 0"

definition status_numbers :: "'s main_api \<Rightarrow> bool" where
  "status_numbers A \<longleftrightarrow> (\<forall>rc. m_status A rc = 0 \<longrightarrow> rc = PMIX_SUCCESS)"

lemma phase_never_done:
  "main_init A s \<noteq> Goto_done r t" "main_cmdline A s \<noteq> Goto_done r t" "main_root A s \<noteq> Goto_done r t"
  "main_params A s \<noteq> Goto_done r t" "main_identity A s \<noteq> Goto_done r t"
  by (auto simp: main_init_def main_cmdline_def main_root_def main_params_def main_identity_def of_res_def Let_def
      split: option.splits sum.splits if_splits prod.splits)

lemma main_arrays_failing: "main_arrays A s = Goto_done r t \<Longrightarrow> status_numbers A \<Longrightarrow> failing r t"
  by (auto simp: main_arrays_def status_numbers_def failing_def Let_def split: if_splits)

lemma open_select_failing: "open_select A op sel s = Goto_done r t \<Longrightarrow> status_numbers A \<Longrightarrow> failing r t"
  by (auto simp: open_select_def status_numbers_def failing_def Let_def split: if_splits prod.splits)

lemma main_frameworks_failing: "main_frameworks A s = Goto_done r t \<Longrightarrow> status_numbers A \<Longrightarrow> failing r t"
  by (auto simp: main_frameworks_def ctl_bind_done dest: open_select_failing)

lemma main_daemonize_failing: "main_daemonize A s = Goto_done r t \<Longrightarrow> failing r t"
  by (auto simp: main_daemonize_def failing_def DSCHED_ERR_SILENT_def DSCHED_ERR_BASE_def Let_def
      split: option.splits if_splits prod.splits daemon_result.splits)

lemma option_phases_never_done: "main_keepalive A s \<noteq> Goto_done r t" "main_debug A s \<noteq> Goto_done r t"
  by (auto simp: main_keepalive_def main_debug_def of_res_done Let_def split: option.splits if_splits prod.splits)

lemma main_options_failing: "main_options A s = Goto_done r t \<Longrightarrow> failing r t"
  by (auto simp: main_options_def ctl_done option_phases_never_done Let_def dest: main_daemonize_failing
      split: option.splits)

lemma main_report_pid_failing: "main_report_pid A s = Goto_done r t \<Longrightarrow> failing r t"
  by (auto simp: main_report_pid_def of_res_done failing_def DSCHED_UPDATE_EXIT_STATUS_def Let_def
      split: option.splits if_splits prod.splits)

lemma main_servers_failing: "main_servers A s = Goto_done r t \<Longrightarrow> status_numbers A \<Longrightarrow> failing r t"
  by (auto simp: main_servers_def status_numbers_def failing_def Let_def split: if_splits prod.splits)

lemma main_ready_never_done: "main_ready A s \<noteq> Goto_done r t"
  by (auto simp: main_ready_def of_res_def Let_def split: sum.splits)

lemma main_start_failing: "main_start A s = Goto_done r t \<Longrightarrow> status_numbers A \<Longrightarrow> failing r t"
  unfolding main_start_def ctl_bind_done
  by (auto simp: phase_never_done main_ready_never_done
      dest: main_arrays_failing main_frameworks_failing main_options_failing main_report_pid_failing main_servers_failing)

lemma shut_down_fields:
  "d_calls (shut_down V d) = d_calls d @ (if g_server_initialized (d_glob d) then [Call_tool_finalize] else [])"
  "d_dir_ops (shut_down V d) = d_dir_ops d @
     (case g_tmpdir (d_glob d) of Some x \<Rightarrow> if d_tmpdir_created d then [Dir_destroy x, Dir_rmdir x] else [] | None \<Rightarrow> [])"
  "g_exit_status (d_glob (shut_down V d)) = g_exit_status (d_glob d)"
  by (simp_all add: shut_down_def set_session_def set_server_def d_server_def d_session_def
      dsched_server_finalize_def dsched_session_dir_finalize_def sv_emit_def Let_def split: option.split)

lemma exit_status_fields:
  "g_exit_status (DSCHED_UPDATE_EXIT_STATUS r g) = (if g_exit_status g = 0 then r else g_exit_status g)"
  "g_tmpdir (DSCHED_UPDATE_EXIT_STATUS r g) = g_tmpdir g"
  "g_server_initialized (DSCHED_UPDATE_EXIT_STATUS r g) = g_server_initialized g"
  by (simp_all add: DSCHED_UPDATE_EXIT_STATUS_def)

text \<open>
  C15. When start-up fails after the parameters were registered, the process
  ends with a status that is not zero, having removed the file with its process
  id, ended the server library if its start was attempted, and removed the
  session directory if it created it.
\<close>

theorem failed_start_cleans_up:
  assumes "main_start A s = Goto_done ret t" and "\<forall>rc. m_status A rc = 0 \<longrightarrow> rc = PMIX_SUCCESS"
  shows "\<exists>code u. main A s = Exited code u \<and> code \<noteq> 0 \<and> code = g_exit_status (m_glob u)
     \<and> ms_out u = ms_out t @ (case ms_pidfile t of None \<Rightarrow> [] | Some f \<Rightarrow> [Out_unlink f])
     \<and> d_calls (ms_daemon u) = d_calls (ms_daemon t) @ (if g_server_initialized (m_glob t) then [Call_tool_finalize] else [])
     \<and> d_dir_ops (ms_daemon u) = d_dir_ops (ms_daemon t) @
         (case g_tmpdir (m_glob t) of Some d \<Rightarrow> if d_tmpdir_created (ms_daemon t) then [Dir_destroy d, Dir_rmdir d] else []
          | None \<Rightarrow> [])"
proof -
  obtain code u where u: "main_done A ret t = (code, u)" by (cases "main_done A ret t")
  have "status_numbers A" using assms(2) by (simp add: status_numbers_def)
  with assms(1) have "failing ret t" by (rule main_start_failing)
  let ?d = "(ms_daemon t)\<lparr>d_glob := DSCHED_UPDATE_EXIT_STATUS ret (m_glob t)\<rparr>"
  have d: "ms_daemon u = shut_down (m_server A) ?d" "code = g_exit_status (m_glob u)"
    "ms_out u = ms_out t @ (case ms_pidfile t of None \<Rightarrow> [] | Some f \<Rightarrow> [Out_unlink f])"
    using u by (auto simp: main_done_def set_glob_def m_glob_def m_emit_def Let_def split: option.split)
  have "code \<noteq> 0"
    using d(1,2) \<open>failing ret t\<close> by (auto simp: m_glob_def shut_down_fields exit_status_fields failing_def)
  moreover have "d_tmpdir_created ?d = d_tmpdir_created (ms_daemon t)" by simp
  ultimately show ?thesis
    using u assms(1) d by (simp add: main_def shut_down_fields exit_status_fields m_glob_def cong: if_cong option.case_cong)
qed

text \<open>The array of nodes cannot be set up.\<close>

definition failing_main_api :: "nat main_api" where
  "failing_main_api = sample_main_api\<lparr>m_array := \<lambda>n. PMIX_ERROR\<rparr>"

theorem failed_start_cleans_up_witness:
  "\<exists>code u. main failing_main_api sample_main = Exited code u \<and> code \<noteq> 0"
proof -
  obtain s1 s2 s3 where early: "main_init sample_main_api sample_main = Go s1" "main_cmdline sample_main_api s1 = Go s1"
    "main_root sample_main_api s1 = Go s1" "main_params sample_main_api s1 = Go s2" "main_identity sample_main_api s2 = Go s3"
    by (rule sample_early)
  have "main_init failing_main_api sample_main = Go s1" "main_cmdline failing_main_api s1 = Go s1"
    "main_root failing_main_api s1 = Go s1" "main_params failing_main_api s1 = Go s2"
    "main_identity failing_main_api s2 = Go s3"
    using early early_phases_cong [of failing_main_api sample_main_api]
    by (simp_all add: failing_main_api_def main_root_def)
  moreover have "\<exists>t. main_arrays failing_main_api s3 = Goto_done (- 1) t"
    by (simp add: main_arrays_def failing_main_api_def sample_main_api_def)
  ultimately obtain t where t: "main_start failing_main_api sample_main = Goto_done (- 1) t"
    unfolding main_start_def by (auto simp: ctl_bind_def)
  have "\<forall>rc. m_status failing_main_api rc = 0 \<longrightarrow> rc = PMIX_SUCCESS" by (simp add: failing_main_api_def sample_main_api_def)
  from failed_start_cleans_up [OF t this] show ?thesis by blast
qed

subsection \<open>The parameters of the host name\<close>

lemma plain_host_name:
  assumes "g_strip_prefixes g = None" and "\<not> g_keep_fqdn_hostnames g" and "\<not> isaddr H h"
    and "strip_fqdn H (strip_prefixes H h g) = Inr g'"
  shows "g_hostname g' = Some (takeWhile (\<lambda>c. c \<noteq> CHR ''.'') h)"
    and "g_strip_prefixes g' = None" and "\<not> g_keep_fqdn_hostnames g'"
proof -
  have g: "strip_prefixes H h g = g\<lparr>g_hostname := Some h\<rparr>" using assms(1) by (simp add: strip_prefixes_def)
  have "g_hostname g' = Some (takeWhile (\<lambda>c. c \<noteq> CHR ''.'') h) \<and> g_strip_prefixes g' = None
     \<and> \<not> g_keep_fqdn_hostnames g'"
  proof (cases "CHR ''.'' \<in> set h")
    case True
    then show ?thesis using assms unfolding g strip_fqdn_def by (auto simp: Let_def)
  next
    case False
    then have short: "takeWhile (\<lambda>c. c \<noteq> CHR ''.'') h = h" by (auto simp: takeWhile_eq_all_conv)
    have "g' = g\<lparr>g_hostname := Some h\<rparr>" using False assms(4) unfolding g strip_fqdn_def by simp
    then show ?thesis unfolding short using assms(1,2) by simp
  qed
  then show "g_hostname g' = Some (takeWhile (\<lambda>c. c \<noteq> CHR ''.'') h)" "g_strip_prefixes g' = None"
    "\<not> g_keep_fqdn_hostnames g'" by simp_all
qed

lemma init_host_name:
  assumes "init_host R s = Inr (ret, s')" and "g_strip_prefixes (ev_glob (rt_event s)) = None"
    and "\<not> g_keep_fqdn_hostnames (ev_glob (rt_event s))" and "\<not> isaddr (host R) (gethostname R)"
  shows "g_hostname (ev_glob (rt_event s')) = Some (takeWhile (\<lambda>c. c \<noteq> CHR ''.'') (gethostname R))
     \<and> g_strip_prefixes (ev_glob (rt_event s')) = None \<and> \<not> g_keep_fqdn_hostnames (ev_glob (rt_event s'))"
proof -
  let ?g = "(ev_glob (rt_event s))\<lparr>g_aliases := ifgetaliases R (g_aliases (ev_glob (rt_event s)))\<rparr>"
  obtain g2 where g2: "strip_fqdn (host R) (strip_prefixes (host R) (gethostname R) ?g) = Inr g2"
    using assms(1) unfolding init_host_def Let_def by auto
  have "g_strip_prefixes ?g = None" "\<not> g_keep_fqdn_hostnames ?g" using assms(2,3) by simp_all
  note name = plain_host_name [OF this assms(4) g2]
  then show ?thesis
    using assms(1) g2 by (auto simp: init_host_def dsched_event_base_open_def Let_def split: if_splits)
qed

text \<open>A runtime that starts has determined the host name.\<close>

lemma init_util_host:
  assumes "dsched_init_util R s = Some (Inr (ret, s'))" and "\<not> rt_util_initialized s"
    and "ret = DS DSCHED_SUCCESS \<or> ret = PX PMIX_SUCCESS"
  shows "\<exists>t. init_host R t = Inr (ret, s') \<and> rt_event t = rt_event s"
proof -
  have silent: "DS DSCHED_ERR_SILENT \<noteq> DS DSCHED_SUCCESS" by (simp add: DSCHED_ERR_SILENT_def DSCHED_SUCCESS_def)
  have lib: "\<exists>u. init_host R u = Inr (ret, s') \<and> rt_event u = rt_event t" if "init_library R t = Inr (ret, s')" for t
    using that assms(3) by (auto simp: init_library_def Let_def split: if_splits)
  obtain t where "init_library R t = Inr (ret, s')" "rt_event t = rt_event s"
    using assms silent unfolding dsched_init_util_def Let_def
    by (fastforce split: if_splits sum.splits prod.splits option.splits bind_splits)
  then show ?thesis using lib by metis
qed

lemma main_init_host:
  assumes "main_init A s = Go t" and "\<not> rt_util_initialized (ms_rt s)" and "status_numbers A"
  shows "\<exists>x y. init_host (m_rt A) x = Inr y \<and> rt_event (snd y) = rt_event (ms_rt t)
     \<and> m_glob t = ev_glob (rt_event (ms_rt t)) \<and> ms_params t = ms_params s \<and> ms_env t = ms_env s
     \<and> ev_glob (rt_event x) = (m_glob s)\<lparr>g_basename := Some (m_basename A (m_argv0 A))\<rparr>"
proof -
  let ?g = "(m_glob s)\<lparr>g_basename := Some (m_basename A (m_argv0 A))\<rparr>"
  let ?rt = "(ms_rt s)\<lparr>rt_event := (rt_event (ms_rt s))\<lparr>ev_glob := ?g\<rparr>\<rparr>"
  obtain ret rt where r: "dsched_init_util (m_rt A) ?rt = Some (Inr (ret, rt))" "code_int (m_status A) ret = DSCHED_SUCCESS"
    and t: "t = set_glob (ev_glob (rt_event rt)) (s\<lparr>ms_rt := rt\<rparr>)"
    using assms(1) by (auto simp: main_init_def of_res_Go Let_def split: option.splits if_splits)
  have "ret = DS DSCHED_SUCCESS \<or> ret = PX PMIX_SUCCESS"
    using r(2) assms(3) by (cases ret) (auto simp: status_numbers_def DSCHED_SUCCESS_def DSCHED_ERR_BASE_def)
  then obtain x where "init_host (m_rt A) x = Inr (ret, rt)" "rt_event x = rt_event ?rt"
    using init_util_host [OF r(1)] assms(2) by auto
  then show ?thesis by (intro exI [of _ x] exI [of _ "(ret, rt)"]) (simp add: t set_glob_def m_glob_def)
qed




end
