(* ===== verification/Info_Tool.thy ===== *)
theory Info_Tool
  imports Daemon_Start
begin

text \<open>
  The information tool (\<open>tools/dsched_info/dsched_info.c\<close>): which sections it
  displays for which options. A run is the list of the display functions it
  calls; what they print is the library's.
\<close>

subsection \<open>Data\<close>

datatype info_opt =
    PMIX_CLI_INFO_ALL | PMIX_CLI_INFO_ARCH | PMIX_CLI_INFO_CONFIG | PMIX_CLI_INFO_HOSTNAME | PMIX_CLI_INFO_INTERNAL
  | PMIX_CLI_INFO_PARAM | PMIX_CLI_INFO_PARAMS | PMIX_CLI_INFO_PATH | PMIX_CLI_INFO_VERSION | PMIX_CLI_PRETTY_PRINT
  | PMIX_CLI_PARSABLE | PMIX_CLI_PARSEABLE | PMIX_CLI_INFO_SHOW_FAILED | PMIX_CLI_INFO_SELECTED_ONLY
  | PMIX_CLI_INFO_TYPES | PMIX_CLI_INFO_COLOR | Include_pmix

text \<open>
  The display functions with the arguments that depend on the run: the project,
  the type, component and scope of a version, whether everything is wanted,
  whether internal parameters are, and whether the command line is given.
\<close>

datatype info_action =
    Show_package | Show_version | Show_component_version string string string string
  | Do_path bool | Show_path "string option" | Do_arch | Do_hostname | Do_config bool
  | Do_params string bool bool | Do_type | Info_out
  | Show_pmix_package | Show_pmix_version | Do_pmix_path bool | Do_pmix_config bool

record info_state =
  is_rt :: rt_state
  is_params :: params_state
  is_color :: bool
  is_pretty :: bool
  is_selected_only :: bool
  is_track_errors :: bool
  is_types :: "string list"
  is_out :: "info_action list"

text \<open>
  The libraries. \<open>i_param\<close> gives the values of an option, which may be null;
  \<open>i_split\<close> is \<open>PMIx_Argv_split\<close>, null for an empty string; \<open>i_frameworks\<close> are
  the names in the table that the build generates; \<open>i_all_types\<close> to \<open>i_ver_all\<close>
  are the library's names for everything.
\<close>

record info_api =
  i_rt :: rt_api
  i_mca :: params_api
  i_status :: "pmix_status \<Rightarrow> int"
  i_argv0 :: string
  i_basename :: "string \<Rightarrow> string"
  i_parse :: pmix_status
  i_tail :: "string option"
  i_taken :: "info_opt \<Rightarrow> bool"
  i_param :: "info_opt \<Rightarrow> string list option option"
  i_isatty :: bool
  i_frameworks :: "string list"
  i_register_types :: "string list \<Rightarrow> string list"
  i_base_open :: pmix_status
  i_register_frameworks :: pmix_status
  i_pmix_params :: pmix_status
  i_pmix_frameworks :: pmix_status
  i_split :: "string \<Rightarrow> char \<Rightarrow> string list option"
  i_all_types :: string
  i_all_components :: string
  i_ver_full :: string
  i_ver_all :: string
  i_pmix_prefix :: "string option"

definition show_info :: "info_action list \<Rightarrow> info_state \<Rightarrow> info_state" where
  "show_info xs s = s\<lparr>is_out := is_out s @ xs\<rparr>"

subsection \<open>Start\<close>

text \<open>The runtime and the command line.\<close>

definition info_init :: "info_api \<Rightarrow> info_state \<Rightarrow> info_state ctl" where
  "info_init A s =
     (let e = rt_event (is_rt s);
          rt = (is_rt s)\<lparr>rt_event := e\<lparr>ev_glob := (ev_glob e)\<lparr>g_basename := Some (i_basename A (i_argv0 A))\<rparr>\<rparr>\<rparr>
      in case dsched_init_util (i_rt A) rt of
           None \<Rightarrow> Hang
         | Some r \<Rightarrow> of_res r (\<lambda>(ret, rt).
             let s = s\<lparr>is_rt := rt\<rparr>; n = code_int (i_status A) ret
             in if n \<noteq> DSCHED_SUCCESS then Leave n s else Go s))"

definition info_cmdline :: "info_api \<Rightarrow> info_state \<Rightarrow> info_state ctl" where
  "info_cmdline A s =
     (if i_parse A \<noteq> PMIX_SUCCESS then
        Leave (if i_parse A = PMIX_OPERATION_SUCCEEDED then i_status A PMIX_SUCCESS else i_status A (i_parse A)) s
      else if (case i_tail A of None \<Rightarrow> False | Some str \<Rightarrow> str \<noteq> i_argv0 A) then Leave (- 1) s
      else Go s)"

definition color_value :: "info_api \<Rightarrow> string" where
  "color_value A = (case i_param A PMIX_CLI_INFO_COLOR of Some (Some (v # _)) \<Rightarrow> v | _ \<Rightarrow> ''auto'')"

definition info_color :: "info_api \<Rightarrow> info_state \<Rightarrow> info_state ctl" where
  "info_color A s =
     (let color = color_value A
      in if same_nocase color ''auto'' then Go (s\<lparr>is_color := i_isatty A\<rparr>)
         else if same_nocase color ''always'' then Go (s\<lparr>is_color := True\<rparr>)
         else if same_nocase color ''never'' then Go (s\<lparr>is_color := False\<rparr>)
         else Leave 2 s)"

definition info_flags :: "info_api \<Rightarrow> info_state \<Rightarrow> info_state" where
  "info_flags A s =
     (let s = (if i_taken A PMIX_CLI_PRETTY_PRINT then s\<lparr>is_pretty := True\<rparr>
               else if i_taken A PMIX_CLI_PARSABLE \<or> i_taken A PMIX_CLI_PARSEABLE then s\<lparr>is_pretty := False\<rparr> else s);
          s = (if i_taken A PMIX_CLI_INFO_SELECTED_ONLY then s\<lparr>is_selected_only := True\<rparr> else s)
      in if i_taken A PMIX_CLI_INFO_SHOW_FAILED then s\<lparr>is_track_errors := True\<rparr> else s)"

definition info_types :: "info_api \<Rightarrow> info_state \<Rightarrow> info_state" where
  "info_types A s =
     (let types = [''mca'', ''dsched''] @ i_frameworks A
      in s\<lparr>is_types := (if i_taken A Include_pmix then i_register_types A types else types)\<rparr>)"

text \<open>The parameters of the frameworks; the result is the status as a number.\<close>

definition register_framework_params :: "info_api \<Rightarrow> info_state \<Rightarrow> (int \<times> info_state) res" where
  "register_framework_params A s =
     (if i_base_open A \<noteq> PMIX_SUCCESS then Inr (i_status A PMIX_ERROR, s)
      else res_bind (dsched_register_params (i_mca A) (rt_dirs (is_rt s)) ((is_params s)\<lparr>ps_glob := ev_glob (rt_event (is_rt s))\<rparr>))
        (\<lambda>(rc, ps).
        let e = rt_event (is_rt s);
            s = s\<lparr>is_params := ps, is_rt := (is_rt s)\<lparr>rt_event := e\<lparr>ev_glob := ps_glob ps\<rparr>\<rparr>\<rparr>
        in if i_status A PMIX_SUCCESS \<noteq> rc then Inr (rc, s)
           else Inr (i_status A (i_register_frameworks A), s)))"

definition info_register :: "info_api \<Rightarrow> info_state \<Rightarrow> info_state ctl" where
  "info_register A s =
     of_res (register_framework_params A s) (\<lambda>(ret, s).
       if ret \<noteq> i_status A PMIX_SUCCESS then
         Leave 1 (if ret = i_status A PMIX_ERR_BAD_PARAM
                  then show_info [Do_params ''DynaSched'' (i_taken A PMIX_CLI_INFO_INTERNAL) False] s else s)
       else if i_taken A Include_pmix then
         if i_pmix_params A \<noteq> PMIX_SUCCESS then Leave (i_status A PMIX_ERROR) s
         else if i_pmix_frameworks A \<noteq> PMIX_SUCCESS then
           Leave 1 (if i_pmix_frameworks A = PMIX_ERR_BAD_PARAM
                    then show_info [Do_params ''PMIx'' (i_taken A PMIX_CLI_INFO_INTERNAL) False] s else s)
         else Go s
       else Go s)"

subsection \<open>Display\<close>

definition all_versions :: "info_api \<Rightarrow> string \<Rightarrow> info_action" where
  "all_versions A project = Show_component_version project (i_all_types A) (i_all_components A) (i_ver_full A)"

text \<open>A framework, or a framework and a component, with a scope.\<close>

definition one_version :: "info_api \<Rightarrow> string \<Rightarrow> string list \<Rightarrow> info_action list res" where
  "one_version A project values =
     (case values of
        [] \<Rightarrow> Inl NullDeref
      | v # vs \<Rightarrow>
          (case i_split A v CHR '':'' of
             None \<Rightarrow> Inl NullDeref
           | Some [] \<Rightarrow> Inl OutOfBounds
           | Some (type # tmp) \<Rightarrow>
               Inr [Show_component_version project type
                      (case tmp of [] \<Rightarrow> i_all_components A | component # _ \<Rightarrow> component)
                      (case vs of [] \<Rightarrow> i_ver_full A | modifier # _ \<Rightarrow> modifier)]))"

text \<open>The sections of a version option: the flag tells whether \<open>acted\<close> is set.\<close>

definition version_sections :: "info_api \<Rightarrow> (info_action list \<times> bool) res" where
  "version_sections A =
     (let full = [Show_package, Show_version, all_versions A ''DynaSched'']
      in case i_param A PMIX_CLI_INFO_VERSION of
           None \<Rightarrow> Inr (if i_taken A PMIX_CLI_INFO_ALL then full else [], False)
         | Some None \<Rightarrow> Inr (full, False)
         | Some (Some values) \<Rightarrow>
             res_bind (deref (case values of [] \<Rightarrow> None | v # _ \<Rightarrow> Some v)) (\<lambda>v.
               if same_nocase v ''dsched'' \<or> same_nocase v ''all'' then Inr (full, True)
               else res_bind (one_version A ''DynaSched'' values) (\<lambda>xs. Inr (xs, True))))"

definition pmix_version_sections :: "info_api \<Rightarrow> (info_action list \<times> bool) res" where
  "pmix_version_sections A =
     (let full = [Show_pmix_package, Show_pmix_version, all_versions A ''PMIx'']
      in case i_param A PMIX_CLI_INFO_VERSION of
           None \<Rightarrow> Inr (if i_taken A PMIX_CLI_INFO_ALL then full else [], False)
         | Some None \<Rightarrow> Inr (full @ [all_versions A ''PMIx''], False)
         | Some (Some values) \<Rightarrow>
             res_bind (deref (case values of [] \<Rightarrow> None | v # _ \<Rightarrow> Some v)) (\<lambda>v.
               if same_nocase v ''pmix'' \<or> same_nocase v ''all'' then Inr (full, True)
               else res_bind (one_version A ''PMIx'' values) (\<lambda>xs. Inr (xs, True))))"

text \<open>
  The sections after the version, from the path to the types: \<open>path\<close>, \<open>config\<close>
  and \<open>project\<close> are what differs between the two projects.
\<close>

definition other_sections :: "info_api \<Rightarrow> info_action \<Rightarrow> info_action \<Rightarrow> string \<Rightarrow> info_action list" where
  "other_sections A path config project =
     (let want_all = i_taken A PMIX_CLI_INFO_ALL
      in (if want_all \<or> i_taken A PMIX_CLI_INFO_PATH then [path] else [])
       @ (if want_all \<or> i_taken A PMIX_CLI_INFO_ARCH then [Do_arch] else [])
       @ (if \<not> want_all \<and> i_taken A PMIX_CLI_INFO_HOSTNAME then [Do_hostname] else [])
       @ (if want_all \<or> i_taken A PMIX_CLI_INFO_CONFIG then [config] else [])
       @ (if want_all \<or> i_taken A PMIX_CLI_INFO_PARAM \<or> i_taken A PMIX_CLI_INFO_PARAMS
          then [Do_params project (i_taken A PMIX_CLI_INFO_INTERNAL) True] else [])
       @ (if i_taken A PMIX_CLI_INFO_TYPES then [Do_type] else []))"

definition dsched_default_set :: "info_api \<Rightarrow> info_state \<Rightarrow> info_action list" where
  "dsched_default_set A s =
     [Show_package, Show_version, Show_path (rt_dirs (is_rt s) F_prefix), Do_arch, Do_config False,
      all_versions A ''DynaSched'']"

definition info_display :: "info_api \<Rightarrow> info_state \<Rightarrow> info_state ctl" where
  "info_display A s =
     of_res (version_sections A) (\<lambda>(xs, acted).
       let want_all = i_taken A PMIX_CLI_INFO_ALL;
           others = other_sections A (Do_path want_all) (Do_config True) ''DynaSched''
       in Go (show_info (xs @ others @ (if acted \<or> others \<noteq> [] then [] else dsched_default_set A s)) s))"

definition pmix_default_set :: "info_api \<Rightarrow> info_action list" where
  "pmix_default_set A =
     [Show_pmix_package, Show_pmix_version, Show_path (i_pmix_prefix A), Do_arch,
      Do_pmix_config (i_taken A PMIX_CLI_INFO_ALL), all_versions A ''PMIx'']"

definition info_display_pmix :: "info_api \<Rightarrow> info_state \<Rightarrow> info_state ctl" where
  "info_display_pmix A s =
     (if \<not> i_taken A Include_pmix then Go s
      else of_res (pmix_version_sections A) (\<lambda>(xs, acted).
        let want_all = i_taken A PMIX_CLI_INFO_ALL;
            others = other_sections A (Do_pmix_path want_all) (Do_pmix_config want_all) ''PMIx''
        in Go (show_info ([Info_out, Info_out] @ xs @ others
                 @ (if acted \<or> others \<noteq> [] then [] else pmix_default_set A)) s)))"

text \<open>A run that goes on to the end returns zero.\<close>

definition info_main :: "info_api \<Rightarrow> info_state \<Rightarrow> info_state ctl" where
  "info_main A s =
     ctl_bind (info_init A s) (\<lambda>s.
     ctl_bind (info_cmdline A s) (\<lambda>s.
     ctl_bind (info_color A s) (\<lambda>s.
     ctl_bind (info_register A (info_types A (info_flags A s))) (\<lambda>s.
     ctl_bind (info_display A s) (info_display_pmix A)))))"

subsection \<open>Properties\<close>

lemma show_info_out [simp]: "is_out (show_info xs s) = is_out s @ xs"
  by (simp add: show_info_def)

lemma info_flags_out [simp]: "is_out (info_types A (info_flags A s)) = is_out s"
  by (simp add: info_flags_def info_types_def Let_def)

lemma register_out: "register_framework_params A s = Inr (rc, t) \<Longrightarrow> is_out t = is_out s"
  by (auto simp: register_framework_params_def Let_def split: if_splits prod.splits)

lemma info_phases_out:
  "info_init A s = Go t \<Longrightarrow> is_out t = is_out s" "info_init A s = Leave n t \<Longrightarrow> is_out t = is_out s"
  "info_cmdline A s = Go t \<Longrightarrow> t = s" "info_cmdline A s = Leave n t \<Longrightarrow> t = s"
  "info_color A s = Go t \<Longrightarrow> is_out t = is_out s" "info_color A s = Leave n t \<Longrightarrow> t = s"
  "info_register A s = Go t \<Longrightarrow> is_out t = is_out s"
  by (auto simp: info_init_def info_cmdline_def info_color_def info_register_def of_res_def Let_def dest: register_out
      split: option.splits sum.splits if_splits prod.splits)

lemma info_register_leave:
  assumes "info_register A s = Leave n t"
  shows "is_out t = is_out s \<or> (\<exists>project b. is_out t = is_out s @ [Do_params project b False])"
    and "n = 1 \<or> n = i_status A PMIX_ERROR"
proof -
  obtain rc u where u: "register_framework_params A s = Inr (rc, u)"
    using assms by (cases "register_framework_params A s") (auto simp: info_register_def of_res_def)
  have "is_out u = is_out s" using u by (rule register_out)
  with assms u show "is_out t = is_out s \<or> (\<exists>project b. is_out t = is_out s @ [Do_params project b False])"
    and "n = 1 \<or> n = i_status A PMIX_ERROR"
    by (auto simp: info_register_def of_res_def split: if_splits)
qed

text \<open>Whether any section but the version is asked for.\<close>

definition asks_section :: "info_api \<Rightarrow> bool" where
  "asks_section A \<longleftrightarrow> list_ex (i_taken A)
     [PMIX_CLI_INFO_ALL, PMIX_CLI_INFO_PATH, PMIX_CLI_INFO_ARCH, PMIX_CLI_INFO_HOSTNAME, PMIX_CLI_INFO_CONFIG,
      PMIX_CLI_INFO_PARAM, PMIX_CLI_INFO_PARAMS, PMIX_CLI_INFO_TYPES]"

lemma other_sections_empty: "other_sections A path config project = [] \<longleftrightarrow> \<not> asks_section A"
  by (auto simp: other_sections_def asks_section_def Let_def)

lemma other_sections_distinct: "distinct (other_sections A (Do_path b) (Do_config True) ''DynaSched'')"
  by (simp add: other_sections_def Let_def)

definition is_version :: "info_action \<Rightarrow> bool" where
  "is_version x \<longleftrightarrow> (case x of Show_package \<Rightarrow> True | Show_version \<Rightarrow> True | Show_component_version _ _ _ _ \<Rightarrow> True | _ \<Rightarrow> False)"

lemma other_sections_no_version:
  "x \<in> set (other_sections A (Do_path b) (Do_config True) ''DynaSched'') \<Longrightarrow> \<not> is_version x"
  by (auto simp: other_sections_def is_version_def Let_def split: if_splits)

lemma version_sections_shape:
  assumes "version_sections A = Inr (xs, acted)"
  shows "distinct xs" and "\<forall>x\<in>set xs. is_version x" and "acted \<Longrightarrow> xs \<noteq> []"
    and "\<not> acted \<Longrightarrow> xs = (if i_taken A PMIX_CLI_INFO_ALL \<or> i_param A PMIX_CLI_INFO_VERSION = Some None
           then [Show_package, Show_version, all_versions A ''DynaSched''] else [])"
    and "acted \<longleftrightarrow> (\<exists>vs. i_param A PMIX_CLI_INFO_VERSION = Some (Some vs))"
  using assms by (auto simp: version_sections_def one_version_def is_version_def all_versions_def Let_def
      split: option.splits if_splits list.splits)

lemma info_main_Go:
  assumes "info_main A s = Go t"
  obtains u where "is_out u = is_out s" and "ctl_bind (info_display A u) (info_display_pmix A) = Go t"
  using assms unfolding info_main_def
  by (elim ctl_bind_GoE) (auto dest!: info_phases_out intro: that)


lemma ctl_bind_LeaveE:
  assumes "ctl_bind c f = Leave n t"
  obtains "c = Leave n t" | x where "c = Go x" "f x = Leave n t"
  using assms that by (cases c) (simp_all add: ctl_bind_def)

lemma info_display_never_leaves: "info_display A s \<noteq> Leave n t" "info_display_pmix A s \<noteq> Leave n t"
  by (cases "version_sections A"; simp add: info_display_def of_res_def Let_def split_beta)
    (cases "pmix_version_sections A"; simp add: info_display_pmix_def of_res_def Let_def split_beta)

lemma info_init_status: "info_init A s = Leave n t \<Longrightarrow> n \<noteq> 0"
  by (auto simp: info_init_def of_res_def DSCHED_SUCCESS_def DSCHED_ERR_BASE_def Let_def
      split: option.splits sum.splits if_splits prod.splits)

lemma info_color_status: "info_color A s = Leave n t \<Longrightarrow> n \<noteq> 0"
  by (auto simp: info_color_def Let_def split: if_splits)

lemma info_cmdline_status:
  assumes "\<forall>rc. i_status A rc = 0 \<longleftrightarrow> rc = PMIX_SUCCESS" and "info_cmdline A s = Leave n t" and "n = 0"
  shows "i_parse A = PMIX_OPERATION_SUCCEEDED"
  using assms by (auto simp: info_cmdline_def split: if_splits)

lemma info_register_returns:
  assumes "home_directory (i_mca A) = Some h" and "rt_dirs (is_rt s) F_sysconfdir = Some d"
    and "i_base_open A = PMIX_SUCCESS" and "i_status A PMIX_SUCCESS = 0" and "i_register_frameworks A = PMIX_SUCCESS"
    and "\<not> i_taken A Include_pmix"
  shows "\<exists>t. info_register A s = Go t"
proof -
  obtain ps where "dsched_register_params (i_mca A) (rt_dirs (is_rt s))
      ((is_params s)\<lparr>ps_glob := ev_glob (rt_event (is_rt s))\<rparr>) = Inr (DSCHED_SUCCESS, ps)"
    using register_params_returns [OF assms(1), of "rt_dirs (is_rt s)" d] assms(2) by blast
  then show ?thesis
    using assms(3-6) by (simp add: info_register_def register_framework_params_def of_res_def DSCHED_SUCCESS_def
        DSCHED_ERR_BASE_def Let_def)
qed


definition sample_info_api :: info_api where
  "sample_info_api =
     \<lparr>i_rt = m_rt sample_main_api, i_mca = sample_params_api, i_status = (\<lambda>rc. if rc = PMIX_SUCCESS then 0 else - 1),
      i_argv0 = ''dsched_info'', i_basename = id, i_parse = PMIX_SUCCESS, i_tail = None, i_taken = (\<lambda>opt. False),
      i_param = (\<lambda>opt. None), i_isatty = True, i_frameworks = [''dmeta'', ''dsched''], i_register_types = id,
      i_base_open = PMIX_SUCCESS, i_register_frameworks = PMIX_SUCCESS, i_pmix_params = PMIX_SUCCESS,
      i_pmix_frameworks = PMIX_SUCCESS, i_split = (\<lambda>s c. Some [s]), i_all_types = ''all'', i_all_components = ''all'',
      i_ver_full = ''full'', i_ver_all = ''all'', i_pmix_prefix = None\<rparr>"

definition sample_info :: info_state where
  "sample_info = \<lparr>is_rt = sample_rt_state, is_params = ms_params sample_main, is_color = False, is_pretty = True,
     is_selected_only = False, is_track_errors = False, is_types = [], is_out = []\<rparr>"

lemma sample_info_init: "\<exists>t. info_init sample_info_api sample_info = Go t \<and> rt_dirs (is_rt t) = (\<lambda>f. Some ''/usr'')"
  using sample_version sample_install
  by (simp add: info_init_def dsched_init_util_def init_library_def init_host_def of_res_def check_exist_def
      sample_info_api_def sample_info_def sample_main_api_def sample_rt_api_def sample_rt_state_def
      sample_globals_def dsched_globals_init_def strip_prefixes_def strip_fqdn_def sample_host_api_def
      dsched_event_base_open_def Let_def)



end
