(* ===== verification/Spec2Isabelle.thy ===== *)
theory Spec2Isabelle
  imports Byte_Order Attributes Globals Mca_Select Pipeline_Properties
    Progress_Threads Install_Dirs Tool_Connect Query_Server Mca_Params Session_Dir Runtime_Init
    Dynamic_Loading Server_Setup Daemon_Process Daemon_Start Info_Tool
begin

text \<open>
  A verification development for DynaSched, a scheduler daemon that takes
  allocation requests over PMIx and hands them to plug-in schedulers. All file
  names below are relative to \<open>src/src\<close>.

  \<^bold>\<open>The program.\<close> The daemon (\<open>tools/dsched\<close>) keeps one global record
  (\<open>include/dsched_globals.*\<close>): its identity, the node pool, the pending requests
  and its configuration. A request arrives through an upcall of the PMIx server
  library (\<open>tools/dsched/session.c\<close>), is shifted into the main progress thread,
  parsed, entered into the table of requests and passed to the meta-schedulers
  (\<open>mca/dmeta\<close>), which pass it on to the schedulers (\<open>mca/dsched\<close>); each runs on
  a thread of its own. The allocations come back to the meta-scheduler, which
  chooses one, and the base of the meta framework answers the requestor.
  The plug-ins are selected by four copies of one algorithm
  (\<open>mca/*/base/*_base_select.c\<close>).

  \<^bold>\<open>The theories.\<close>
  \<^item> \<open>Dsched_Prelude\<close>: machine words, faults as values (\<open>'a res\<close>), folds that stop
    at a fault, insertion by priority, with the lemmas the other theories share.
  \<^item> \<open>Pmix_Types\<close>: the data that crosses the interface to the PMIx library and the
    library's functions as a record of parameters; the locales \<open>pointer_array\<close> and
    \<open>ref_count\<close> state what the program relies on, with interpretations on a
    reference implementation.
  \<^item> \<open>Dsched_Constants\<close> (\<open>include/dsched_constants.h\<close>, \<open>util/dsched_error.c\<close>):
    the status codes; they are distinct and their two groups do not overlap.
  \<^item> \<open>Byte_Order\<close> (\<open>include/dsched_types.h\<close>, \<open>include/dsched_hash_string.h\<close>): byte
    swaps and conversions over the memory layout of a value, and the hash macros.
  \<^item> \<open>Attributes\<close> (\<open>util/dsched_attr.c\<close>): attributes as a tagged union that may hold
    freed pointers; loading and unloading is a round trip, a list of attributes
    behaves as a map.
  \<^item> \<open>Globals\<close> (\<open>include/dsched_globals.c\<close>): the global record and the three node
    matching functions with their specifications.
  \<^item> \<open>Mca_Select\<close> (\<open>mca/*/base\<close>): open, select, close and dispatch of the frameworks;
    the locale \<open>framework_ops\<close> has the contract of the four copies and is
    interpreted on each of them.
  \<^item> \<open>Sched_Objects\<close>: the state of the pipeline, the objects of the program in stores
    with reference counts and a set of freed objects, the queue of events, the
    replies that were sent; constructors and destructors.
  \<^item> \<open>Alloc_Request\<close>, \<open>Meta_Framework\<close>, \<open>Sched_Framework\<close>: the handlers of
    \<open>session.c\<close>, \<open>mca/dmeta\<close> and \<open>mca/dsched\<close>, one definition for each function.
  \<^item> \<open>Pipeline\<close>, \<open>Pipeline_Steps\<close>, \<open>Pipeline_Invariant\<close>, \<open>Pipeline_Properties\<close>: the
    step relation of the daemon (an upcall arrives, or one pending event of any
    thread runs), the invariant that every pending event belongs to one request
    whose objects are alive, and what follows: replies are neither lost nor
    duplicated, runs of events are bounded, and the pipeline can always be run
    to the end. The contract of the libraries is the locale \<open>pipeline_env\<close>,
    interpreted on a reference environment.
  \<^item> \<open>C_Strings\<close>: the functions of the C library that read and write numbers in
    text, and substring search.
  \<^item> \<open>Progress_Threads\<close> (\<open>runtime/dsched_progress_threads.c\<close>): the table of named
    threads with their event bases. The calls into libevent and the thread library
    are a trace; \<open>ops_state\<close> is the discipline a trace has to follow, and every
    reachable state of the table agrees with it under the contract \<open>thread_lib\<close>.
    The cases outside the contract (a binding that is required and fails) and the
    reference count that is never decremented have theorems of their own.
  \<^item> \<open>Install_Dirs\<close> (\<open>mca/dinstalldirs\<close>): the string expansion of directory
    references implements substitution on a parsed text, opening the framework
    resolves the references between directories, and a directory that refers to
    itself makes the loop run forever.
  \<^item> \<open>Mca_Params\<close> (\<open>runtime/dsched_mca_params.c\<close>): the order of precedence among
    parameter files, environment, override file and command line; verbosity.
  \<^item> \<open>Session_Dir\<close> (\<open>util/dsched_session_dir.c\<close>), \<open>Runtime_Init\<close>
    (\<open>runtime/dsched_rte.c\<close>, \<open>event/event.c\<close>): the life of the session directory,
    the version check, the names of the local host.
  \<^item> \<open>Upcalls\<close>, \<open>Tool_Connect\<close>, \<open>Query_Server\<close> (\<open>tools/dsched/backend.c\<close>,
    \<open>tools/dsched/queries.c\<close>): the other two upcalls of the daemon, each with the
    function the library calls and the handler it posts. A loop body that may leave
    the loop early (\<open>goto\<close>) is a value of type \<open>flow\<close>. The contract of the library's
    info lists is the locale \<open>info_lists\<close>.
  \<^item> \<open>Dynamic_Loading\<close> (\<open>mca/ddl\<close>): the two loader modules as records of functions, the
    selection and the wrappers. The calls of the dynamic linker are a trace; the
    locale \<open>ddl_module\<close> has the contract of a module and is interpreted on both.
    Opened and closed libraries balance in every reachable state, opening and
    closing is a round trip, and the search for files visits each name once.
  \<^item> \<open>Server_Setup\<close> (\<open>tools/dsched/server.c\<close>): the calls of server start-up as a trace
    in their order, under the contract \<open>server_lib\<close>; the end, and the handler that
    takes a tool off the list when its connection is lost.
  \<^item> \<open>Daemon_Process\<close> (\<open>util/dsched_daemon_init.c\<close>, \<open>tools/dsched/dsched.c\<close>): detaching
    over a table of descriptors, the parent that waits, the consent to run as root,
    and the handling of signals as a step relation with its invariant.
  \<^item> \<open>Daemon_Main\<close>, \<open>Daemon_Properties\<close>, \<open>Daemon_Start\<close> (\<open>main\<close> of
    \<open>tools/dsched/dsched.c\<close>): start-up as a sequence of phases in the order of the
    code, each of which goes on, jumps to the common end, leaves the program, faults
    or hangs (\<open>ctl\<close>); the phases are the operations of \<open>Runtime_Init\<close>, \<open>Mca_Params\<close>,
    \<open>Mca_Select\<close>, \<open>Session_Dir\<close> and \<open>Server_Setup\<close>. The theorems say what a failed start
    cleans up, what root cannot do, and what the scheduler finds in a running daemon.
  \<^item> \<open>Info_Tool\<close> (\<open>tools/dsched_info/dsched_info.c\<close>): the information tool as the list
    of the sections it displays.

  \<^bold>\<open>How the state is modelled.\<close> A pointer is a number, a structure a record, an
  object store a partial map. Following a null pointer, the end marker of a list,
  a freed object or the wrong member of a union is a fault, a value of the result
  type, so a theorem that a handler returns \<open>Inr\<close> also says that none of these
  happens. An event handler runs atomically; the step relation interleaves
  handlers of all threads and upcalls in any order.

  \<^bold>\<open>Parameters.\<close> Functions of PMIx, libevent, hwloc and the operating system are
  arguments of the definitions that call them; what a property needs of them is a
  hypothesis of that property.

  \<^bold>\<open>Bounds.\<close> Loops over lists are structural recursions and need no fuel. The
  expansion loop of the installation directories may run forever; it is a partial
  function into an option, \<open>None\<close> when it does not return.
  \<open>event_step\<close> is a relation; \<open>weight\<close> bounds how long a run of events can be.

  \<^bold>\<open>Not modelled.\<close> Memory exhaustion; the reuse of addresses by the allocator;
  preemption inside a handler; the text of verbose output and of help messages; the
  parsing of the command line, which the library does; \<open>dsched_event_alloc\<close> and
  \<open>dsched_event_assign\<close>, which only call \<open>malloc\<close> and libevent; the headers that
  configure compilers and platforms, which have no behaviour at run time.
\<close>

end
